(* ===== verification/Trasker_Prelude.thy ===== *)
theory Trasker_Prelude
  imports Main "HOL-Library.Word" "HOL-Library.Multiset" "HOL-Library.Sublist"
    "HOL-Library.Char_ord" "HOL-Library.List_Lexorder" "HOL-Library.Product_Lexorder"
begin

text \<open>
  Shared vocabulary of the development.

  \<^item> Times. A Go \<^verbatim>\<open>time.Time\<close> or \<^verbatim>\<open>time.Duration\<close> is a number of nanoseconds
    (\<open>gotime\<close>); a timestamp column holds UTC RFC3339 text, that is whole seconds (\<open>stamp\<close>).
    \<open>rfc3339\<close> is \<^verbatim>\<open>t.UTC().Format(time.RFC3339)\<close> (it drops the sub-second part) and
    \<open>parse_rfc3339\<close> is \<^verbatim>\<open>time.Parse\<close>. For the years 0..9999 the text order SQLite compares
    with is the order of the seconds, which is how columns are compared here.
  \<^item> Database programs. \<open>'d db\<close> pairs the tables with a fault schedule: the n-th statement
    sent to the driver fails iff \<open>fault n\<close>, so each error return of the code is a branch of the
    model and a theorem over an arbitrary schedule covers every combination of failures. A
    statement that fails leaves the tables alone; \<open>in_tx\<close> is a transaction with a deferred
    rollback.
  \<^item> SQL verbs on tables, which are lists of rows in insertion (rowid) order.
  \<^item> A small calculus of weakest preconditions (\<open>wp\<close>) and of invariants (\<open>keeps\<close>) for such
    programs, on which the component proofs rest.
\<close>

section \<open>Automation\<close>

named_theorems wp_rules \<open>weakest preconditions of database programs\<close>
named_theorems keeps_rules \<open>programs that keep an invariant of the tables\<close>
named_theorems table_simps \<open>tables as lists of rows\<close>

section \<open>Times\<close>

type_synonym gotime = int
type_synonym stamp = int
type_synonym rowid = int

definition second :: gotime where "second = 1000000000"
definition minute :: gotime where "minute = 60 * second"
definition hour :: gotime where "hour = 60 * minute"

definition rfc3339 :: "gotime \<Rightarrow> stamp" where
  "rfc3339 t = t div second"

definition parse_rfc3339 :: "stamp \<Rightarrow> gotime" where
  "parse_rfc3339 s = s * second"

lemma second_pos [simp]: "0 < second" "second \<noteq> 0"
  by (simp_all add: second_def)

lemma rfc3339_parse [simp]: "rfc3339 (parse_rfc3339 s) = s"
  by (simp add: rfc3339_def parse_rfc3339_def)

lemma parse_rfc3339_le: "parse_rfc3339 (rfc3339 t) \<le> t"
  unfolding rfc3339_def parse_rfc3339_def
  using mult_div_mod_eq [of second t] pos_mod_sign [OF second_pos(1), of t]
  by (simp add: mult.commute, linarith)

lemma parse_rfc3339_gt: "t < parse_rfc3339 (rfc3339 t) + second"
  unfolding rfc3339_def parse_rfc3339_def
  using mult_div_mod_eq [of second t] pos_mod_bound [OF second_pos(1), of t]
  by (simp add: mult.commute, linarith)

lemma rfc3339_mono: "s \<le> t \<Longrightarrow> rfc3339 s \<le> rfc3339 t"
  by (simp add: rfc3339_def zdiv_mono1)

lemma parse_rfc3339_less_iff [simp]: "parse_rfc3339 s < parse_rfc3339 t \<longleftrightarrow> s < t"
  by (simp add: parse_rfc3339_def)

lemma parse_rfc3339_le_iff [simp]: "parse_rfc3339 s \<le> parse_rfc3339 t \<longleftrightarrow> s \<le> t"
  by (simp add: parse_rfc3339_def)

lemma rfc3339_add: "rfc3339 (t + second * k) = rfc3339 t + k"
  by (simp add: rfc3339_def)

section \<open>Errors\<close>

text \<open>
  The errors of the client's stores. \<open>EDb\<close> is an error of the driver, with the prefix the
  code wraps it in; \<open>EConstraint\<close> a violated constraint of the schema; \<open>ENotFound\<close> the
  "not found" errors; the others are the errors the code builds itself. Text beyond that
  (wrapping prefixes of callers, the driver's own message) is not kept.
\<close>

datatype err =
    EDb string
  | EConstraint string
  | ENotFound string
  | EUnknownTag rowid
  | EInterval int
  | EInvalid string

section \<open>Database programs\<close>

record 'd db =
  tables :: 'd
  fault :: "nat \<Rightarrow> bool"
  ticks :: nat

type_synonym ('d, 'a) dbm = "'d db \<Rightarrow> (err + 'a) \<times> 'd db"

definition ret :: "'a \<Rightarrow> ('d, 'a) dbm" where
  "ret x s = (Inr x, s)"

definition throw :: "err \<Rightarrow> ('d, 'a) dbm" where
  "throw e s = (Inl e, s)"

definition bindM :: "('d, 'a) dbm \<Rightarrow> ('a \<Rightarrow> ('d, 'b) dbm) \<Rightarrow> ('d, 'b) dbm" where
  "bindM m f s = (case m s of (Inl e, s') \<Rightarrow> (Inl e, s') | (Inr x, s') \<Rightarrow> f x s')"

text \<open>\<open>logged\<close> is a call whose error is only logged: it goes on either way.\<close>

definition logged :: "('d, 'a) dbm \<Rightarrow> ('d, unit) dbm" where
  "logged m s = (Inr (), snd (m s))"

text \<open>\<open>attempt\<close> is a call whose error the caller looks at and handles.\<close>

definition attempt :: "('d, 'a) dbm \<Rightarrow> ('d, err + 'a) dbm" where
  "attempt m s = (case m s of (r, s') \<Rightarrow> (Inr r, s'))"

definition stmt :: "string \<Rightarrow> ('d \<Rightarrow> err + ('a \<times> 'd)) \<Rightarrow> ('d, 'a) dbm" where
  "stmt ctx f s =
     (let s1 = s\<lparr>ticks := Suc (ticks s)\<rparr> in
      if fault s (ticks s) then (Inl (EDb ctx), s1)
      else (case f (tables s) of
              Inl e \<Rightarrow> (Inl e, s1)
            | Inr (x, d) \<Rightarrow> (Inr x, s1\<lparr>tables := d\<rparr>)))"

definition query :: "string \<Rightarrow> ('d \<Rightarrow> 'a) \<Rightarrow> ('d, 'a) dbm" where
  "query ctx f = stmt ctx (\<lambda>d. Inr (f d, d))"

definition in_tx :: "string \<Rightarrow> string \<Rightarrow> ('d, 'a) dbm \<Rightarrow> ('d, 'a) dbm" where
  "in_tx bctx cctx m s =
     (case stmt bctx (\<lambda>d. Inr ((), d)) s of
        (Inl e, s1) \<Rightarrow> (Inl e, s1)
      | (Inr _, s1) \<Rightarrow>
          (case m s1 of
             (Inl e, s2) \<Rightarrow> (Inl e, s2\<lparr>tables := tables s\<rparr>)
           | (Inr x, s2) \<Rightarrow>
               (case stmt cctx (\<lambda>d. Inr ((), d)) s2 of
                  (Inl e, s3) \<Rightarrow> (Inl e, s3\<lparr>tables := tables s\<rparr>)
                | (Inr _, s3) \<Rightarrow> (Inr x, s3))))"

text \<open>A call of the store, with what the handler does when it fails.\<close>

definition try_db :: "('d, 'a) dbm \<Rightarrow> (err \<Rightarrow> 'r) \<Rightarrow> ('a \<Rightarrow> ('d, 'r) dbm) \<Rightarrow> ('d, 'r) dbm" where
  "try_db m bad good = bindM (attempt m) (\<lambda>r. case r of Inl e \<Rightarrow> ret (bad e) | Inr x \<Rightarrow> good x)"

text \<open>
  \<open>sample f\<close> is what the world outside the program answers at this moment (a clock reading, the
  reply to a request); \<open>f\<close> tells it for every moment, counted in statements.
\<close>

definition sample :: "(nat \<Rightarrow> 'a) \<Rightarrow> ('d, 'a) dbm" where
  "sample f s = (Inr (f (ticks s)), s)"

fun forM :: "'a list \<Rightarrow> ('a \<Rightarrow> ('d, unit) dbm) \<Rightarrow> ('d, unit) dbm" where
  "forM [] f = ret ()"
| "forM (x # xs) f = bindM (f x) (\<lambda>_. forM xs f)"

text \<open>A database whose statements do not fail, and one with a given schedule.\<close>

definition healthy :: "'d \<Rightarrow> 'd db" where
  "healthy d = \<lparr>tables = d, fault = (\<lambda>_. False), ticks = 0\<rparr>"

abbreviation no_fault :: "'d db \<Rightarrow> bool" where
  "no_fault s \<equiv> fault s = (\<lambda>_. False)"

lemma healthy_simps [simp]:
  "tables (healthy d) = d" "fault (healthy d) = (\<lambda>_. False)" "ticks (healthy d) = 0"
  by (simp_all add: healthy_def)

section \<open>Weakest preconditions\<close>

definition wp :: "('d, 'a) dbm \<Rightarrow> ('a \<Rightarrow> 'd db \<Rightarrow> bool) \<Rightarrow> (err \<Rightarrow> 'd db \<Rightarrow> bool) \<Rightarrow> 'd db \<Rightarrow> bool" where
  "wp m Q E s = (case m s of (Inl e, s') \<Rightarrow> E e s' | (Inr x, s') \<Rightarrow> Q x s')"

lemma wp_ret [wp_rules]: "wp (ret x) Q E = Q x"
  by (simp add: wp_def ret_def fun_eq_iff)

lemma wp_throw [wp_rules]: "wp (throw e) Q E s = E e s"
  by (simp add: wp_def throw_def)

lemma wp_bindM [wp_rules]: "wp (bindM m f) Q E = wp m (\<lambda>x. wp (f x) Q E) E"
  by (auto simp: wp_def bindM_def fun_eq_iff split: prod.splits sum.splits)

lemma wp_attempt [wp_rules]: "wp (attempt m) Q E s = wp m (\<lambda>x. Q (Inr x)) (\<lambda>e. Q (Inl e)) s"
  by (auto simp: wp_def attempt_def split: prod.splits sum.splits)

lemma wp_logged [wp_rules]: "wp (logged m) Q E s = wp m (\<lambda>_. Q ()) (\<lambda>_. Q ()) s"
  by (auto simp: wp_def logged_def split: prod.splits sum.splits)

lemma wp_sample [wp_rules]: "wp (sample f) Q E s = Q (f (ticks s)) s"
  by (simp add: wp_def sample_def)

lemma wp_if [wp_rules]: "wp (if b then m else n) Q E s = (if b then wp m Q E s else wp n Q E s)"
  by simp

lemma wp_stmt [wp_rules]:
  "wp (stmt ctx f) Q E s =
     (if fault s (ticks s) then E (EDb ctx) (s\<lparr>ticks := Suc (ticks s)\<rparr>)
      else (case f (tables s) of
              Inl e \<Rightarrow> E e (s\<lparr>ticks := Suc (ticks s)\<rparr>)
            | Inr (x, d) \<Rightarrow> Q x (s\<lparr>ticks := Suc (ticks s), tables := d\<rparr>)))"
  by (auto simp: wp_def stmt_def Let_def split: prod.splits sum.splits)

lemma wp_query [wp_rules]:
  "wp (query ctx f) Q E s =
     (if fault s (ticks s) then E (EDb ctx) (s\<lparr>ticks := Suc (ticks s)\<rparr>)
      else Q (f (tables s)) (s\<lparr>ticks := Suc (ticks s)\<rparr>))"
  by (simp add: query_def wp_stmt)

lemma wp_case_prod [wp_rules]:
  "wp (case p of (a, b) \<Rightarrow> f a b) Q E = (case p of (a, b) \<Rightarrow> wp (f a b) Q E)"
  by (cases p) simp

lemma wp_mono:
  "wp m Q E s \<Longrightarrow> (\<And>x s'. Q x s' \<Longrightarrow> Q' x s') \<Longrightarrow> (\<And>e s'. E e s' \<Longrightarrow> E' e s') \<Longrightarrow> wp m Q' E' s"
  by (auto simp: wp_def split: prod.splits sum.splits)

lemma wp_conj: "wp m Q E s \<Longrightarrow> wp m Q' E' s \<Longrightarrow> wp m (\<lambda>x s. Q x s \<and> Q' x s) (\<lambda>e s. E e s \<and> E' e s) s"
  by (auto simp: wp_def split: prod.splits sum.splits)

lemma wpD_ok: "wp m Q E s \<Longrightarrow> m s = (Inr x, s') \<Longrightarrow> Q x s'"
  by (simp add: wp_def)

lemma wpD_err: "wp m Q E s \<Longrightarrow> m s = (Inl e, s') \<Longrightarrow> E e s'"
  by (simp add: wp_def)

lemma wp_cases: "wp m (\<lambda>x s'. m s = (Inr x, s')) (\<lambda>e s'. m s = (Inl e, s')) s"
  by (auto simp: wp_def split: prod.splits sum.splits)

section \<open>Invariants\<close>

text \<open>\<open>keeps I m\<close>: whatever fails, \<open>m\<close> leaves the tables in \<open>I\<close> if they were.\<close>

definition keeps :: "('d \<Rightarrow> bool) \<Rightarrow> ('d, 'a) dbm \<Rightarrow> bool" where
  "keeps I m \<longleftrightarrow> (\<forall>s. I (tables s) \<longrightarrow> I (tables (snd (m s))))"

lemma keepsD: "keeps I m \<Longrightarrow> I (tables s) \<Longrightarrow> I (tables (snd (m s)))"
  by (simp add: keeps_def)

lemma keeps_ret [keeps_rules]: "keeps I (ret x)"
  by (simp add: keeps_def ret_def)

lemma keeps_throw [keeps_rules]: "keeps I (throw e)"
  by (simp add: keeps_def throw_def)

lemma keeps_bindM [keeps_rules]:
  assumes "keeps I m" and "\<And>x. keeps I (f x)"
  shows "keeps I (bindM m f)"
  unfolding keeps_def
proof (intro allI impI)
  fix s :: "'a db"
  assume "I (tables s)"
  then have "I (tables (snd (m s)))" using assms(1) by (simp add: keepsD)
  then show "I (tables (snd (bindM m f s)))"
    using assms(2) by (auto simp: bindM_def keeps_def split: prod.splits sum.splits)
qed

lemma keeps_logged [keeps_rules]: "keeps I m \<Longrightarrow> keeps I (logged m)"
  by (simp add: keeps_def logged_def)

lemma keeps_attempt [keeps_rules]: "keeps I m \<Longrightarrow> keeps I (attempt m)"
  by (auto simp: keeps_def attempt_def split: prod.splits)

lemma keeps_sample [keeps_rules]: "keeps I (sample f)"
  by (simp add: keeps_def sample_def)

lemma keeps_sum [keeps_rules]:
  "(\<And>e. keeps I (f e)) \<Longrightarrow> (\<And>x. keeps I (g x)) \<Longrightarrow> keeps I (case r of Inl e \<Rightarrow> f e | Inr x \<Rightarrow> g x)"
  by (cases r) auto

lemma keeps_option [keeps_rules]:
  "keeps I m \<Longrightarrow> (\<And>x. keeps I (g x)) \<Longrightarrow> keeps I (case r of None \<Rightarrow> m | Some x \<Rightarrow> g x)"
  by (cases r) auto

lemma keeps_prod [keeps_rules]: "(\<And>a b. keeps I (f a b)) \<Longrightarrow> keeps I (case p of (a, b) \<Rightarrow> f a b)"
  by (cases p) auto

lemma keeps_query [keeps_rules]: "keeps I (query ctx f)"
  by (simp add: keeps_def query_def stmt_def Let_def)

lemma keeps_stmt:
  "(\<And>d x d'. I d \<Longrightarrow> f d = Inr (x, d') \<Longrightarrow> I d') \<Longrightarrow> keeps I (stmt ctx f)"
  by (auto simp: keeps_def stmt_def Let_def split: sum.splits)

lemma keeps_in_tx [keeps_rules]:
  assumes "keeps I m"
  shows "keeps I (in_tx b c m)"
  unfolding keeps_def
proof (intro allI impI)
  fix s :: "'a db"
  assume I: "I (tables s)"
  have "I (tables (snd (m (s\<lparr>ticks := Suc (ticks s)\<rparr>))))"
    using assms I by (auto simp: keeps_def)
  then show "I (tables (snd (in_tx b c m s)))"
    using I by (auto simp: in_tx_def stmt_def Let_def split: prod.splits sum.splits)
qed

lemma keeps_forM [keeps_rules]: "(\<And>x. x \<in> set xs \<Longrightarrow> keeps I (f x)) \<Longrightarrow> keeps I (forM xs f)"
  by (induction xs) (auto intro: keeps_ret keeps_bindM)

lemma keeps_if [keeps_rules]: "keeps I m \<Longrightarrow> keeps I n \<Longrightarrow> keeps I (if b then m else n)"
  by simp

text \<open>A transaction that fails leaves the tables as they were.\<close>

lemma in_tx_rollback: "in_tx b c m s = (Inl e, s') \<Longrightarrow> tables s' = tables s"
  by (auto simp: in_tx_def stmt_def Let_def split: prod.splits sum.splits if_splits)

text \<open>A read-only program: it changes no table and looks at the tables alone.\<close>

definition reads_only :: "('d, 'a) dbm \<Rightarrow> bool" where
  "reads_only m \<longleftrightarrow> (\<forall>s. tables (snd (m s)) = tables s)"

lemma reads_only_query [keeps_rules]: "reads_only (query ctx f)"
  by (simp add: reads_only_def query_def stmt_def Let_def)

lemma reads_only_keeps: "reads_only m \<Longrightarrow> keeps I m"
  by (simp add: reads_only_def keeps_def)

lemma wp_try_db [wp_rules]:
  "wp (try_db m bad good) Q E s = wp m (\<lambda>x. wp (good x) Q E) (\<lambda>e. Q (bad e)) s"
  by (simp add: try_db_def wp_rules)

lemma keeps_try_db [keeps_rules]:
  "keeps I m \<Longrightarrow> (\<And>x. keeps I (good x)) \<Longrightarrow> keeps I (try_db m bad good)"
  unfolding try_db_def by (intro keeps_rules)

section \<open>SQL verbs on tables\<close>

definition sql_update :: "('r \<Rightarrow> bool) \<Rightarrow> ('r \<Rightarrow> 'r) \<Rightarrow> 'r list \<Rightarrow> 'r list" where
  "sql_update p f rows = map (\<lambda>r. if p r then f r else r) rows"

definition sql_delete :: "('r \<Rightarrow> bool) \<Rightarrow> 'r list \<Rightarrow> 'r list" where
  "sql_delete p rows = filter (\<lambda>r. \<not> p r) rows"

definition affected :: "('r \<Rightarrow> bool) \<Rightarrow> 'r list \<Rightarrow> nat" where
  "affected p rows = length (filter p rows)"

text \<open>The rowid SQLite gives a new row of a table with an \<^verbatim>\<open>INTEGER PRIMARY KEY\<close>.\<close>

definition next_rowid :: "rowid list \<Rightarrow> rowid" where
  "next_rowid ids = foldr max ids 0 + 1"

text \<open>
  \<^verbatim>\<open>ORDER BY key ASC\<close> and \<^verbatim>\<open>DESC\<close>; rows with equal keys stay in table order, which SQL
  leaves open.
\<close>

definition order_asc :: "('r \<Rightarrow> 'k::linorder) \<Rightarrow> 'r list \<Rightarrow> 'r list" where
  "order_asc key rows = sort_key key rows"

definition order_desc :: "('r \<Rightarrow> int) \<Rightarrow> 'r list \<Rightarrow> 'r list" where
  "order_desc key rows = sort_key (\<lambda>r. - key r) rows"

lemma next_rowid_fresh: "i \<in> set ids \<Longrightarrow> i < next_rowid ids"
  by (induction ids) (auto simp: next_rowid_def max_def)

lemma next_rowid_notin [simp]: "next_rowid ids \<notin> set ids"
  using next_rowid_fresh less_irrefl by blast

lemma next_rowid_neq [simp]:
  "r \<in> set rows \<Longrightarrow> next_rowid (map k rows) \<noteq> k r"
  "r \<in> set rows \<Longrightarrow> k r \<noteq> next_rowid (map k rows)"
  using next_rowid_notin [of "map k rows"] by force+

lemma next_rowid_pos [simp]: "0 < next_rowid ids"
  by (induction ids) (auto simp: next_rowid_def max_def)

lemma set_sql_update [table_simps]:
  "set (sql_update p f rows) = f ` {r \<in> set rows. p r} \<union> {r \<in> set rows. \<not> p r}"
  by (auto simp: sql_update_def)

lemma ball_sql_update:
  "\<forall>r \<in> set rows. P r \<Longrightarrow> (\<And>r. P r \<Longrightarrow> P (f r)) \<Longrightarrow> \<forall>r \<in> set (sql_update p f rows). P r"
  by (auto simp: sql_update_def)

lemma set_sql_delete [table_simps]: "set (sql_delete p rows) = {r \<in> set rows. \<not> p r}"
  by (auto simp: sql_delete_def)

lemma set_order [table_simps]:
  "set (order_asc k rows) = set rows" "set (order_desc l rows) = set rows"
  by (simp_all add: order_asc_def order_desc_def)

lemma mset_order [simp]:
  "mset (order_asc k rows) = mset rows" "mset (order_desc l rows) = mset rows"
  by (simp_all add: order_asc_def order_desc_def)

lemma distinct_map_order:
  "distinct (map g (order_asc k rows)) = distinct (map g rows)"
  "distinct (map g (order_desc l rows)) = distinct (map g rows)"
  by (metis mset_map mset_order(1) mset_eq_imp_distinct_iff,
      metis mset_map mset_order(2) mset_eq_imp_distinct_iff)

lemma sorted_order_asc [simp]: "sorted (map k (order_asc k rows))"
  by (simp add: order_asc_def)

lemma affected_0_iff: "affected p rows = 0 \<longleftrightarrow> (\<forall>r \<in> set rows. \<not> p r)"
  by (auto simp: affected_def filter_empty_conv)

lemma distinct_map_delete [table_simps]:
  "distinct (map k rows) \<Longrightarrow> distinct (map k (sql_delete p rows))"
  by (simp add: sql_delete_def distinct_map_filter)

subsection \<open>Updates that keep the key of a row\<close>

text \<open>
  Every \<^verbatim>\<open>UPDATE\<close> of the code leaves the primary key of the rows it touches alone. This is
  the contract its tables share: distinct keys stay distinct, the row with a given key is
  found under that key after the update, and no other row moves.
\<close>

definition row_at :: "('r \<Rightarrow> 'k) \<Rightarrow> 'k \<Rightarrow> 'r list \<Rightarrow> 'r option" where
  "row_at key i rows = find (\<lambda>r. key r = i) rows"

locale keyed_update =
  fixes key :: "'r \<Rightarrow> 'k" and upd :: "'r \<Rightarrow> 'r"
  assumes key_upd [simp]: "key (upd r) = key r"
begin

lemma map_key_update: "map key (sql_update p upd rows) = map key rows"
  by (simp add: sql_update_def)

lemma row_at_update:
  "row_at key i (sql_update (\<lambda>r. key r = j) upd rows) =
     (if i = j then map_option upd (row_at key i rows) else row_at key i rows)"
  by (induction rows) (auto simp: row_at_def sql_update_def)

lemma row_at_update_pred:
  "row_at key i (sql_update p upd rows) =
     map_option (\<lambda>r. if p r then upd r else r) (row_at key i rows)"
  by (induction rows) (auto simp: row_at_def sql_update_def)

end

lemma row_at_Some: "row_at key i rows = Some r \<Longrightarrow> r \<in> set rows \<and> key r = i"
  by (auto simp: row_at_def find_Some_iff)

lemma row_at_None: "row_at key i rows = None \<longleftrightarrow> i \<notin> key ` set rows"
  by (auto simp: row_at_def find_None_iff)

lemma row_at_append:
  "row_at key i (xs @ ys) = (case row_at key i xs of Some r \<Rightarrow> Some r | None \<Rightarrow> row_at key i ys)"
  by (induction xs) (auto simp: row_at_def)

lemma row_at_distinct:
  "distinct (map key rows) \<Longrightarrow> r \<in> set rows \<Longrightarrow> row_at key (key r) rows = Some r"
  by (induction rows) (auto simp: row_at_def image_iff)

lemma row_at_delete:
  "row_at key i (sql_delete (\<lambda>r. key r = j) rows) = (if i = j then None else row_at key i rows)"
  by (induction rows) (auto simp: row_at_def sql_delete_def)

section \<open>Retry policies\<close>

text \<open>
  Both upload queues of the client wait a backoff after a failed attempt that depends on the
  number of attempts. A row is due when the wait is over; the laws say that the wait is
  positive, does not shrink and is at most one hour, so a row never waits for ever.
\<close>

definition due_at :: "(int \<Rightarrow> gotime) \<Rightarrow> gotime \<Rightarrow> int \<Rightarrow> stamp option \<Rightarrow> bool" where
  "due_at backoff now n prev =
     (case prev of None \<Rightarrow> True
      | Some l \<Rightarrow> \<not> now < parse_rfc3339 l + backoff n)"

locale retry_policy =
  fixes backoff :: "int \<Rightarrow> gotime"
  assumes backoff_pos: "0 \<le> n \<Longrightarrow> 0 < backoff n"
    and backoff_mono: "0 \<le> m \<Longrightarrow> m \<le> n \<Longrightarrow> backoff m \<le> backoff n"
    and backoff_cap: "0 \<le> n \<Longrightarrow> backoff n \<le> hour"
begin

lemma due_mono: "due_at backoff t n l \<Longrightarrow> t \<le> t' \<Longrightarrow> due_at backoff t' n l"
  by (auto simp: due_at_def split: option.splits)

lemma due_within_an_hour: "0 \<le> n \<Longrightarrow> parse_rfc3339 l + hour \<le> t \<Longrightarrow> due_at backoff t n (Some l)"
  using backoff_cap [of n] by (simp add: due_at_def)

lemma not_due_after_failure:
  assumes "0 \<le> n" and "t < parse_rfc3339 l + backoff n"
  shows "\<not> due_at backoff t n (Some l)" and "\<not> due_at backoff t (n + 1) (Some l)"
  using assms backoff_mono [of n "n + 1"] by (simp_all add: due_at_def)

end

lemma find_append: "find p (xs @ ys) = (case find p xs of Some x \<Rightarrow> Some x | None \<Rightarrow> find p ys)"
  by (induction xs) auto

lemma in_tx_ok: "in_tx b c m s = (Inr x, s') \<Longrightarrow>
    \<exists>s1. m (s\<lparr>ticks := Suc (ticks s)\<rparr>) = (Inr x, s1) \<and> tables s' = tables s1 \<and> fault s' = fault s1"
  by (auto simp: in_tx_def stmt_def Let_def split: prod.splits sum.splits if_splits)

end
