(* ===== verification/Go_Strings.thy ===== *)
theory Go_Strings
  imports Trasker_Prelude
begin

text \<open>
  The part of Go's standard library the code uses on strings. A Go string is its list of
  bytes. Case folding is that of ASCII letters: bytes of a multi-byte rune are left alone,
  where \<^verbatim>\<open>strings.ToLower\<close> and \<^verbatim>\<open>strings.EqualFold\<close> also fold Unicode letters.
  \<open>filepath_Match\<close> is the documented meaning of \<^verbatim>\<open>filepath.Match\<close> on a system whose
  separator is the slash: a malformed pattern is \<open>None\<close> (\<^verbatim>\<open>ErrBadPattern\<close>), a star or a
  question mark does not match a slash.
\<close>

section \<open>Case, containment, trimming, splitting\<close>

definition lower_char :: "char \<Rightarrow> char" where
  "lower_char c =
     (if CHR ''A'' \<le> c \<and> c \<le> CHR ''Z'' then char_of ((of_char c :: nat) + 32) else c)"

definition ToLower :: "string \<Rightarrow> string" where
  "ToLower s = map lower_char s"

definition EqualFold :: "string \<Rightarrow> string \<Rightarrow> bool" where
  "EqualFold s t = (ToLower s = ToLower t)"

fun HasPrefix :: "string \<Rightarrow> string \<Rightarrow> bool" where
  "HasPrefix s [] = True"
| "HasPrefix [] (p # ps) = False"
| "HasPrefix (c # s) (p # ps) = (c = p \<and> HasPrefix s ps)"

definition HasSuffix :: "string \<Rightarrow> string \<Rightarrow> bool" where
  "HasSuffix s suf = HasPrefix (rev s) (rev suf)"

definition TrimSuffix :: "string \<Rightarrow> string \<Rightarrow> string" where
  "TrimSuffix s suf = (if HasSuffix s suf then take (length s - length suf) s else s)"

fun Contains :: "string \<Rightarrow> string \<Rightarrow> bool" where
  "Contains [] sub = (sub = [])"
| "Contains (c # s) sub = (HasPrefix (c # s) sub \<or> Contains s sub)"

definition is_space :: "char \<Rightarrow> bool" where
  "is_space c = (c \<in> {CHR '' '', CHR 0x09, CHR 0x0A, CHR 0x0B, CHR 0x0C, CHR 0x0D})"

definition TrimSpace :: "string \<Rightarrow> string" where
  "TrimSpace s = rev (dropWhile is_space (rev (dropWhile is_space s)))"

text \<open>\<^verbatim>\<open>strings.Fields\<close>: the maximal runs of non-space bytes, in order.\<close>

fun fields_acc :: "string \<Rightarrow> string \<Rightarrow> string list" where
  "fields_acc acc [] = (if acc = [] then [] else [rev acc])"
| "fields_acc acc (c # s) =
     (if is_space c then (if acc = [] then fields_acc [] s else rev acc # fields_acc [] s)
      else fields_acc (c # acc) s)"

definition Fields :: "string \<Rightarrow> string list" where
  "Fields s = fields_acc [] s"

text \<open>
  \<^verbatim>\<open>strings.SplitN(s, sep, 2)\<close> for a one-byte separator: the text before its first
  occurrence and the rest, or the whole text alone.
\<close>

definition SplitN2 :: "string \<Rightarrow> char \<Rightarrow> string list" where
  "SplitN2 s sep =
     (if sep \<in> set s
      then [takeWhile (\<lambda>c. c \<noteq> sep) s, tl (dropWhile (\<lambda>c. c \<noteq> sep) s)]
      else [s])"

text \<open>
  \<^verbatim>\<open>strings.NewReplacer\<close>: at each position the first pair whose old text is a prefix is
  replaced. The pairs of the code have non-empty old texts.
\<close>

function replace_pairs :: "(string \<times> string) list \<Rightarrow> string \<Rightarrow> string" where
  "replace_pairs ps [] = []"
| "replace_pairs ps (c # s) =
     (case find (\<lambda>(old, new). old \<noteq> [] \<and> HasPrefix (c # s) old) ps of
        Some (old, new) \<Rightarrow> new @ replace_pairs ps (drop (length old) (c # s))
      | None \<Rightarrow> c # replace_pairs ps s)"
  by pat_completeness auto
termination
  by (relation "measure (length \<circ> snd)") (auto simp: find_Some_iff)

fun Join :: "string list \<Rightarrow> string \<Rightarrow> string" where
  "Join [] sep = []"
| "Join [s] sep = s"
| "Join (s # t # ss) sep = s @ sep @ Join (t # ss) sep"

lemma HasPrefix_iff: "HasPrefix s p \<longleftrightarrow> (\<exists>t. s = p @ t)"
  by (induction s p rule: HasPrefix.induct) auto

lemma Contains_iff: "Contains s sub \<longleftrightarrow> (\<exists>u v. s = u @ sub @ v)"
proof (induction s)
  case Nil
  then show ?case by auto
next
  case (Cons c s)
  have "Contains (c # s) sub \<longleftrightarrow> (\<exists>t. c # s = sub @ t) \<or> (\<exists>u v. s = u @ sub @ v)"
    using Cons.IH by (auto simp: HasPrefix_iff)
  also have "\<dots> \<longleftrightarrow> (\<exists>u v. c # s = u @ sub @ v)"
    by (metis append_Cons append_Nil neq_Nil_conv list.inject)
  finally show ?case .
qed

lemma ToLower_append [simp]: "ToLower (s @ t) = ToLower s @ ToLower t"
  by (simp add: ToLower_def)

lemma length_ToLower [simp]: "length (ToLower s) = length s"
  by (simp add: ToLower_def)

lemma lower_char_idem [simp]: "lower_char (lower_char c) = lower_char c"
  by (auto simp: lower_char_def less_eq_char_def)

lemma lower_char_no_upper: "lower_char c = d \<Longrightarrow> \<not> (CHR ''A'' \<le> d \<and> d \<le> CHR ''Z'')"
  by (auto simp: lower_char_def less_eq_char_def split: if_splits)

lemma lower_char_fixed: "\<not> (CHR ''A'' \<le> d \<and> d \<le> CHR ''Z'') \<Longrightarrow> lower_char d = d"
  by (auto simp: lower_char_def)

lemma ToLower_idem [simp]: "ToLower (ToLower s) = ToLower s"
  by (simp add: ToLower_def)

lemma Contains_self [simp]: "Contains s s"
  unfolding Contains_iff by (metis append_Nil append_Nil2)

lemma Contains_Nil [simp]: "Contains s []"
  unfolding Contains_iff by blast

section \<open>filepath.Match\<close>

text \<open>
  The elements of a pattern: a star, a question mark, a byte, or a character class with its
  negation flag and its ranges.
\<close>

datatype glob = GStar | GAny | GLit char | GClass bool "(char \<times> char) list"

definition separator :: char where "separator = CHR ''/''"

definition quote_char :: char where "quote_char = CHR 0x5C"

text \<open>\<^verbatim>\<open>getEsc\<close>: one possibly quoted byte of a class, which must not end the pattern.\<close>

definition getEsc :: "string \<Rightarrow> (char \<times> string) option" where
  "getEsc p =
     (case p of
        [] \<Rightarrow> None
      | c # p1 \<Rightarrow>
          if c = CHR ''-'' \<or> c = CHR '']'' then None
          else if c = quote_char then
            (case p1 of [] \<Rightarrow> None | [d] \<Rightarrow> None | d # p2 \<Rightarrow> Some (d, p2))
          else if p1 = [] then None else Some (c, p1))"

text \<open>The ranges of a class up to the closing bracket, which may not come first.\<close>

lemma getEsc_shorter: "getEsc p = Some (c, p') \<Longrightarrow> length p' < length p"
  by (auto simp: getEsc_def split: list.splits if_splits)

function parse_ranges :: "(char \<times> char) list \<Rightarrow> string \<Rightarrow> ((char \<times> char) list \<times> string) option" where
  "parse_ranges acc p =
     (if acc \<noteq> [] \<and> p \<noteq> [] \<and> hd p = CHR '']'' then Some (rev acc, tl p)
      else (case getEsc p of
              None \<Rightarrow> None
            | Some (lo, p1) \<Rightarrow>
                if p1 \<noteq> [] \<and> hd p1 = CHR ''-''
                then (case getEsc (tl p1) of
                        None \<Rightarrow> None
                      | Some (hi, p2) \<Rightarrow> parse_ranges ((lo, hi) # acc) p2)
                else parse_ranges ((lo, lo) # acc) p1))"
  by pat_completeness auto
termination
  by (relation "measure (length \<circ> snd)")
    (auto dest!: getEsc_shorter simp: less_diff_conv)

declare parse_ranges.simps [simp del]

lemma parse_ranges_shorter: "parse_ranges acc p = Some (rs, p') \<Longrightarrow> length p' < length p"
proof (induction acc p rule: parse_ranges.induct)
  case (1 acc p)
  show ?case
  proof (cases "acc \<noteq> [] \<and> p \<noteq> [] \<and> hd p = CHR '']''")
    case True
    then have "p' = tl p" using "1.prems" by (simp add: parse_ranges.simps [of acc p])
    with True show ?thesis by simp
  next
    case False
    then obtain lo p1 where p1: "getEsc p = Some (lo, p1)"
      using "1.prems" by (auto simp: parse_ranges.simps [of acc p] split: option.splits)
    show ?thesis
    proof (cases "p1 \<noteq> [] \<and> hd p1 = CHR ''-''")
      case True
      then obtain hi p2 where p2: "getEsc (tl p1) = Some (hi, p2)"
        and r: "parse_ranges ((lo, hi) # acc) p2 = Some (rs, p')"
        using "1.prems" False p1 by (auto simp: parse_ranges.simps [of acc p] split: option.splits)
      have "length p' < length p2"
        using "1.IH"(1) [OF False p1 refl True p2 refl] r by simp
      then show ?thesis
        using getEsc_shorter [OF p1] getEsc_shorter [OF p2] by simp
    next
      case False': False
      then have "parse_ranges ((lo, lo) # acc) p1 = Some (rs, p')"
        using "1.prems" False p1 by (auto simp: parse_ranges.simps [of acc p])
      then have "length p' < length p1"
        using "1.IH"(2) [OF False p1 refl False'] by simp
      then show ?thesis using getEsc_shorter [OF p1] by simp
    qed
  qed
qed

definition parse_class :: "string \<Rightarrow> (glob \<times> string) option" where
  "parse_class p =
     (let neg = (p \<noteq> [] \<and> hd p = CHR 0x5E);
          p1 = (if neg then tl p else p)
      in map_option (\<lambda>(rs, p2). (GClass neg rs, p2)) (parse_ranges [] p1))"

lemma parse_class_shorter: "parse_class p = Some (g, p') \<Longrightarrow> length p' < length p"
  by (auto simp: parse_class_def Let_def dest!: parse_ranges_shorter split: if_splits)

function parse_glob :: "string \<Rightarrow> glob list option" where
  "parse_glob [] = Some []"
| "parse_glob (c # p) =
     (if c = CHR ''*'' then map_option (Cons GStar) (parse_glob p)
      else if c = CHR ''?'' then map_option (Cons GAny) (parse_glob p)
      else if c = CHR ''['' then
        (case parse_class p of
           None \<Rightarrow> None
         | Some (g, p') \<Rightarrow> map_option (Cons g) (parse_glob p'))
      else if c = quote_char then
        (case p of [] \<Rightarrow> None | d # p' \<Rightarrow> map_option (Cons (GLit d)) (parse_glob p'))
      else map_option (Cons (GLit c)) (parse_glob p))"
  by pat_completeness auto
termination
  by (relation "measure length") (auto dest: parse_class_shorter)

definition in_class :: "bool \<Rightarrow> (char \<times> char) list \<Rightarrow> char \<Rightarrow> bool" where
  "in_class neg rs c = ((\<exists>(lo, hi) \<in> set rs. lo \<le> c \<and> c \<le> hi) \<noteq> neg)"

fun glob_match :: "glob list \<Rightarrow> string \<Rightarrow> bool" where
  "glob_match [] s = (s = [])"
| "glob_match (GStar # ps) [] = glob_match ps []"
| "glob_match (GStar # ps) (c # s) =
     (glob_match ps (c # s) \<or> (c \<noteq> separator \<and> glob_match (GStar # ps) s))"
| "glob_match (GAny # ps) s = (case s of [] \<Rightarrow> False | c # s' \<Rightarrow> c \<noteq> separator \<and> glob_match ps s')"
| "glob_match (GLit a # ps) s = (case s of [] \<Rightarrow> False | c # s' \<Rightarrow> c = a \<and> glob_match ps s')"
| "glob_match (GClass neg rs # ps) s =
     (case s of [] \<Rightarrow> False | c # s' \<Rightarrow> in_class neg rs c \<and> glob_match ps s')"

text \<open>\<open>None\<close> is \<^verbatim>\<open>ErrBadPattern\<close>.\<close>

definition filepath_Match :: "string \<Rightarrow> string \<Rightarrow> bool option" where
  "filepath_Match pat name = map_option (\<lambda>g. glob_match g name) (parse_glob pat)"

text \<open>Bytes that stand for themselves in a pattern.\<close>

definition plain :: "char \<Rightarrow> bool" where
  "plain c = (c \<noteq> CHR ''*'' \<and> c \<noteq> CHR ''?'' \<and> c \<noteq> CHR ''['' \<and> c \<noteq> quote_char)"

lemma parse_glob_plain_append:
  "list_all plain w \<Longrightarrow> parse_glob (w @ p) = map_option ((@) (map GLit w)) (parse_glob p)"
  by (cases "parse_glob p"; induction w) (auto simp: plain_def)

lemma parse_glob_plain: "list_all plain w \<Longrightarrow> parse_glob w = Some (map GLit w)"
  using parse_glob_plain_append [of w "[]"] by simp

lemma glob_match_lits: "glob_match (map GLit w @ ps) s \<longleftrightarrow> (\<exists>t. s = w @ t \<and> glob_match ps t)"
  by (induction w arbitrary: s) (auto split: list.splits)

lemma glob_match_star: "glob_match (GStar # ps) s \<longleftrightarrow>
    (\<exists>u v. s = u @ v \<and> separator \<notin> set u \<and> glob_match ps v)"
proof (induction s)
  case Nil
  then show ?case by simp
next
  case (Cons c s)
  note IH = Cons.IH
  show ?case (is "?l \<longleftrightarrow> ?r")
  proof
    assume ?l
    then consider "glob_match ps (c # s)"
      | u v where "c \<noteq> separator" "s = u @ v" "separator \<notin> set u" "glob_match ps v"
      using Cons.IH by auto
    then show ?r
    proof cases
      case 1
      then show ?thesis by (intro exI [of _ "[]"] exI [of _ "c # s"]) simp
    next
      case (2 u v)
      then show ?thesis by (intro exI [of _ "c # u"] exI [of _ v]) simp
    qed
  next
    assume ?r
    then obtain u v where uv: "c # s = u @ v" "separator \<notin> set u" "glob_match ps v" by blast
    then show ?l
    proof (cases u)
      case Nil
      with uv show ?thesis by (cases v) auto
    next
      case (Cons d u')
      with uv have "c \<noteq> separator" "s = u' @ v" "separator \<notin> set u'" by auto
      with uv(3) show ?thesis using IH by auto
    qed
  qed
qed

text \<open>A plain pattern matches itself alone.\<close>

lemma filepath_Match_plain:
  "list_all plain w \<Longrightarrow> filepath_Match w s = Some (s = w)"
  using glob_match_lits [of w "[]" s] by (simp add: filepath_Match_def parse_glob_plain)

text \<open>
  \<^verbatim>\<open>*w*\<close> matches the texts that hold \<open>w\<close> with no separator before or after it: a star
  does not reach over a slash.
\<close>

lemma filepath_Match_starred:
  assumes "list_all plain w"
  shows "filepath_Match (CHR ''*'' # w @ ''*'') s =
     Some (\<exists>u v. s = u @ w @ v \<and> separator \<notin> set u \<and> separator \<notin> set v)"
proof -
  have "parse_glob (CHR ''*'' # w @ ''*'') = Some (GStar # map GLit w @ [GStar])"
    using assms by (simp add: parse_glob_plain_append)
  moreover have "glob_match [GStar] t \<longleftrightarrow> separator \<notin> set t" for t
    by (auto simp: glob_match_star)
  ultimately show ?thesis
    by (auto simp: filepath_Match_def glob_match_star [of "map GLit w @ [GStar]"] glob_match_lits
        simp del: glob_match.simps)
qed

section \<open>Decimal numbers\<close>

text \<open>\<^verbatim>\<open>fmt\<close>'s \<^verbatim>\<open>%d\<close> on an integer.\<close>

definition digit :: "nat \<Rightarrow> char" where
  "digit n = char_of (48 + n)"

fun show_nat :: "nat \<Rightarrow> string" where
  "show_nat n = (if n < 10 then [digit n] else show_nat (n div 10) @ [digit (n mod 10)])"

declare show_nat.simps [simp del]

definition show_int :: "int \<Rightarrow> string" where
  "show_int i = (if i < 0 then CHR ''-'' # show_nat (nat (- i)) else show_nat (nat i))"

definition is_digit :: "char \<Rightarrow> bool" where
  "is_digit c = (CHR ''0'' \<le> c \<and> c \<le> CHR ''9'')"

fun read_nat :: "nat \<Rightarrow> string \<Rightarrow> nat" where
  "read_nat acc [] = acc"
| "read_nat acc (c # s) = read_nat (acc * 10 + (of_char c - 48)) s"

lemma read_nat_append: "read_nat acc (s @ t) = read_nat (read_nat acc s) t"
  by (induction s arbitrary: acc) auto

lemma of_char_digit: "n < 10 \<Longrightarrow> (of_char (digit n) :: nat) = 48 + n"
  by (simp add: digit_def)

lemma read_show_nat: "read_nat 0 (show_nat n) = n"
proof (induction n rule: show_nat.induct)
  case (1 n)
  show ?case
  proof (cases "n < 10")
    case True
    then show ?thesis by (simp add: show_nat.simps [of n] of_char_digit)
  next
    case False
    then show ?thesis
      using "1.IH" by (simp add: show_nat.simps [of n] read_nat_append of_char_digit)
  qed
qed

lemma show_nat_inj: "show_nat m = show_nat n \<Longrightarrow> m = n"
  by (metis read_show_nat)

lemma is_digit_digit: "n < 10 \<Longrightarrow> is_digit (digit n)"
  by (simp add: is_digit_def less_eq_char_def of_char_digit)

lemma show_nat_digits: "c \<in> set (show_nat n) \<Longrightarrow> is_digit c"
proof (induction n rule: show_nat.induct)
  case (1 n)
  then show ?case
    by (cases "n < 10") (auto simp: show_nat.simps [of n] is_digit_digit)
qed

lemma show_int_chars: "c \<in> set (show_int i) \<Longrightarrow> is_digit c \<or> c = CHR ''-''"
  by (auto simp: show_int_def dest: show_nat_digits split: if_splits)

lemma show_int_inj: "show_int i = show_int j \<Longrightarrow> i = j"
proof -
  have minus: "CHR ''-'' \<notin> set (show_nat n)" for n
    using show_nat_digits [of "CHR ''-''" n] by (auto simp: is_digit_def less_eq_char_def)
  assume eq: "show_int i = show_int j"
  show "i = j"
  proof (cases "i < 0"; cases "j < 0")
    assume "i < 0" "j < 0"
    then show ?thesis using eq show_nat_inj [of "nat (- i)" "nat (- j)"]
      by (simp add: show_int_def)
  next
    assume "i < 0" "\<not> j < 0"
    then have False using eq minus [of "nat j"] by (auto simp: show_int_def dest: sym)
    then show ?thesis ..
  next
    assume "\<not> i < 0" "j < 0"
    then have False using eq minus [of "nat i"] by (auto simp: show_int_def)
    then show ?thesis ..
  next
    assume "\<not> i < 0" "\<not> j < 0"
    then show ?thesis using eq show_nat_inj [of "nat i" "nat j"]
      by (simp add: show_int_def)
  qed
qed

lemma show_nat_not_Nil: "show_nat n \<noteq> []"
  by (simp add: show_nat.simps [of n])

lemma TrimSpace_id: "\<forall>c \<in> set w. \<not> is_space c \<Longrightarrow> TrimSpace w = w"
proof -
  have *: "dropWhile is_space v = v" if "\<forall>c \<in> set v. \<not> is_space c" for v
    using that by (cases v) auto
  show "\<forall>c \<in> set w. \<not> is_space c \<Longrightarrow> TrimSpace w = w"
    using * [of w] * [of "rev w"] by (simp add: TrimSpace_def)
qed

lemma TrimSpace_show_int [simp]: "TrimSpace (show_int n) = show_int n"
  by (rule TrimSpace_id)
    (auto simp: is_space_def is_digit_def less_eq_char_def dest!: show_int_chars)

end
