(* ===== verification/Json.thy ===== *)
theory Json
  imports Go_Strings
begin

text \<open>
  What the code uses of \<^verbatim>\<open>encoding/json\<close>. A body is a JSON value or, where the bytes are not
  JSON, \<open>None\<close>; the text of a value is not modelled. Decoding into a struct goes through the
  members in order (so the last one with a name wins, names compared without regard to case as
  \<^verbatim>\<open>Unmarshal\<close> does), leaves fields without a member at their zero value, skips \<^verbatim>\<open>null\<close>, and
  reports a member of the wrong kind while still filling the other fields.
\<close>

datatype json = JNull | JBool bool | JNum int | JStr string | JArr "json list" | JObj "(string \<times> json) list"

type_synonym body = "json option"

text \<open>The members of a body that decode into the field \<open>name\<close>, last one first.\<close>

fun json_members :: "string \<Rightarrow> body \<Rightarrow> json list" where
  "json_members name (Some (JObj ms)) =
     rev (map snd (filter (\<lambda>(k, v). EqualFold k name \<and> v \<noteq> JNull) ms))"
| "json_members name b = []"

fun the_string :: "json \<Rightarrow> string option" where
  "the_string (JStr s) = Some s"
| "the_string v = None"

fun the_num :: "json \<Rightarrow> int option" where
  "the_num (JNum n) = Some n"
| "the_num v = None"

text \<open>The value a string (number) field has after decoding, whatever the reported error.\<close>

definition string_field :: "string \<Rightarrow> body \<Rightarrow> string" where
  "string_field name b =
     (case List.map_filter the_string (json_members name b) of [] \<Rightarrow> [] | s # _ \<Rightarrow> s)"

definition num_field :: "string \<Rightarrow> body \<Rightarrow> int" where
  "num_field name b =
     (case List.map_filter the_num (json_members name b) of [] \<Rightarrow> 0 | n # _ \<Rightarrow> n)"

text \<open>Whether decoding into a struct with these string and number fields reports no error.\<close>

fun is_object :: "body \<Rightarrow> bool" where
  "is_object (Some (JObj ms)) = True"
| "is_object (Some JNull) = True"
| "is_object b = False"

definition decodes :: "string list \<Rightarrow> string list \<Rightarrow> body \<Rightarrow> bool" where
  "decodes strings nums b =
     (is_object b \<and>
      (\<forall>f \<in> set strings. \<forall>v \<in> set (json_members f b). the_string v \<noteq> None) \<and>
      (\<forall>f \<in> set nums. \<forall>v \<in> set (json_members f b). the_num v \<noteq> None))"

text \<open>
  Nested structs: the shape of a Go type, whether a value decodes into it without an error, and its
  pointer and slice fields. A later member replaces an earlier one of the same name.
\<close>

datatype shape = SString | SInt | SSlice shape | SStruct "(string \<times> shape) list"

lemma size_member: "p \<in> set ms \<Longrightarrow> size (snd p) < Suc (size_list (size_prod (\<lambda>_. 0) size) ms)"
  by (induction ms) (auto simp: prod.size_gen split: prod.splits)

definition int64 :: "int \<Rightarrow> bool" where
  "int64 n = (- (2 ^ 63) \<le> n \<and> n < 2 ^ 63)"

text \<open>The value of an overflowing operation on \<^verbatim>\<open>int64\<close>.\<close>

definition wrap64 :: "int \<Rightarrow> int" where
  "wrap64 n = (n + 2 ^ 63) mod 2 ^ 64 - 2 ^ 63"

lemma wrap64_id: "int64 n \<Longrightarrow> wrap64 n = n"
  by (simp add: wrap64_def int64_def)

lemma int64_wrap64 [simp]: "int64 (wrap64 n)"
  by (simp add: wrap64_def int64_def)

function fits :: "shape \<Rightarrow> json \<Rightarrow> bool" where
  "fits sh JNull = True"
| "fits sh (JStr s) = (sh = SString)"
| "fits sh (JNum n) = (sh = SInt \<and> int64 n)"
| "fits sh (JBool b) = False"
| "fits sh (JArr vs) = (case sh of SSlice e \<Rightarrow> (\<forall>v \<in> set vs. fits e v) | _ \<Rightarrow> False)"
| "fits sh (JObj ms) = (case sh of
     SStruct fs \<Rightarrow> (\<forall>p \<in> set ms. \<forall>f \<in> set fs. EqualFold (fst p) (fst f) \<longrightarrow> fits (snd f) (snd p)) | _ \<Rightarrow> False)"
  by pat_completeness auto
termination
  by (relation "measure (size \<circ> snd)") (auto dest: size_member simp: less_Suc_eq_le size_list_estimation' intro: le_imp_less_Suc)

definition decode_ok :: "shape \<Rightarrow> body \<Rightarrow> bool" where
  "decode_ok sh b = (case b of None \<Rightarrow> False | Some v \<Rightarrow> fits sh v)"

fun last_member :: "string \<Rightarrow> body \<Rightarrow> json" where
  "last_member name (Some (JObj ms)) =
     (case filter (\<lambda>p. EqualFold (fst p) name) (rev ms) of [] \<Rightarrow> JNull | p # _ \<Rightarrow> snd p)"
| "last_member name b = JNull"

definition string_ptr :: "string \<Rightarrow> body \<Rightarrow> string option" where
  "string_ptr name b = the_string (last_member name b)"

definition num_ptr :: "string \<Rightarrow> body \<Rightarrow> int option" where
  "num_ptr name b = the_num (last_member name b)"

definition slice_field :: "string \<Rightarrow> body \<Rightarrow> json list" where
  "slice_field name b = (case last_member name b of JArr vs \<Rightarrow> vs | _ \<Rightarrow> [])"

text \<open>\<^verbatim>\<open>strconv.Atoi\<close>.\<close>

definition Atoi :: "string \<Rightarrow> int option" where
  "Atoi s =
     (let (neg, ds) = (case s of c # r \<Rightarrow> if c = CHR ''-'' then (True, r) else if c = CHR ''+'' then (False, r) else (False, s)
                       | [] \<Rightarrow> (False, []));
          n = (if neg then - int (read_nat 0 ds) else int (read_nat 0 ds))
      in if ds \<noteq> [] \<and> list_all is_digit ds \<and> int64 n then Some n else None)"

lemma Atoi_show_int:
  assumes "0 \<le> n" "int64 n"
  shows "Atoi (show_int n) = Some n"
proof -
  have digits: "list_all is_digit (show_nat (nat n))" by (auto simp: list_all_iff dest: show_nat_digits)
  obtain c ds where s: "show_nat (nat n) = c # ds" by (cases "show_nat (nat n)") (simp_all add: show_nat_not_Nil)
  then have "c \<noteq> CHR ''-''" "c \<noteq> CHR ''+''" using digits by (auto simp: is_digit_def less_eq_char_def)
  then show ?thesis
    using assms digits s read_show_nat [of "nat n"] by (simp add: Atoi_def show_int_def)
qed

text \<open>A string member with \<^verbatim>\<open>omitempty\<close>.\<close>

definition optional_text :: "string \<Rightarrow> string \<Rightarrow> (string \<times> json) list" where
  "optional_text name v = (if v = [] then [] else [(name, JStr v)])"

end
