(* ===== verification/Client_Store.thy ===== *)
theory Client_Store
  imports Json
begin

text \<open>
  The client's SQLite store (\<^verbatim>\<open>internal/client/store\<close>): the tables of its schema, the
  operations on focus events, tags, event tags, notes, submissions, pomodoro sessions and the
  configuration, the invariant of the schema (\<open>store_wf\<close>: keys and unique columns;
  \<open>refs_ok\<close>: foreign keys) and that every operation keeps it whatever statement fails.

  The flag \<open>foreign_keys\<close> is the setting of the connection a statement runs on: the code turns
  it on with one \<^verbatim>\<open>PRAGMA\<close> when it opens the database through \<open>New\<close>, and a handle
  opened without \<open>New\<close> has it off. The arguments \<open>now\<close> are what \<^verbatim>\<open>time.Now()\<close>
  returned. The JSON column of a layout snapshot holds the value its text stands for.
\<close>

section \<open>Rows and tables\<close>

record focus_row =
  fe_id :: rowid
  fe_app :: string
  fe_title :: string
  fe_started :: stamp
  fe_ended :: "stamp option"
  fe_duration :: "int option"
  fe_idle :: bool
  fe_created :: stamp

record tag_row =
  tag_id :: rowid
  tag_name :: string
  tag_color :: string
  tag_created :: stamp

datatype tag_source = Manual | CascadeSource | AutoRule

record event_tag_row =
  et_event :: rowid
  et_tag :: rowid
  et_source :: tag_source
  et_cascade_from :: "rowid option"

record note_row =
  note_id :: rowid
  note_anchor :: rowid
  note_text :: string
  note_created :: stamp
  note_cascade_applied :: bool

record rule_row =
  rr_id :: rowid
  rr_tag :: rowid
  rr_app :: string
  rr_title :: "string option"
  rr_priority :: int
  rr_suggested :: bool
  rr_hits :: int
  rr_created :: stamp

record submission_row =
  sub_id :: rowid
  sub_server_id :: "string option"
  sub_submitted :: stamp
  sub_status :: string
  sub_retries :: int
  sub_last_retry :: "stamp option"

record pomodoro_row =
  pm_id :: rowid
  pm_started :: stamp
  pm_ended :: "stamp option"
  pm_work :: int
  pm_break :: int
  pm_status :: string
  pm_tag :: "rowid option"
  pm_created :: stamp

text \<open>An integer column is \<open>None\<close> where it holds a value that does not scan as an integer.\<close>

record config_row =
  cfg_device :: string
  cfg_server :: string
  cfg_api_key :: string
  cfg_tracking :: "int option"
  cfg_autostart :: "int option"
  cfg_intervals :: string
  cfg_pomodoro :: string

record snapshot_row =
  ls_id :: rowid
  ls_captured :: stamp
  ls_windows :: body
  ls_hash :: string
  ls_synced :: "stamp option"
  ls_retries :: int
  ls_last_retry :: "stamp option"
  ls_created :: stamp

record auto_row =
  as_hours :: int
  as_enabled :: "stamp option"
  as_last_run :: "stamp option"

record client_tables =
  foreign_keys :: bool
  focus_events :: "focus_row list"
  tags :: "tag_row list"
  event_tags :: "event_tag_row list"
  event_notes :: "note_row list"
  tag_rules :: "rule_row list"
  submissions :: "submission_row list"
  submission_events :: "(rowid \<times> rowid) list"
  pomodoro_sessions :: "pomodoro_row list"
  config :: "config_row option"
  layout_snapshots :: "snapshot_row list"
  auto_config :: "auto_row option"
  auto_tags :: "rowid list"

type_synonym 'a client = "(client_tables, 'a) dbm"

text \<open>What \<^verbatim>\<open>migrate\<close> leaves in an empty file, with the foreign keys \<open>New\<close> turned on.\<close>

definition empty_store :: client_tables where
  "empty_store = \<lparr>foreign_keys = True, focus_events = [], tags = [], event_tags = [], event_notes = [],
     tag_rules = [], submissions = [], submission_events = [], pomodoro_sessions = [],
     config = None, layout_snapshots = [], auto_config = None, auto_tags = []\<rparr>"

definition has_event :: "client_tables \<Rightarrow> rowid \<Rightarrow> bool" where
  "has_event d i = (i \<in> fe_id ` set (focus_events d))"

definition has_tag :: "client_tables \<Rightarrow> rowid \<Rightarrow> bool" where
  "has_tag d i = (i \<in> tag_id ` set (tags d))"

definition has_submission :: "client_tables \<Rightarrow> rowid \<Rightarrow> bool" where
  "has_submission d i = (i \<in> sub_id ` set (submissions d))"

text \<open>A foreign key check of the connection.\<close>

definition fk_ok :: "client_tables \<Rightarrow> bool \<Rightarrow> bool" where
  "fk_ok d b = (foreign_keys d \<longrightarrow> b)"

section \<open>Focus events\<close>

record FocusEvent =
  ID :: rowid
  AppName :: string
  WindowTitle :: string
  StartedAt :: gotime
  EndedAt :: "gotime option"
  DurationS :: "int option"
  IsIdle :: bool
  CreatedAt :: gotime

definition scanFocusEvent :: "focus_row \<Rightarrow> FocusEvent" where
  "scanFocusEvent r = \<lparr>ID = fe_id r, AppName = fe_app r, WindowTitle = fe_title r,
     StartedAt = parse_rfc3339 (fe_started r),
     EndedAt = map_option parse_rfc3339 (fe_ended r), DurationS = fe_duration r,
     IsIdle = fe_idle r, CreatedAt = parse_rfc3339 (fe_created r)\<rparr>"

definition InsertFocusEvent :: "gotime \<Rightarrow> string \<Rightarrow> string \<Rightarrow> gotime \<Rightarrow> rowid client" where
  "InsertFocusEvent now app title startedAt =
     stmt ''insert focus event'' (\<lambda>d.
       let i = next_rowid (map fe_id (focus_events d));
           r = \<lparr>fe_id = i, fe_app = app, fe_title = title, fe_started = rfc3339 startedAt,
                fe_ended = None, fe_duration = None, fe_idle = False, fe_created = rfc3339 now\<rparr>
       in Inr (i, d\<lparr>focus_events := focus_events d @ [r]\<rparr>))"

definition end_row :: "stamp \<Rightarrow> focus_row \<Rightarrow> focus_row" where
  "end_row e r = r\<lparr>fe_ended := Some e, fe_duration := Some (e - fe_started r)\<rparr>"

definition EndFocusEvent :: "rowid \<Rightarrow> gotime \<Rightarrow> unit client" where
  "EndFocusEvent i endedAt =
     stmt ''end focus event'' (\<lambda>d.
       Inr ((), d\<lparr>focus_events :=
         sql_update (\<lambda>r. fe_id r = i) (end_row (rfc3339 endedAt)) (focus_events d)\<rparr>))"

text \<open>
  \<open>jd e s\<close> is what SQLite computes for
  \<^verbatim>\<open>CAST((julianday(e) - julianday(s)) * 86400 AS INTEGER)\<close>, in floating point.
\<close>

definition close_row :: "(stamp \<Rightarrow> stamp \<Rightarrow> int) \<Rightarrow> stamp \<Rightarrow> focus_row \<Rightarrow> focus_row" where
  "close_row jd e r = r\<lparr>fe_ended := Some e, fe_duration := Some (jd e (fe_started r))\<rparr>"

text \<open>\<^verbatim>\<open>SELECT id ... WHERE ended_at IS NULL ORDER BY id DESC LIMIT 1\<close>\<close>

definition latest_open :: "focus_row list \<Rightarrow> rowid option" where
  "latest_open rows =
     (case order_desc fe_id (filter (\<lambda>r. fe_ended r = None) rows) of
        [] \<Rightarrow> None | r # _ \<Rightarrow> Some (fe_id r))"

definition CloseLatestOpenFocusEvent ::
  "(stamp \<Rightarrow> stamp \<Rightarrow> int) \<Rightarrow> gotime \<Rightarrow> nat client" where
  "CloseLatestOpenFocusEvent jd now =
     stmt ''close latest open focus event'' (\<lambda>d.
       let p = (\<lambda>r. Some (fe_id r) = latest_open (focus_events d))
       in Inr (affected p (focus_events d),
               d\<lparr>focus_events := sql_update p (close_row jd (rfc3339 now)) (focus_events d)\<rparr>))"

definition GetFocusEvent :: "rowid \<Rightarrow> FocusEvent client" where
  "GetFocusEvent i =
     stmt ''scan focus event'' (\<lambda>d.
       case row_at fe_id i (focus_events d) of
         None \<Rightarrow> Inl (ENotFound ''focus event not found'')
       | Some r \<Rightarrow> Inr (scanFocusEvent r, d))"

definition ListFocusEvents :: "gotime \<Rightarrow> gotime \<Rightarrow> FocusEvent list client" where
  "ListFocusEvents from to =
     query ''list focus events'' (\<lambda>d.
       map scanFocusEvent (order_asc fe_started
         (filter (\<lambda>r. rfc3339 from \<le> fe_started r \<and> fe_started r \<le> rfc3339 to)
            (focus_events d))))"

definition idle_row :: "focus_row \<Rightarrow> focus_row" where
  "idle_row r = r\<lparr>fe_idle := True\<rparr>"

definition MarkFocusEventIdle :: "rowid \<Rightarrow> unit client" where
  "MarkFocusEventIdle i =
     stmt ''mark idle'' (\<lambda>d.
       Inr ((), d\<lparr>focus_events := sql_update (\<lambda>r. fe_id r = i) idle_row (focus_events d)\<rparr>))"

section \<open>Tags and event tags\<close>

record Tag =
  TagID :: rowid
  TagName :: string
  TagColor :: string
  TagCreatedAt :: gotime

definition scanTag :: "tag_row \<Rightarrow> Tag" where
  "scanTag r = \<lparr>TagID = tag_id r, TagName = tag_name r, TagColor = tag_color r,
     TagCreatedAt = parse_rfc3339 (tag_created r)\<rparr>"

definition CreateTag :: "gotime \<Rightarrow> string \<Rightarrow> string \<Rightarrow> rowid client" where
  "CreateTag now name color =
     stmt ''create tag'' (\<lambda>d.
       if name \<in> tag_name ` set (tags d) then Inl (EConstraint ''UNIQUE tags.name'')
       else let i = next_rowid (map tag_id (tags d))
            in Inr (i, d\<lparr>tags := tags d @ [\<lparr>tag_id = i, tag_name = name, tag_color = color,
                 tag_created = rfc3339 now\<rparr>]\<rparr>))"

definition GetTag :: "rowid \<Rightarrow> Tag client" where
  "GetTag i =
     stmt ''get tag'' (\<lambda>d.
       case row_at tag_id i (tags d) of
         None \<Rightarrow> Inl (ENotFound ''tag not found'')
       | Some r \<Rightarrow> Inr (scanTag r, d))"

definition ListTags :: "Tag list client" where
  "ListTags = query ''list tags'' (\<lambda>d. map scanTag (order_asc tag_name (tags d)))"

definition tag_set :: "string \<Rightarrow> string \<Rightarrow> tag_row \<Rightarrow> tag_row" where
  "tag_set name color r = r\<lparr>tag_name := name, tag_color := color\<rparr>"

definition UpdateTag :: "rowid \<Rightarrow> string \<Rightarrow> string \<Rightarrow> unit client" where
  "UpdateTag i name color =
     stmt ''update tag'' (\<lambda>d.
       if has_tag d i \<and> (\<exists>r \<in> set (tags d). tag_id r \<noteq> i \<and> tag_name r = name)
       then Inl (EConstraint ''UNIQUE tags.name'')
       else Inr ((), d\<lparr>tags := sql_update (\<lambda>r. tag_id r = i) (tag_set name color) (tags d)\<rparr>))"

text \<open>The rows of other tables that refer to a tag.\<close>

definition tag_referenced :: "client_tables \<Rightarrow> rowid \<Rightarrow> bool" where
  "tag_referenced d i =
     (i \<in> et_tag ` set (event_tags d) \<or> i \<in> rr_tag ` set (tag_rules d) \<or>
      Some i \<in> pm_tag ` set (pomodoro_sessions d) \<or> i \<in> set (auto_tags d))"

definition DeleteTag :: "rowid \<Rightarrow> unit client" where
  "DeleteTag i =
     stmt ''delete tag'' (\<lambda>d.
       if fk_ok d (\<not> (has_tag d i \<and> tag_referenced d i))
       then Inr ((), d\<lparr>tags := sql_delete (\<lambda>r. tag_id r = i) (tags d)\<rparr>)
       else Inl (EConstraint ''FOREIGN KEY''))"

definition ApplyTagToEvent ::
  "rowid \<Rightarrow> rowid \<Rightarrow> tag_source \<Rightarrow> rowid option \<Rightarrow> unit client" where
  "ApplyTagToEvent e t src from =
     stmt ''apply tag'' (\<lambda>d.
       if \<exists>r \<in> set (event_tags d). et_event r = e \<and> et_tag r = t then Inr ((), d)
       else if fk_ok d (has_event d e \<and> has_tag d t)
       then Inr ((), d\<lparr>event_tags := event_tags d @
              [\<lparr>et_event = e, et_tag = t, et_source = src, et_cascade_from = from\<rparr>]\<rparr>)
       else Inl (EConstraint ''FOREIGN KEY''))"

definition ListTagsForEvent :: "rowid \<Rightarrow> event_tag_row list client" where
  "ListTagsForEvent e =
     query ''list tags for event'' (\<lambda>d. filter (\<lambda>r. et_event r = e) (event_tags d))"

definition ListEventIDsForTag :: "rowid \<Rightarrow> rowid list client" where
  "ListEventIDsForTag t =
     query ''list events for tag'' (\<lambda>d.
       order_asc (\<lambda>i. i) (map et_event (filter (\<lambda>r. et_tag r = t) (event_tags d))))"

definition submitted :: "client_tables \<Rightarrow> rowid \<Rightarrow> bool" where
  "submitted d e = (0 < affected (\<lambda>p. snd p = e) (submission_events d))"

definition IsEventSubmitted :: "rowid \<Rightarrow> bool client" where
  "IsEventSubmitted e = query ''check submission'' (\<lambda>d. submitted d e)"

section \<open>Notes\<close>

record Note =
  NoteID :: rowid
  AnchorEvent :: rowid
  NoteText :: string
  NoteCreatedAt :: gotime
  CascadeApplied :: bool

definition CreateNote :: "gotime \<Rightarrow> rowid \<Rightarrow> string \<Rightarrow> rowid client" where
  "CreateNote now e txt =
     stmt ''create note'' (\<lambda>d.
       if fk_ok d (has_event d e)
       then let i = next_rowid (map note_id (event_notes d))
            in Inr (i, d\<lparr>event_notes := event_notes d @ [\<lparr>note_id = i, note_anchor = e, note_text = txt,
                 note_created = rfc3339 now, note_cascade_applied = False\<rparr>]\<rparr>)
       else Inl (EConstraint ''FOREIGN KEY''))"

definition ListNotesForEvent :: "rowid \<Rightarrow> Note list client" where
  "ListNotesForEvent e =
     query ''list notes'' (\<lambda>d.
       map (\<lambda>r. \<lparr>NoteID = note_id r, AnchorEvent = note_anchor r, NoteText = note_text r,
                  NoteCreatedAt = parse_rfc3339 (note_created r),
                  CascadeApplied = note_cascade_applied r\<rparr>)
         (order_asc note_created (filter (\<lambda>r. note_anchor r = e) (event_notes d))))"

definition applied_row :: "note_row \<Rightarrow> note_row" where
  "applied_row r = r\<lparr>note_cascade_applied := True\<rparr>"

definition MarkNoteCascadeApplied :: "rowid \<Rightarrow> unit client" where
  "MarkNoteCascadeApplied i =
     stmt ''mark cascade applied'' (\<lambda>d.
       Inr ((), d\<lparr>event_notes := sql_update (\<lambda>r. note_id r = i) applied_row (event_notes d)\<rparr>))"

section \<open>Submissions\<close>

record Submission =
  SubID :: rowid
  ServerID :: "string option"
  SubmittedAt :: gotime
  Status :: string
  RetryCount :: int
  LastRetry :: "gotime option"

definition scanSubmission :: "submission_row \<Rightarrow> Submission" where
  "scanSubmission r = \<lparr>SubID = sub_id r, ServerID = sub_server_id r,
     SubmittedAt = parse_rfc3339 (sub_submitted r), Status = sub_status r,
     RetryCount = sub_retries r, LastRetry = map_option parse_rfc3339 (sub_last_retry r)\<rparr>"

definition new_submission :: "rowid \<Rightarrow> stamp \<Rightarrow> submission_row" where
  "new_submission i t = \<lparr>sub_id = i, sub_server_id = None, sub_submitted = t,
     sub_status = ''pending'', sub_retries = 0, sub_last_retry = None\<rparr>"

definition insert_submission :: "string \<Rightarrow> stamp \<Rightarrow> rowid client" where
  "insert_submission ctx t =
     stmt ctx (\<lambda>d. let i = next_rowid (map sub_id (submissions d))
       in Inr (i, d\<lparr>submissions := submissions d @ [new_submission i t]\<rparr>))"

definition CreateSubmissionRow :: "gotime \<Rightarrow> rowid client" where
  "CreateSubmissionRow submittedAt = insert_submission ''create submission'' (rfc3339 submittedAt)"

definition LinkEventToSubmission :: "rowid \<Rightarrow> rowid \<Rightarrow> unit client" where
  "LinkEventToSubmission sid e =
     stmt ''link event'' (\<lambda>d.
       if (sid, e) \<in> set (submission_events d) then Inl (EConstraint ''UNIQUE submission_events'')
       else if fk_ok d (has_submission d sid \<and> has_event d e)
       then Inr ((), d\<lparr>submission_events := submission_events d @ [(sid, e)]\<rparr>)
       else Inl (EConstraint ''FOREIGN KEY''))"

definition GetSubmission :: "rowid \<Rightarrow> Submission client" where
  "GetSubmission i =
     stmt ''get submission'' (\<lambda>d.
       case row_at sub_id i (submissions d) of
         None \<Rightarrow> Inl (ENotFound ''submission not found'')
       | Some r \<Rightarrow> Inr (scanSubmission r, d))"

definition status_row :: "string \<Rightarrow> string option \<Rightarrow> submission_row \<Rightarrow> submission_row" where
  "status_row st server r = r\<lparr>sub_status := st, sub_server_id := server\<rparr>"

definition UpdateSubmissionStatus :: "rowid \<Rightarrow> string \<Rightarrow> string \<Rightarrow> unit client" where
  "UpdateSubmissionStatus i st serverID =
     stmt ''update submission status'' (\<lambda>d.
       let sid = (if serverID \<noteq> [] then Some serverID else None)
       in Inr ((), d\<lparr>submissions :=
            sql_update (\<lambda>r. sub_id r = i) (status_row st sid) (submissions d)\<rparr>))"

definition pending_rows :: "client_tables \<Rightarrow> submission_row list" where
  "pending_rows d =
     order_asc sub_submitted (filter (\<lambda>r. sub_status r = ''pending'') (submissions d))"

definition ListPendingSubmissions :: "Submission list client" where
  "ListPendingSubmissions =
     query ''list pending submissions'' (\<lambda>d. map scanSubmission (pending_rows d))"

definition GetSubmittedEventIDs :: "rowid list client" where
  "GetSubmittedEventIDs =
     query ''get submitted event IDs'' (\<lambda>d.
       order_asc (\<lambda>i. i) (remdups (map snd (submission_events d))))"

definition retry_row :: "stamp \<Rightarrow> submission_row \<Rightarrow> submission_row" where
  "retry_row t r = r\<lparr>sub_retries := sub_retries r + 1, sub_last_retry := Some t\<rparr>"

definition IncrementSubmissionRetry :: "gotime \<Rightarrow> rowid \<Rightarrow> unit client" where
  "IncrementSubmissionRetry now i =
     stmt ''increment retry'' (\<lambda>d.
       Inr ((), d\<lparr>submissions :=
         sql_update (\<lambda>r. sub_id r = i) (retry_row (rfc3339 now)) (submissions d)\<rparr>))"

section \<open>Pomodoro sessions\<close>

record PomodoroSession =
  PomID :: rowid
  PomStartedAt :: gotime
  PomEndedAt :: "gotime option"
  WorkMins :: int
  BreakMins :: int
  PomStatus :: string
  PomTag :: "rowid option"
  PomCreatedAt :: gotime

definition scanPomodoroSession :: "pomodoro_row \<Rightarrow> PomodoroSession" where
  "scanPomodoroSession r = \<lparr>PomID = pm_id r, PomStartedAt = parse_rfc3339 (pm_started r),
     PomEndedAt = map_option parse_rfc3339 (pm_ended r), WorkMins = pm_work r,
     BreakMins = pm_break r, PomStatus = pm_status r, PomTag = pm_tag r,
     PomCreatedAt = parse_rfc3339 (pm_created r)\<rparr>"

definition PomodoroCreate :: "gotime \<Rightarrow> int \<Rightarrow> int \<Rightarrow> string \<Rightarrow> rowid option \<Rightarrow> rowid client" where
  "PomodoroCreate now workMins breakMins st tag =
     stmt ''pomodoro store: create'' (\<lambda>d.
       if fk_ok d (case tag of None \<Rightarrow> True | Some t \<Rightarrow> has_tag d t)
       then let i = next_rowid (map pm_id (pomodoro_sessions d))
            in Inr (i, d\<lparr>pomodoro_sessions := pomodoro_sessions d @
                 [\<lparr>pm_id = i, pm_started = rfc3339 now, pm_ended = None, pm_work = workMins,
                   pm_break = breakMins, pm_status = st, pm_tag = tag,
                   pm_created = rfc3339 now\<rparr>]\<rparr>)
       else Inl (EConstraint ''FOREIGN KEY''))"

definition pm_status_row :: "string \<Rightarrow> pomodoro_row \<Rightarrow> pomodoro_row" where
  "pm_status_row st r = r\<lparr>pm_status := st\<rparr>"

definition PomodoroUpdateStatus :: "rowid \<Rightarrow> string \<Rightarrow> unit client" where
  "PomodoroUpdateStatus i st =
     stmt ''pomodoro store: update status'' (\<lambda>d.
       Inr ((), d\<lparr>pomodoro_sessions :=
         sql_update (\<lambda>r. pm_id r = i) (pm_status_row st) (pomodoro_sessions d)\<rparr>))"

definition pm_end_row :: "stamp \<Rightarrow> string \<Rightarrow> pomodoro_row \<Rightarrow> pomodoro_row" where
  "pm_end_row e st r = r\<lparr>pm_ended := Some e, pm_status := st\<rparr>"

definition PomodoroEnd :: "gotime \<Rightarrow> rowid \<Rightarrow> string \<Rightarrow> unit client" where
  "PomodoroEnd now i st =
     stmt ''pomodoro store: end'' (\<lambda>d.
       Inr ((), d\<lparr>pomodoro_sessions :=
         sql_update (\<lambda>r. pm_id r = i) (pm_end_row (rfc3339 now) st) (pomodoro_sessions d)\<rparr>))"

definition PomodoroGetByID :: "rowid \<Rightarrow> PomodoroSession client" where
  "PomodoroGetByID i =
     stmt ''pomodoro store: scan'' (\<lambda>d.
       case row_at pm_id i (pomodoro_sessions d) of
         None \<Rightarrow> Inl (EDb ''pomodoro store: scan'')
       | Some r \<Rightarrow> Inr (scanPomodoroSession r, d))"

text \<open>
  The day is given by the second of its UTC midnight; \<open>LIMIT\<close> with a negative number is
  no limit.
\<close>

definition PomodoroListByDate :: "stamp \<Rightarrow> PomodoroSession list client" where
  "PomodoroListByDate dayStart =
     query ''pomodoro store: list by date'' (\<lambda>d.
       map scanPomodoroSession (order_desc pm_started
         (filter (\<lambda>r. dayStart \<le> pm_started r \<and> pm_started r \<le> dayStart + 86399)
            (pomodoro_sessions d))))"

definition PomodoroListRecent :: "int \<Rightarrow> PomodoroSession list client" where
  "PomodoroListRecent limit =
     query ''pomodoro store: list recent'' (\<lambda>d.
       let rows = order_desc pm_started (pomodoro_sessions d)
       in map scanPomodoroSession (if limit < 0 then rows else take (nat limit) rows))"

section \<open>Configuration\<close>

definition InitConfig :: "string \<Rightarrow> string \<Rightarrow> string \<Rightarrow> unit client" where
  "InitConfig deviceID serverURL apiKey =
     stmt ''init config'' (\<lambda>d.
       Inr ((), d\<lparr>config :=
         (case config d of
            Some c \<Rightarrow> Some c
          | None \<Rightarrow> Some \<lparr>cfg_device = deviceID, cfg_server = serverURL, cfg_api_key = apiKey,
              cfg_tracking = Some 1, cfg_autostart = Some 0,
              cfg_intervals = ''[30,45,60,90,120]'',
              cfg_pomodoro = ''{\"work\":25,\"break\":5}''\<rparr>)\<rparr>))"

record Config =
  DeviceID :: string
  ServerURL :: string
  APIKeyText :: string
  TrackingOn :: bool
  Autostart :: bool
  PresenceIntervals :: string
  PomodoroDefaults :: string

definition scanConfig :: "config_row \<Rightarrow> Config option" where
  "scanConfig c =
     (case (cfg_tracking c, cfg_autostart c) of
        (Some t, Some a) \<Rightarrow> Some \<lparr>DeviceID = cfg_device c, ServerURL = cfg_server c, APIKeyText = cfg_api_key c,
          TrackingOn = (t \<noteq> 0), Autostart = (a \<noteq> 0), PresenceIntervals = cfg_intervals c,
          PomodoroDefaults = cfg_pomodoro c\<rparr>
      | _ \<Rightarrow> None)"

definition GetConfig :: "Config client" where
  "GetConfig =
     stmt ''get config'' (\<lambda>d.
       case config d of
         None \<Rightarrow> Inl (ENotFound ''config not initialized'')
       | Some c \<Rightarrow> (case scanConfig c of None \<Rightarrow> Inl (EDb ''get config'') | Some cfg \<Rightarrow> Inr (cfg, d)))"

definition bit :: "bool \<Rightarrow> int" where
  "bit on = (if on then 1 else 0)"

definition set_tracking :: "int option \<Rightarrow> config_row \<Rightarrow> config_row" where
  "set_tracking v c = c\<lparr>cfg_tracking := v\<rparr>"

definition set_autostart :: "int option \<Rightarrow> config_row \<Rightarrow> config_row" where
  "set_autostart v c = c\<lparr>cfg_autostart := v\<rparr>"

definition UpdateTrackingState :: "bool \<Rightarrow> unit client" where
  "UpdateTrackingState on =
     stmt ''update tracking state'' (\<lambda>d.
       Inr ((), d\<lparr>config := map_option (set_tracking (Some (bit on))) (config d)\<rparr>))"

definition UpdateAutostart :: "bool \<Rightarrow> unit client" where
  "UpdateAutostart on =
     stmt ''update autostart'' (\<lambda>d.
       Inr ((), d\<lparr>config := map_option (set_autostart (Some (bit on))) (config d)\<rparr>))"

section \<open>The updates keep the keys\<close>

lemma row_updates [simp]:
  "fe_id (end_row e r) = fe_id r" "fe_id (close_row jd e r) = fe_id r" "fe_id (idle_row r) = fe_id r"
  "fe_started (end_row e r) = fe_started r" "fe_started (close_row jd e r) = fe_started r"
  "fe_ended (end_row e r) = Some e" "fe_ended (close_row jd e r) = Some e"
  "fe_duration (end_row e r) = Some (e - fe_started r)"
  "fe_duration (close_row jd e r) = Some (jd e (fe_started r))"
  "fe_ended (idle_row r) = fe_ended r" "fe_duration (idle_row r) = fe_duration r"
  for r :: focus_row
  by (simp_all add: end_row_def close_row_def idle_row_def)

lemma row_updates2 [simp]:
  "tag_id (tag_set n c t) = tag_id t" "tag_name (tag_set n c t) = n"
  "note_id (applied_row m) = note_id m" "note_anchor (applied_row m) = note_anchor m"
  by (simp_all add: tag_set_def applied_row_def)

lemma row_updates3 [simp]:
  "sub_id (status_row st sid r) = sub_id r" "sub_id (retry_row t r) = sub_id r"
  "sub_status (status_row st sid r) = st" "sub_status (retry_row t r) = sub_status r"
  "sub_server_id (status_row st sid r) = sid"
  "sub_retries (status_row st sid r) = sub_retries r" "sub_retries (retry_row t r) = sub_retries r + 1"
  "sub_submitted (status_row st sid r) = sub_submitted r" "sub_submitted (retry_row t r) = sub_submitted r"
  "sub_last_retry (status_row st sid r) = sub_last_retry r" "sub_last_retry (retry_row t r) = Some t"
  by (simp_all add: status_row_def retry_row_def)

lemma row_updates4 [simp]:
  "pm_id (pm_status_row st p) = pm_id p" "pm_id (pm_end_row e st p) = pm_id p"
  "pm_tag (pm_status_row st p) = pm_tag p" "pm_tag (pm_end_row e st p) = pm_tag p"
  "pm_status (pm_status_row st p) = st" "pm_status (pm_end_row e st p) = st"
  "pm_ended (pm_status_row st p) = pm_ended p" "pm_ended (pm_end_row e st p) = Some e"
  by (simp_all add: pm_status_row_def pm_end_row_def)

interpretation focus_end: keyed_update fe_id "end_row e" for e
  by unfold_locales simp

interpretation focus_close: keyed_update fe_id "close_row jd e" for jd e
  by unfold_locales simp

interpretation focus_idle: keyed_update fe_id idle_row
  by unfold_locales simp

interpretation tag_rename: keyed_update tag_id "tag_set n c" for n c
  by unfold_locales simp

interpretation note_mark: keyed_update note_id applied_row
  by unfold_locales simp

interpretation sub_status: keyed_update sub_id "status_row st sid" for st sid
  by unfold_locales simp

interpretation sub_retry: keyed_update sub_id "retry_row t" for t
  by unfold_locales simp

interpretation pom_status: keyed_update pm_id "pm_status_row st" for st
  by unfold_locales simp

interpretation pom_end: keyed_update pm_id "pm_end_row e st" for e st
  by unfold_locales simp

lemmas map_key_updates [simp] =
  focus_end.map_key_update focus_close.map_key_update focus_idle.map_key_update
  tag_rename.map_key_update note_mark.map_key_update sub_status.map_key_update
  sub_retry.map_key_update pom_status.map_key_update pom_end.map_key_update

section \<open>The invariants of the schema\<close>

text \<open>
  \<open>store_wf\<close>: primary keys and unique columns are distinct, and a focus event has a duration
  iff it has ended. \<open>refs_ok\<close>: the foreign keys.
\<close>

definition store_wf :: "client_tables \<Rightarrow> bool" where
  "store_wf d =
     (distinct (map fe_id (focus_events d)) \<and> distinct (map tag_id (tags d)) \<and>
      distinct (map tag_name (tags d)) \<and>
      distinct (map (\<lambda>r. (et_event r, et_tag r)) (event_tags d)) \<and>
      distinct (map note_id (event_notes d)) \<and> distinct (map rr_id (tag_rules d)) \<and>
      distinct (map sub_id (submissions d)) \<and> distinct (submission_events d) \<and>
      distinct (map pm_id (pomodoro_sessions d)) \<and> distinct (map ls_id (layout_snapshots d)) \<and>
      distinct (auto_tags d) \<and>
      (\<forall>r \<in> set (focus_events d). (fe_ended r = None) = (fe_duration r = None)))"

definition refs_ok :: "client_tables \<Rightarrow> bool" where
  "refs_ok d =
     ((\<forall>r \<in> set (event_tags d). has_event d (et_event r) \<and> has_tag d (et_tag r)) \<and>
      (\<forall>n \<in> set (event_notes d). has_event d (note_anchor n)) \<and>
      (\<forall>r \<in> set (tag_rules d). has_tag d (rr_tag r)) \<and>
      (\<forall>(s, e) \<in> set (submission_events d). has_submission d s \<and> has_event d e) \<and>
      (\<forall>p \<in> set (pomodoro_sessions d). \<forall>t. pm_tag p = Some t \<longrightarrow> has_tag d t) \<and>
      (\<forall>t \<in> set (auto_tags d). has_tag d t))"

definition store_inv :: "client_tables \<Rightarrow> bool" where
  "store_inv d = (store_wf d \<and> (foreign_keys d \<longrightarrow> refs_ok d))"


lemma store_inv_empty: "store_inv empty_store"
  by (simp add: store_inv_def store_wf_def refs_ok_def empty_store_def)

lemmas store_inv_defs = store_inv_def store_wf_def refs_ok_def has_event_def has_tag_def
  has_submission_def fk_ok_def

lemma duration_update [table_simps]:
  "(\<forall>r \<in> set rows. (fe_ended r = None) = (fe_duration r = None)) \<Longrightarrow>
   (\<And>r. (fe_ended (f r) = None) = (fe_duration (f r) = None)) \<Longrightarrow>
   \<forall>r \<in> set (sql_update p f rows). (fe_ended r = None) = (fe_duration r = None)"
  by (auto simp: sql_update_def)

lemma keeps_focus [keeps_rules]:
  "keeps store_inv (InsertFocusEvent now app title t)"
  "keeps store_inv (EndFocusEvent i t)"
  "keeps store_inv (CloseLatestOpenFocusEvent jd now)"
  "keeps store_inv (MarkFocusEventIdle i)"
proof -
  show "keeps store_inv (InsertFocusEvent now app title t)"
    unfolding InsertFocusEvent_def
    by (rule keeps_stmt) (auto simp: store_inv_defs Let_def)
  have upd: "store_inv (d\<lparr>focus_events := sql_update p f (focus_events d)\<rparr>)"
    if "store_inv d" and "\<And>r. fe_id (f r) = fe_id r"
      and "\<And>r. (fe_ended r = None) = (fe_duration r = None) \<Longrightarrow>
              (fe_ended (f r) = None) = (fe_duration (f r) = None)" for d p f
  proof -
    have "map fe_id (sql_update p f (focus_events d)) = map fe_id (focus_events d)"
      using that(2) by (simp add: sql_update_def)
    moreover from this have "fe_id ` set (sql_update p f (focus_events d)) = fe_id ` set (focus_events d)"
      by (metis set_map)
    moreover have "\<forall>r \<in> set (sql_update p f (focus_events d)). (fe_ended r = None) = (fe_duration r = None)"
      using that(1,3) by (auto simp: sql_update_def store_inv_def store_wf_def)
    ultimately show ?thesis using that(1) by (simp add: store_inv_defs)
  qed
  show "keeps store_inv (EndFocusEvent i t)" "keeps store_inv (CloseLatestOpenFocusEvent jd now)"
    "keeps store_inv (MarkFocusEventIdle i)"
    unfolding EndFocusEvent_def CloseLatestOpenFocusEvent_def MarkFocusEventIdle_def
    by (rule keeps_stmt; auto simp: Let_def intro!: upd)+
qed

lemma distinct_tag_set:
  assumes "distinct (map tag_id rows)" and "distinct (map tag_name rows)"
    and "\<forall>r \<in> set rows. tag_id r \<noteq> i \<longrightarrow> tag_name r \<noteq> n"
  shows "distinct (map tag_name (sql_update (\<lambda>r. tag_id r = i) (tag_set n c) rows))"
proof -
  let ?f = "\<lambda>r. if tag_id r = i then tag_set n c r else r"
  have "inj_on (tag_name \<circ> ?f) (set rows)"
    using assms by (auto simp: inj_on_def distinct_map split: if_splits)
  then show ?thesis using assms(2) by (simp add: sql_update_def distinct_map)
qed

lemma keeps_tags [keeps_rules]:
  "keeps store_inv (CreateTag now n c)"
  "keeps store_inv (UpdateTag i n c)"
  "keeps store_inv (DeleteTag i)"
  "keeps store_inv (ApplyTagToEvent e t src from)"
proof -
  show "keeps store_inv (CreateTag now n c)"
    unfolding CreateTag_def
    by (rule keeps_stmt) (auto simp: store_inv_defs Let_def split: if_splits)
  have upd: "store_inv (d\<lparr>tags := sql_update (\<lambda>r. tag_id r = i) (tag_set n c) (tags d)\<rparr>)"
    if "store_inv d" and "\<not> (has_tag d i \<and> (\<exists>r \<in> set (tags d). tag_id r \<noteq> i \<and> tag_name r = n))"
    for d
  proof -
    let ?rows = "sql_update (\<lambda>r. tag_id r = i) (tag_set n c) (tags d)"
    have "tag_id ` set ?rows = tag_id ` set (tags d)"
      by (metis set_map tag_rename.map_key_update)
    moreover have "distinct (map tag_name ?rows)"
    proof (cases "has_tag d i")
      case True
      with that show ?thesis by (intro distinct_tag_set) (auto simp: store_inv_def store_wf_def)
    next
      case False
      then have "?rows = tags d" by (auto simp: sql_update_def has_tag_def intro!: map_idI)
      with that(1) show ?thesis by (simp add: store_inv_def store_wf_def)
    qed
    ultimately show ?thesis using that(1) by (simp add: store_inv_defs)
  qed
  show "keeps store_inv (UpdateTag i n c)"
    unfolding UpdateTag_def by (rule keeps_stmt) (auto intro: upd split: if_splits)
  have del: "store_inv (d\<lparr>tags := sql_delete (\<lambda>r. tag_id r = i) (tags d)\<rparr>)"
    if inv: "store_inv d" and fk: "fk_ok d (\<not> (has_tag d i \<and> tag_referenced d i))" for d
  proof -
    let ?d = "d\<lparr>tags := sql_delete (\<lambda>r. tag_id r = i) (tags d)\<rparr>"
    have ht: "has_tag ?d t \<longleftrightarrow> has_tag d t \<and> t \<noteq> i" for t
      by (auto simp: has_tag_def set_sql_delete)
    have "store_wf ?d"
      using inv by (simp add: store_inv_def store_wf_def distinct_map_delete)
    moreover have "refs_ok ?d" if "foreign_keys d"
    proof -
      have refs: "refs_ok d" and "\<not> (has_tag d i \<and> tag_referenced d i)"
        using inv fk that by (simp_all add: store_inv_def fk_ok_def)
      then have "\<not> tag_referenced d i"
        unfolding refs_ok_def tag_referenced_def by force
      with refs show ?thesis
        unfolding refs_ok_def tag_referenced_def ht
        by (auto simp: has_event_def has_submission_def image_iff)
    qed
    ultimately show ?thesis by (simp add: store_inv_def)
  qed
  show "keeps store_inv (DeleteTag i)"
    unfolding DeleteTag_def by (rule keeps_stmt) (auto intro: del split: if_splits)
  have tag: "store_inv (d\<lparr>event_tags := event_tags d @ [r]\<rparr>)"
    if inv: "store_inv d" and new: "(et_event r, et_tag r) \<notin> (\<lambda>r. (et_event r, et_tag r)) ` set (event_tags d)"
      and fk: "foreign_keys d \<longrightarrow> has_event d (et_event r) \<and> has_tag d (et_tag r)" for d r
  proof -
    have "store_wf (d\<lparr>event_tags := event_tags d @ [r]\<rparr>)"
      using inv new by (simp add: store_inv_def store_wf_def)
    moreover have "refs_ok (d\<lparr>event_tags := event_tags d @ [r]\<rparr>)" if "foreign_keys d"
      using inv fk that
      by (simp add: store_inv_def refs_ok_def has_event_def has_tag_def has_submission_def)
    ultimately show ?thesis by (simp add: store_inv_def)
  qed
  show "keeps store_inv (ApplyTagToEvent e t src from)"
    unfolding ApplyTagToEvent_def
    by (rule keeps_stmt) (auto simp: fk_ok_def intro!: tag split: if_splits)
qed

lemma keeps_notes [keeps_rules]:
  "keeps store_inv (CreateNote now e txt)" "keeps store_inv (MarkNoteCascadeApplied i)"
proof -
  show "keeps store_inv (CreateNote now e txt)"
    unfolding CreateNote_def
    by (rule keeps_stmt) (auto simp: store_inv_defs Let_def split: if_splits)
  have "store_inv (d\<lparr>event_notes := sql_update p applied_row (event_notes d)\<rparr>)"
    if "store_inv d" for d p
  proof -
    have "\<forall>n \<in> set (sql_update p applied_row (event_notes d)). has_event d (note_anchor n)"
      if "foreign_keys d"
      using that \<open>store_inv d\<close>
      by (intro ball_sql_update) (auto simp: store_inv_def refs_ok_def)
    then show ?thesis using that by (simp add: store_inv_defs)
  qed
  then show "keeps store_inv (MarkNoteCascadeApplied i)"
    unfolding MarkNoteCascadeApplied_def by (intro keeps_stmt) auto
qed

lemma keeps_submissions [keeps_rules]:
  "keeps store_inv (insert_submission ctx t)"
  "keeps store_inv (CreateSubmissionRow t')"
  "keeps store_inv (LinkEventToSubmission sid e)"
  "keeps store_inv (UpdateSubmissionStatus i st server)"
  "keeps store_inv (IncrementSubmissionRetry now i)"
proof -
  show *: "keeps store_inv (insert_submission ctx t)" for ctx t
    unfolding insert_submission_def
    by (rule keeps_stmt) (auto simp: store_inv_defs Let_def new_submission_def)
  show "keeps store_inv (CreateSubmissionRow t')"
    by (simp add: CreateSubmissionRow_def *)
  show "keeps store_inv (LinkEventToSubmission sid e)"
  proof -
    have "store_inv (d\<lparr>submission_events := submission_events d @ [(i, ev)]\<rparr>)"
      if inv: "store_inv d" and new: "(i, ev) \<notin> set (submission_events d)"
        and fk: "foreign_keys d \<longrightarrow> has_submission d i \<and> has_event d ev" for d i ev
    proof -
      have "store_wf (d\<lparr>submission_events := submission_events d @ [(i, ev)]\<rparr>)"
        using inv new by (simp add: store_inv_def store_wf_def)
      moreover have "refs_ok (d\<lparr>submission_events := submission_events d @ [(i, ev)]\<rparr>)" if "foreign_keys d"
        using inv fk that
        by (simp add: store_inv_def refs_ok_def has_event_def has_tag_def has_submission_def)
      ultimately show ?thesis by (simp add: store_inv_def)
    qed
    then show ?thesis
      unfolding LinkEventToSubmission_def
      by (intro keeps_stmt) (auto simp: fk_ok_def split: if_splits)
  qed
  have upd: "store_inv (d\<lparr>submissions := sql_update p f (submissions d)\<rparr>)"
    if "store_inv d" and "\<And>r. sub_id (f r) = sub_id r" for d p f
  proof -
    have "map sub_id (sql_update p f (submissions d)) = map sub_id (submissions d)"
      using that(2) by (simp add: sql_update_def)
    moreover from this have "sub_id ` set (sql_update p f (submissions d)) = sub_id ` set (submissions d)"
      by (metis set_map)
    ultimately show ?thesis using that(1) by (simp add: store_inv_defs)
  qed
  show "keeps store_inv (UpdateSubmissionStatus i st server)" "keeps store_inv (IncrementSubmissionRetry now i)"
    unfolding UpdateSubmissionStatus_def IncrementSubmissionRetry_def
    by (rule keeps_stmt; auto simp: Let_def intro!: upd)+
qed

lemma keeps_pomodoro [keeps_rules]:
  "keeps store_inv (PomodoroCreate now w b st tag)"
  "keeps store_inv (PomodoroUpdateStatus i st)"
  "keeps store_inv (PomodoroEnd now i st)"
proof -
  show "keeps store_inv (PomodoroCreate now w b st tag)"
    unfolding PomodoroCreate_def
    by (rule keeps_stmt) (auto simp: store_inv_defs Let_def split: if_splits)
  have upd: "store_inv (d\<lparr>pomodoro_sessions := sql_update p f (pomodoro_sessions d)\<rparr>)"
    if "store_inv d" and f: "\<And>r. pm_id (f r) = pm_id r" "\<And>r. pm_tag (f r) = pm_tag r" for d p f
  proof -
    have "map pm_id (sql_update p f (pomodoro_sessions d)) = map pm_id (pomodoro_sessions d)"
      using f by (simp add: sql_update_def)
    moreover have "\<forall>s \<in> set (sql_update p f (pomodoro_sessions d)).
        \<forall>t. pm_tag s = Some t \<longrightarrow> has_tag d t" if "foreign_keys d"
      using that \<open>store_inv d\<close> f
      by (intro ball_sql_update) (auto simp: store_inv_def refs_ok_def)
    ultimately show ?thesis using that(1) by (simp add: store_inv_defs)
  qed
  show "keeps store_inv (PomodoroUpdateStatus i st)" "keeps store_inv (PomodoroEnd now i st)"
    unfolding PomodoroUpdateStatus_def PomodoroEnd_def
    by (rule keeps_stmt; auto simp: Let_def intro!: upd)+
qed

lemma keeps_config [keeps_rules]:
  "keeps store_inv (InitConfig dev url key)"
  "keeps store_inv (UpdateTrackingState on)"
  "keeps store_inv (UpdateAutostart on)"
proof -
  have "store_inv (d\<lparr>config := c\<rparr>) = store_inv d" for d c
    by (simp add: store_inv_defs)
  then show "keeps store_inv (InitConfig dev url key)" "keeps store_inv (UpdateTrackingState on)"
    "keeps store_inv (UpdateAutostart on)"
    unfolding InitConfig_def UpdateTrackingState_def UpdateAutostart_def
    by (intro keeps_stmt; auto)+
qed

lemma keeps_reads [keeps_rules]:
  "keeps I (GetFocusEvent i)" "keeps I (ListFocusEvents a b)" "keeps I (GetTag i)"
  "keeps I ListTags" "keeps I (ListTagsForEvent e)" "keeps I (ListEventIDsForTag t)"
  "keeps I (IsEventSubmitted e)" "keeps I (ListNotesForEvent e)" "keeps I (GetSubmission i)"
  "keeps I ListPendingSubmissions" "keeps I GetSubmittedEventIDs" "keeps I (PomodoroGetByID i)"
  "keeps I (PomodoroListByDate day)" "keeps I (PomodoroListRecent n)" "keeps I GetConfig"
  unfolding GetFocusEvent_def ListFocusEvents_def GetTag_def ListTags_def ListTagsForEvent_def
    ListEventIDsForTag_def IsEventSubmitted_def ListNotesForEvent_def GetSubmission_def
    ListPendingSubmissions_def GetSubmittedEventIDs_def PomodoroGetByID_def
    PomodoroListByDate_def PomodoroListRecent_def GetConfig_def
  by (rule keeps_query | rule keeps_stmt; auto split: option.splits)+


section \<open>What the operations do\<close>

lemma stmt_ok: "stmt ctx f s = (Inr x, s') \<Longrightarrow>
    (case f (tables s) of Inl _ \<Rightarrow> False
     | Inr (y, d) \<Rightarrow> x = y \<and> tables s' = d \<and> fault s' = fault s \<and> ticks s' = Suc (ticks s))"
  by (auto simp: stmt_def Let_def split: if_splits sum.splits)

lemma stmt_err: "stmt ctx f s = (Inl e, s') \<Longrightarrow> tables s' = tables s"
  by (auto simp: stmt_def Let_def split: if_splits sum.splits)

lemma stmt_healthy: "no_fault s \<Longrightarrow> stmt ctx f s =
    (case f (tables s) of
       Inl e \<Rightarrow> (Inl e, s\<lparr>ticks := Suc (ticks s)\<rparr>)
     | Inr (x, d) \<Rightarrow> (Inr x, s\<lparr>ticks := Suc (ticks s), tables := d\<rparr>))"
  by (auto simp: stmt_def Let_def split: sum.splits)

lemma fresh_row_at: "row_at key (next_rowid (map key rows)) rows = None"
  by (auto simp: row_at_None)

lemma row_at_snoc: "row_at key i (rows @ [r]) =
    (case row_at key i rows of Some x \<Rightarrow> Some x | None \<Rightarrow> if key r = i then Some r else None)"
  by (simp add: row_at_append) (simp add: row_at_def split: option.splits)

lemma latest_open_Some:
  assumes "latest_open rows = Some i"
  shows "\<exists>r \<in> set rows. fe_id r = i \<and> fe_ended r = None" (is ?ex)
    and "r \<in> set rows \<Longrightarrow> fe_ended r = None \<Longrightarrow> fe_id r \<le> i"
proof -
  let ?open = "filter (\<lambda>r. fe_ended r = None) rows"
  let ?xs = "order_desc fe_id ?open"
  obtain a as where xs: "?xs = a # as" and i: "i = fe_id a"
    using assms by (auto simp: latest_open_def split: list.splits)
  have "set ?xs = set ?open" by (simp only: set_order)
  then show ?ex using xs i by force
  have "sorted (map (\<lambda>r. - fe_id r) ?xs)" by (simp add: order_desc_def)
  then have "\<forall>b \<in> set as. fe_id b \<le> i" using xs i by simp
  moreover have "r \<in> set ?xs" if "r \<in> set rows" "fe_ended r = None"
    using that by (simp only: set_order) simp
  ultimately show "fe_id r \<le> i" if "r \<in> set rows" "fe_ended r = None"
    using that xs i by auto
qed

lemma latest_open_None: "latest_open rows = None \<longleftrightarrow> (\<forall>r \<in> set rows. fe_ended r \<noteq> None)"
proof -
  let ?open = "filter (\<lambda>r. fe_ended r = None) rows"
  have "latest_open rows = None \<longleftrightarrow> order_desc fe_id ?open = []"
    by (auto simp: latest_open_def split: list.splits)
  also have "\<dots> \<longleftrightarrow> set ?open = {}" by (metis set_empty set_order(2))
  finally show ?thesis by auto
qed

lemma affected_key:
  assumes "distinct (map key rows)" and "r \<in> set rows"
  shows "affected (\<lambda>x. Some (key x) = Some (key r)) rows = 1"
proof -
  have "filter (\<lambda>x. key x = k) rows = []" if "k \<notin> key ` set rows" for k rows
    using that by (auto simp: filter_empty_conv)
  then show ?thesis using assms by (induction rows) (auto simp: affected_def)
qed

text \<open>
  A focus event that is inserted and later ended is read back as it was written: the times
  at whole seconds, the duration the number of seconds between the two stored timestamps, not
  idle; and no other event changes.
\<close>

theorem focus_event_round_trip:
  assumes "store_inv (tables s)"
    and "InsertFocusEvent now app title start s = (Inr i, s1)"
    and "EndFocusEvent i stop s1 = (Inr (), s2)"
    and "GetFocusEvent i s2 = (r, s3)"
  shows "r \<in> {Inl (EDb ''scan focus event''),
             Inr \<lparr>ID = i, AppName = app, WindowTitle = title,
                  StartedAt = parse_rfc3339 (rfc3339 start),
                  EndedAt = Some (parse_rfc3339 (rfc3339 stop)),
                  DurationS = Some (rfc3339 stop - rfc3339 start),
                  IsIdle = False, CreatedAt = parse_rfc3339 (rfc3339 now)\<rparr>} \<and>
    (\<forall>j. j \<noteq> i \<longrightarrow>
      row_at fe_id j (focus_events (tables s2)) = row_at fe_id j (focus_events (tables s)))"
proof -
  let ?row = "\<lparr>fe_id = i, fe_app = app, fe_title = title, fe_started = rfc3339 start,
    fe_ended = None, fe_duration = None, fe_idle = False, fe_created = rfc3339 now\<rparr>"
  have i: "i = next_rowid (map fe_id (focus_events (tables s)))"
    and s1: "focus_events (tables s1) = focus_events (tables s) @ [?row]"
    using assms(2) by (auto simp: InsertFocusEvent_def Let_def dest!: stmt_ok)
  have s2: "focus_events (tables s2) =
      sql_update (\<lambda>r. fe_id r = i) (end_row (rfc3339 stop)) (focus_events (tables s1))"
    using assms(3) by (auto simp: EndFocusEvent_def dest!: stmt_ok)
  have at: "row_at fe_id i (focus_events (tables s1)) = Some ?row"
    using fresh_row_at [of fe_id "focus_events (tables s)"] i by (simp add: s1 row_at_snoc)
  have "row_at fe_id i (focus_events (tables s2)) = Some (end_row (rfc3339 stop) ?row)"
    unfolding s2 by (simp add: focus_end.row_at_update at)
  then have "r \<in> {Inl (EDb ''scan focus event''),
             Inr \<lparr>ID = i, AppName = app, WindowTitle = title,
                  StartedAt = parse_rfc3339 (rfc3339 start),
                  EndedAt = Some (parse_rfc3339 (rfc3339 stop)),
                  DurationS = Some (rfc3339 stop - rfc3339 start),
                  IsIdle = False, CreatedAt = parse_rfc3339 (rfc3339 now)\<rparr>}"
    using assms(4)
    by (auto simp: GetFocusEvent_def stmt_def Let_def scanFocusEvent_def end_row_def split: if_splits)
  moreover have "row_at fe_id j (focus_events (tables s2)) = row_at fe_id j (focus_events (tables s))" if "j \<noteq> i" for j
    using that unfolding s2 by (simp add: focus_end.row_at_update s1 row_at_snoc split: option.splits)
  ultimately show ?thesis by blast
qed


lemma focus_event_round_trip_witness:
  "fst (GetFocusEvent 1 (snd (EndFocusEvent 1 (95 * second)
      (snd (InsertFocusEvent 0 ''vim'' ''a.go'' (5 * second) (healthy empty_store))))))
     = Inr \<lparr>ID = 1, AppName = ''vim'', WindowTitle = ''a.go'', StartedAt = 5 * second,
          EndedAt = Some (95 * second), DurationS = Some 90, IsIdle = False, CreatedAt = 0\<rparr>"
proof -
  define s1 where "s1 = snd (InsertFocusEvent 0 ''vim'' ''a.go'' (5 * second) (healthy empty_store))"
  define s2 where "s2 = snd (EndFocusEvent 1 (95 * second) s1)"
  have 1: "InsertFocusEvent 0 ''vim'' ''a.go'' (5 * second) (healthy empty_store) = (Inr 1, s1)"
    by (simp add: s1_def InsertFocusEvent_def stmt_def empty_store_def Let_def next_rowid_def)
  have 2: "EndFocusEvent 1 (95 * second) s1 = (Inr (), s2)"
    by (simp add: s2_def s1_def EndFocusEvent_def InsertFocusEvent_def stmt_def Let_def)
  have 3: "fst (GetFocusEvent 1 s2) \<noteq> Inl e" for e
    by (simp add: s2_def s1_def GetFocusEvent_def EndFocusEvent_def InsertFocusEvent_def stmt_def
        empty_store_def Let_def next_rowid_def sql_update_def row_at_def)
  show ?thesis
    unfolding s1_def [symmetric] s2_def [symmetric]
    using focus_event_round_trip [OF _ 1 2, of "fst (GetFocusEvent 1 s2)" "snd (GetFocusEvent 1 s2)"] 3
    by (simp add: store_inv_empty rfc3339_def parse_rfc3339_def)
qed

text \<open>
  \<open>CloseLatestOpenFocusEvent\<close> reports 0 and changes nothing if no event is open;
  otherwise it reports 1 and ends exactly one event, the open one with the greatest id. Every
  other event, the other open ones included, stays as it is.
\<close>

theorem close_latest_open_exact:
  assumes "store_inv (tables s)"
    and "CloseLatestOpenFocusEvent jd now s = (Inr n, s')"
  shows "(n = 0 \<and> tables s' = tables s \<and> (\<forall>r \<in> set (focus_events (tables s)). fe_ended r \<noteq> None)) \<or>
    (n = 1 \<and> (\<exists>r \<in> set (focus_events (tables s)). fe_ended r = None \<and>
        (\<forall>q \<in> set (focus_events (tables s)). fe_ended q = None \<longrightarrow> fe_id q \<le> fe_id r) \<and>
        (\<forall>j. row_at fe_id j (focus_events (tables s')) =
          (if j = fe_id r then Some (close_row jd (rfc3339 now) r)
           else row_at fe_id j (focus_events (tables s))))))"
proof -
  let ?rows = "focus_events (tables s)"
  let ?p = "\<lambda>r. Some (fe_id r) = latest_open ?rows"
  have n: "n = affected ?p ?rows"
    and s': "tables s' = tables s\<lparr>focus_events := sql_update ?p (close_row jd (rfc3339 now)) ?rows\<rparr>"
    using assms(2) by (auto simp: CloseLatestOpenFocusEvent_def Let_def dest!: stmt_ok)
  show ?thesis
  proof (cases "latest_open ?rows")
    case None
    then have "n = 0" using n by (simp add: affected_def)
    moreover have "tables s' = tables s" using s' None by (simp add: sql_update_def)
    moreover have "\<forall>r \<in> set ?rows. fe_ended r \<noteq> None" using None by (simp only: latest_open_None)
    ultimately show ?thesis by blast
  next
    case (Some i)
    then obtain r where r: "r \<in> set ?rows" "fe_id r = i" "fe_ended r = None"
      using latest_open_Some(1) by blast
    have dist: "distinct (map fe_id ?rows)" using assms(1) by (simp add: store_inv_def store_wf_def)
    have "n = 1"
      using affected_key [OF dist r(1)] n Some r(2) by (simp add: affected_def eq_commute)
    moreover have "row_at fe_id j (focus_events (tables s')) =
        (if j = fe_id r then Some (close_row jd (rfc3339 now) r) else row_at fe_id j ?rows)" for j
      using row_at_distinct [OF dist r(1)] Some r(2) unfolding s'
      by (auto simp: focus_close.row_at_update_pred dest: row_at_Some
          intro!: option.map_ident_strong split: if_splits)
    ultimately show ?thesis
      using r latest_open_Some(2) [OF Some] by blast
  qed
qed

lemma close_latest_open_exact_witness:
  "\<exists>s s'. CloseLatestOpenFocusEvent (\<lambda>e s. e - s) (7 * second) s = (Inr 1, s') \<and>
     row_at fe_id 1 (focus_events (tables s')) \<noteq> row_at fe_id 1 (focus_events (tables s))"
proof -
  define s where "s = snd (InsertFocusEvent 0 ''vim'' ''a.go'' 0 (healthy empty_store))"
  define s' where "s' = snd (CloseLatestOpenFocusEvent (\<lambda>e s. e - s) (7 * second) s)"
  have "store_inv (tables s)"
    unfolding s_def by (rule keepsD [OF keeps_focus(1)]) (simp add: store_inv_empty)
  moreover have c: "CloseLatestOpenFocusEvent (\<lambda>e s. e - s) (7 * second) s = (Inr 1, s')"
    unfolding s'_def s_def
    by (simp add: CloseLatestOpenFocusEvent_def InsertFocusEvent_def stmt_def Let_def empty_store_def
        latest_open_def order_desc_def affected_def)
  moreover have "row_at fe_id 1 (focus_events (tables s)) \<noteq> None"
    by (simp add: s_def InsertFocusEvent_def stmt_def Let_def empty_store_def row_at_def next_rowid_def)
  ultimately show ?thesis
    using close_latest_open_exact [of s "\<lambda>e s. e - s" "7 * second" 1 s'] c
    by (intro exI [of _ s] exI [of _ s']) (auto simp: s_def InsertFocusEvent_def stmt_def Let_def
        empty_store_def next_rowid_def row_at_def close_row_def)
qed

end
