(* ===== verification/Cascade.thy ===== *)
theory Cascade
  imports Client_Store
begin

text \<open>
  The note cascade (\<^verbatim>\<open>internal/client/session/cascade.go\<close>): a tag put on an anchor event
  spreads outward in four steps of decaying radius to the events that are not yet submitted.
  \<open>Apply\<close> is the code with its database calls; \<open>spread\<close> is its specification, a function of
  the stored events alone.

  The code collects the tagged ids in a Go map and returns its keys in an unspecified order;
  here they are the list of the ids in the order they were tagged, and the theorems speak of
  its set.
\<close>

section \<open>The code\<close>

definition cascadeSteps :: "gotime list" where
  "cascadeSteps = [60 * minute, 30 * minute, 15 * minute, 450 * second]"

fun bounds_step :: "gotime \<times> gotime \<Rightarrow> FocusEvent \<Rightarrow> gotime \<times> gotime" where
  "bounds_step (minT, maxT) ev =
     (let minT' = (if StartedAt ev < minT then StartedAt ev else minT);
          e = (case EndedAt ev of None \<Rightarrow> StartedAt ev | Some t \<Rightarrow> t);
          maxT' = (if maxT < e then e else maxT)
      in (minT', maxT'))"

text \<open>The zero \<^verbatim>\<open>time.Time\<close> the code returns for no event is the instant 0 here.\<close>

fun frontierBounds :: "FocusEvent list \<Rightarrow> gotime \<times> gotime" where
  "frontierBounds [] = (0, 0)"
| "frontierBounds (ev # evs) =
     (let (minT, maxT) = foldl bounds_step (StartedAt ev, StartedAt ev) evs
      in (minT, (case EndedAt ev of
                   None \<Rightarrow> maxT
                 | Some e \<Rightarrow> if maxT < e then e else maxT)))"

definition tagEvent :: "rowid \<Rightarrow> rowid \<Rightarrow> rowid \<Rightarrow> unit client" where
  "tagEvent e t anchor = ApplyTagToEvent e t CascadeSource (Some anchor)"

text \<open>The inner loop, over the candidates of one step.\<close>

fun cascade_candidates :: "rowid \<Rightarrow> rowid \<Rightarrow> FocusEvent list \<Rightarrow> rowid list \<Rightarrow> FocusEvent list \<Rightarrow>
    (rowid list \<times> FocusEvent list) client" where
  "cascade_candidates anchor t [] tagged newFrontier = ret (tagged, newFrontier)"
| "cascade_candidates anchor t (ev # evs) tagged newFrontier =
     (if ID ev \<in> set tagged then cascade_candidates anchor t evs tagged newFrontier
      else bindM (IsEventSubmitted (ID ev)) (\<lambda>sub.
        if sub then cascade_candidates anchor t evs tagged newFrontier
        else bindM (tagEvent (ID ev) t anchor) (\<lambda>_.
          cascade_candidates anchor t evs (tagged @ [ID ev]) (newFrontier @ [ev]))))"

fun cascade_steps :: "rowid \<Rightarrow> rowid \<Rightarrow> gotime list \<Rightarrow> rowid list \<Rightarrow> FocusEvent list \<Rightarrow>
    rowid list client" where
  "cascade_steps anchor t [] tagged frontier = ret tagged"
| "cascade_steps anchor t (radius # rs) tagged frontier =
     (if frontier = [] then ret tagged
      else let (minT, maxT) = frontierBounds frontier in
        bindM (ListFocusEvents (minT - radius) (maxT + radius)) (\<lambda>candidates.
        bindM (cascade_candidates anchor t candidates tagged []) (\<lambda>(tagged', newFrontier).
        cascade_steps anchor t rs tagged' newFrontier)))"

definition Apply :: "rowid \<Rightarrow> rowid \<Rightarrow> rowid list client" where
  "Apply anchor t =
     bindM (GetFocusEvent anchor) (\<lambda>ev.
     bindM (ApplyTagToEvent anchor t Manual None) (\<lambda>_.
     cascade_steps anchor t cascadeSteps [anchor] [ev]))"

section \<open>What a cascade may change\<close>

text \<open>
  \<open>cascaded a t d d'\<close>: \<open>d'\<close> is \<open>d\<close> with tag rows for \<open>t\<close> appended, one kind for the anchor and
  one for unsubmitted events of the store.
\<close>

definition cascade_row :: "rowid \<Rightarrow> rowid \<Rightarrow> client_tables \<Rightarrow> event_tag_row \<Rightarrow> bool" where
  "cascade_row a t d r =
     (et_tag r = t \<and>
      (if et_event r = a then et_source r = Manual \<and> et_cascade_from r = None
       else et_source r = CascadeSource \<and> et_cascade_from r = Some a \<and>
            \<not> submitted d (et_event r) \<and> has_event d (et_event r)))"

definition cascaded :: "rowid \<Rightarrow> rowid \<Rightarrow> client_tables \<Rightarrow> client_tables \<Rightarrow> bool" where
  "cascaded a t d d' =
     (\<exists>new. d' = d\<lparr>event_tags := event_tags d @ new\<rparr> \<and> list_all (cascade_row a t d) new)"

lemma cascaded_refl [simp]: "cascaded a t d d"
  by (auto simp: cascaded_def intro: exI [of _ "[]"])

lemma cascaded_frame:
  assumes "cascaded a t d d'"
  shows "focus_events d' = focus_events d" "submission_events d' = submission_events d"
    "submitted d' e = submitted d e" "has_event d' e = has_event d e"
  using assms by (auto simp: cascaded_def submitted_def has_event_def)

lemma cascade_row_frame: "cascaded a t d d' \<Longrightarrow> cascade_row a t d' r = cascade_row a t d r"
  by (simp add: cascade_row_def cascaded_frame)

lemma cascaded_trans: "cascaded a t d d' \<Longrightarrow> cascaded a t d' d'' \<Longrightarrow> cascaded a t d d''"
proof -
  assume 1: "cascaded a t d d'" and 2: "cascaded a t d' d''"
  from 1 obtain n where n: "d' = d\<lparr>event_tags := event_tags d @ n\<rparr>" "list_all (cascade_row a t d) n"
    by (auto simp: cascaded_def)
  from 2 obtain m where m: "d'' = d'\<lparr>event_tags := event_tags d' @ m\<rparr>" "list_all (cascade_row a t d') m"
    by (auto simp: cascaded_def)
  have "list_all (cascade_row a t d) m"
    using m(2) by (simp add: cascade_row_frame [OF 1] list_all_iff)
  then show ?thesis using n m(1) unfolding cascaded_def by (intro exI [of _ "n @ m"]) simp
qed

lemma cascaded_tag:
  assumes "cascaded a t d (tables s)"
    and "cascade_row a t d \<lparr>et_event = e, et_tag = t, et_source = src, et_cascade_from = c\<rparr>"
  shows "wp (ApplyTagToEvent e t src c) (\<lambda>_ s'. cascaded a t d (tables s'))
           (\<lambda>_ s'. cascaded a t d (tables s')) s"
proof -
  have "cascaded a t d (tables s\<lparr>event_tags := event_tags (tables s) @
      [\<lparr>et_event = e, et_tag = t, et_source = src, et_cascade_from = c\<rparr>]\<rparr>)"
  proof -
    let ?r = "\<lparr>et_event = e, et_tag = t, et_source = src, et_cascade_from = c\<rparr>"
    obtain new where "tables s = d\<lparr>event_tags := event_tags d @ new\<rparr>" "list_all (cascade_row a t d) new"
      using assms(1) by (auto simp: cascaded_def)
    then show ?thesis
      using assms(2) unfolding cascaded_def by (intro exI [of _ "new @ [?r]"]) simp
  qed
  then show ?thesis using assms(1) by (simp add: ApplyTagToEvent_def wp_stmt)
qed

lemma cascaded_candidates:
  assumes "cascaded a t d (tables s)" and "a \<in> set T" and "\<forall>ev \<in> set cands. has_event d (ID ev)"
  shows "wp (cascade_candidates a t cands T N) (\<lambda>(T', _) s'. cascaded a t d (tables s') \<and> a \<in> set T')
           (\<lambda>_ s'. cascaded a t d (tables s')) s"
  using assms
proof (induction cands arbitrary: T N s)
  case Nil
  then show ?case by (simp add: wp_ret)
next
  case (Cons ev cands)
  show ?case
  proof (cases "ID ev \<in> set T")
    case True
    then show ?thesis using Cons by simp
  next
    case False
    have tag: "wp (tagEvent (ID ev) t a)
        (\<lambda>_. wp (cascade_candidates a t cands (T @ [ID ev]) (N @ [ev]))
           (\<lambda>(T', _) s'. cascaded a t d (tables s') \<and> a \<in> set T') (\<lambda>_ s'. cascaded a t d (tables s')))
        (\<lambda>_ s'. cascaded a t d (tables s')) s'"
      if "cascaded a t d (tables s')" "\<not> submitted d (ID ev)" for s'
      unfolding tagEvent_def
      using that False Cons.prems Cons.IH
      by (intro wp_mono [OF cascaded_tag [OF that(1)]])
        (auto simp: cascade_row_def)
    show ?thesis
      using False Cons.prems tag Cons.IH
      by (simp add: wp_bindM IsEventSubmitted_def wp_query cascaded_frame)
  qed
qed

lemma listed_events: "ev \<in> set (map scanFocusEvent (order_asc fe_started (filter p (focus_events d))))
    \<Longrightarrow> has_event d (ID ev)"
  by (auto simp: has_event_def scanFocusEvent_def set_order)

lemma cascaded_steps:
  assumes "cascaded a t d (tables s)" and "a \<in> set T"
  shows "wp (cascade_steps a t rs T F) (\<lambda>_ s'. cascaded a t d (tables s'))
           (\<lambda>_ s'. cascaded a t d (tables s')) s"
  using assms
proof (induction rs arbitrary: T F s)
  case Nil
  then show ?case by (simp add: wp_ret)
next
  case (Cons r rs)
  obtain lo hi where b: "frontierBounds F = (lo, hi)" by fastforce
  have step: "wp (cascade_candidates a t cands T [])
      (\<lambda>(T', N). wp (cascade_steps a t rs T' N) (\<lambda>_ s'. cascaded a t d (tables s'))
         (\<lambda>_ s'. cascaded a t d (tables s'))) (\<lambda>_ s'. cascaded a t d (tables s')) s'"
    if "cascaded a t d (tables s')" "\<forall>ev \<in> set cands. has_event d (ID ev)" for cands s'
    using that Cons by (intro wp_mono [OF cascaded_candidates [OF that(1) _ that(2)]]) auto
  let ?cands = "\<lambda>s. map scanFocusEvent (order_asc fe_started
      (filter (\<lambda>x. rfc3339 (lo - r) \<le> fe_started x \<and> fe_started x \<le> rfc3339 (hi + r)) (focus_events s)))"
  have "\<forall>ev \<in> set (?cands d). has_event d (ID ev)" using listed_events by blast
  then show ?case
    using Cons.prems step [of "s\<lparr>ticks := Suc (ticks s)\<rparr>" "?cands d"]
    by (simp add: b wp_ret wp_bindM ListFocusEvents_def wp_query wp_case_prod cascaded_frame del: set_map)
qed

lemma cascaded_Apply:
  "wp (Apply a t) (\<lambda>_ s'. cascaded a t (tables s) (tables s'))
     (\<lambda>_ s'. cascaded a t (tables s) (tables s')) s"
proof -
  have "wp (ApplyTagToEvent a t Manual None)
     (\<lambda>_. wp (cascade_steps a t rs [a] [ev]) (\<lambda>_ s'. cascaded a t (tables s) (tables s'))
        (\<lambda>_ s'. cascaded a t (tables s) (tables s')))
     (\<lambda>_ s'. cascaded a t (tables s) (tables s')) s'"
    if "tables s' = tables s" for s' rs ev
    using that by (intro wp_mono [OF cascaded_tag] cascaded_steps) (auto simp: cascade_row_def)
  then show ?thesis
    by (simp add: Apply_def wp_bindM GetFocusEvent_def wp_stmt split: option.split)
qed


section \<open>The specification: a function of the stored events\<close>

definition end_of :: "FocusEvent \<Rightarrow> gotime" where
  "end_of ev = (case EndedAt ev of None \<Rightarrow> StartedAt ev | Some t \<Rightarrow> t)"

definition reached :: "client_tables \<Rightarrow> gotime \<Rightarrow> rowid set \<Rightarrow> FocusEvent set \<Rightarrow> FocusEvent set" where
  "reached d radius T F =
     {ev \<in> scanFocusEvent ` set (focus_events d).
        Min (StartedAt ` F) - radius \<le> StartedAt ev \<and> StartedAt ev \<le> Max (end_of ` F) + radius \<and>
        ID ev \<notin> T \<and> \<not> submitted d (ID ev)}"

fun spread :: "client_tables \<Rightarrow> gotime list \<Rightarrow> rowid set \<Rightarrow> FocusEvent set \<Rightarrow> rowid set" where
  "spread d [] T F = T"
| "spread d (radius # rs) T F =
     (if F = {} then T
      else let N = reached d radius T F in spread d rs (T \<union> ID ` N) N)"

lemma spread_extends: "T \<subseteq> spread d rs T F"
  by (induction rs arbitrary: T F) (auto simp: Let_def, blast)

definition times_ok :: "client_tables \<Rightarrow> bool" where
  "times_ok d = (\<forall>r \<in> set (focus_events d). \<forall>e. fe_ended r = Some e \<longrightarrow> fe_started r \<le> e)"

lemma scan_simps [simp]:
  "ID (scanFocusEvent r) = fe_id r" "StartedAt (scanFocusEvent r) = parse_rfc3339 (fe_started r)"
  by (simp_all add: scanFocusEvent_def)

lemma times_ok_scan:
  "times_ok d \<Longrightarrow> ev \<in> scanFocusEvent ` set (focus_events d) \<Longrightarrow> StartedAt ev \<le> end_of ev"
  by (auto simp: times_ok_def end_of_def scanFocusEvent_def split: option.splits)

lemma bounds_fold:
  "foldl bounds_step (a, b) evs =
     (Min (insert a (StartedAt ` set evs)), Max (insert b (end_of ` set evs)))"
proof (induction evs arbitrary: a b)
  case Nil
  then show ?case by simp
next
  case (Cons ev evs)
  have "bounds_step (a, b) ev = (min a (StartedAt ev), max b (end_of ev))"
    by (simp add: end_of_def Let_def min_def max_def)
  moreover have "Min (insert (min a (StartedAt ev)) X) = Min (insert a (insert (StartedAt ev) X))"
    if "finite X" for X
    using that by (cases "X = {}") (simp_all add: min.assoc)
  moreover have "Max (insert (max b (end_of ev)) X) = Max (insert b (insert (end_of ev) X))"
    if "finite X" for X
    using that by (cases "X = {}") (simp_all add: max.assoc)
  ultimately show ?case using Cons.IH by simp
qed

lemma frontierBounds_spec:
  assumes "F \<noteq> []" and "StartedAt (hd F) \<le> end_of (hd F)"
  shows "frontierBounds F = (Min (StartedAt ` set F), Max (end_of ` set F))"
proof (cases F)
  case Nil
  with assms show ?thesis by simp
next
  case (Cons ev evs)
  let ?X = "end_of ` set evs"
  have le: "StartedAt ev \<le> end_of ev" using assms Cons by simp
  have "(case EndedAt ev of None \<Rightarrow> m | Some e \<Rightarrow> if m < e then e else m) = max m (end_of ev)"
    if "StartedAt ev \<le> m" for m
    using that by (auto simp: end_of_def max_def split: option.splits)
  moreover have "StartedAt ev \<le> Max (insert (StartedAt ev) ?X)" by simp
  moreover have "max (Max (insert (StartedAt ev) ?X)) (end_of ev) = Max (insert (end_of ev) ?X)"
  proof -
    have "max (max a m) b = max b m" if "a \<le> b" for a b m :: int
      using that by (auto simp: max_def)
    then show ?thesis using le by (cases "?X = {}") (simp_all add: max.absorb2)
  qed
  ultimately show ?thesis using Cons by (simp add: bounds_fold)
qed

text \<open>A window of whole seconds selects the same rows in text as in time.\<close>

definition whole :: "gotime \<Rightarrow> bool" where
  "whole t = (second dvd t)"

lemma whole_rfc3339: "whole t \<Longrightarrow> parse_rfc3339 (rfc3339 t) = t"
  by (simp add: whole_def rfc3339_def parse_rfc3339_def)

lemma whole_bounds:
  assumes "whole lo" "whole hi"
  shows "rfc3339 lo \<le> k \<and> k \<le> rfc3339 hi \<longleftrightarrow> lo \<le> parse_rfc3339 k \<and> parse_rfc3339 k \<le> hi"
  using assms by (metis parse_rfc3339_le_iff whole_rfc3339)

lemma whole_scan:
  assumes "F \<subseteq> scanFocusEvent ` rows" "F \<noteq> {}" "finite F" "whole r"
  shows "whole (Min (StartedAt ` F) - r)" "whole (Max (end_of ` F) + r)"
proof -
  have *: "whole (StartedAt ev)" "whole (end_of ev)" if "ev \<in> F" for ev
  proof -
    obtain r where "ev = scanFocusEvent r" using assms(1) \<open>ev \<in> F\<close> by blast
    then show "whole (StartedAt ev)" "whole (end_of ev)"
      by (auto simp: whole_def end_of_def parse_rfc3339_def scanFocusEvent_def split: option.splits)
  qed
  have "Min (StartedAt ` F) \<in> StartedAt ` F" "Max (end_of ` F) \<in> end_of ` F"
    using assms by (intro Min_in Max_in; simp)+
  then show "whole (Min (StartedAt ` F) - r)" "whole (Max (end_of ` F) + r)"
    using * assms(4) unfolding whole_def by (auto intro: dvd_diff dvd_add)
qed

subsection \<open>The code meets it\<close>

definition tagged_with :: "rowid \<Rightarrow> event_tag_row list \<Rightarrow> rowid set" where
  "tagged_with t ets = et_event ` {r \<in> set ets. et_tag r = t}"

lemma tagged_with_Nil [simp]: "tagged_with t [] = {}"
  by (simp add: tagged_with_def)

lemma tagged_with_Cons [simp]: "tagged_with t (r # ets) =
    (if et_tag r = t then insert (et_event r) (tagged_with t ets) else tagged_with t ets)"
  by (auto simp: tagged_with_def)

lemma tagged_with_append [simp]: "tagged_with t (xs @ ys) = tagged_with t xs \<union> tagged_with t ys"
  by (auto simp: tagged_with_def)

lemma healthy_tag:
  assumes "no_fault s" "tables s = d\<lparr>event_tags := ets\<rparr>" "has_event d e" "has_tag d t"
  shows "wp (ApplyTagToEvent e t src c)
     (\<lambda>_ s'. no_fault s' \<and> (\<exists>ets'. tables s' = d\<lparr>event_tags := ets'\<rparr> \<and>
        tagged_with t ets' = insert e (tagged_with t ets))) (\<lambda>_ _. False) s"
proof (cases "\<exists>r \<in> set ets. et_event r = e \<and> et_tag r = t")
  case True
  then have "tagged_with t ets = insert e (tagged_with t ets)" by (auto simp: tagged_with_def)
  with True assms show ?thesis by (auto simp: ApplyTagToEvent_def wp_stmt intro!: exI [of _ ets])
next
  case False
  let ?ets = "ets @ [\<lparr>et_event = e, et_tag = t, et_source = src, et_cascade_from = c\<rparr>]"
  have "tagged_with t ?ets = insert e (tagged_with t ets)" by simp
  with False assms show ?thesis
    by (auto simp: ApplyTagToEvent_def wp_stmt fk_ok_def has_event_def has_tag_def intro!: exI [of _ ?ets])
qed

definition fresh :: "client_tables \<Rightarrow> rowid set \<Rightarrow> FocusEvent list \<Rightarrow> FocusEvent list" where
  "fresh d T cands = filter (\<lambda>ev. ID ev \<notin> T \<and> \<not> submitted d (ID ev)) cands"

definition tagged_by :: "client_tables \<Rightarrow> rowid \<Rightarrow> rowid set \<Rightarrow> client_tables db \<Rightarrow> bool" where
  "tagged_by d t X s = (no_fault s \<and> (\<exists>ets. tables s = d\<lparr>event_tags := ets\<rparr> \<and> tagged_with t ets = X))"

lemma healthy_candidates:
  assumes "tagged_by d t X s" "has_tag d t"
    and "distinct (map ID cands)" and "\<forall>ev \<in> set cands. has_event d (ID ev)"
  shows "wp (cascade_candidates a t cands T F)
     (\<lambda>p s'. p = (T @ map ID (fresh d (set T) cands), F @ fresh d (set T) cands) \<and>
        tagged_by d t (X \<union> ID ` set (fresh d (set T) cands)) s') (\<lambda>_ _. False) s"
  using assms
proof (induction cands arbitrary: T F s X)
  case Nil
  then show ?case by (simp add: wp_ret fresh_def)
next
  case (Cons ev cands)
  show ?case
  proof (cases "ID ev \<in> set T")
    case True
    then show ?thesis using Cons by (simp add: fresh_def)
  next
    case False
    have new: "fresh d (set (T @ [ID ev])) cands = fresh d (set T) cands"
      unfolding fresh_def
    proof (intro filter_cong refl)
      fix x assume "x \<in> set cands"
      then have "ID x \<in> ID ` set cands" by (rule imageI)
      then show "(ID x \<notin> set (T @ [ID ev]) \<and> \<not> submitted d (ID x)) =
          (ID x \<notin> set T \<and> \<not> submitted d (ID x))"
        using Cons.prems(3) by auto
    qed
    obtain ets where ets: "no_fault s" "tables s = d\<lparr>event_tags := ets\<rparr>" "tagged_with t ets = X"
      using Cons.prems(1) by (auto simp: tagged_by_def)
    let ?s = "s\<lparr>ticks := Suc (ticks s)\<rparr>"
    let ?Q = "\<lambda>p s'. p = (T @ map ID (fresh d (set T) (ev # cands)), F @ fresh d (set T) (ev # cands)) \<and>
        tagged_by d t (X \<union> ID ` set (fresh d (set T) (ev # cands))) s'"
    have "wp (tagEvent (ID ev) t a)
        (\<lambda>_. wp (cascade_candidates a t cands (T @ [ID ev]) (F @ [ev])) ?Q (\<lambda>_ _. False))
        (\<lambda>_ _. False) ?s" if "\<not> submitted d (ID ev)"
      unfolding tagEvent_def
    proof (rule wp_mono [OF healthy_tag [where s = ?s and d = d and ets = ets]])
      fix x :: unit and s2 :: "client_tables db"
      assume "no_fault s2 \<and> (\<exists>ets'. tables s2 = d\<lparr>event_tags := ets'\<rparr> \<and>
          tagged_with t ets' = insert (ID ev) (tagged_with t ets))"
      then have s2: "tagged_by d t (insert (ID ev) X) s2"
        using ets by (auto simp: tagged_by_def)
      have cons: "fresh d (set T) (ev # cands) = ev # fresh d (set T) cands"
        using False that by (simp add: fresh_def)
      show "wp (cascade_candidates a t cands (T @ [ID ev]) (F @ [ev])) ?Q (\<lambda>_ _. False) s2"
        by (rule wp_mono [OF Cons.IH [OF s2]])
          (use Cons.prems in \<open>auto simp: new [simplified] cons\<close>)
    qed (use Cons.prems ets in auto)
    moreover have "wp (cascade_candidates a t cands T F) ?Q (\<lambda>_ _. False) ?s"
      if "submitted d (ID ev)"
      by (rule wp_mono [OF Cons.IH [of X]])
        (use Cons.prems that ets in \<open>auto simp: fresh_def tagged_by_def\<close>)
    ultimately show ?thesis
      using False ets by (simp add: wp_bindM IsEventSubmitted_def wp_query submitted_def)
  qed
qed

definition listed :: "client_tables \<Rightarrow> gotime \<Rightarrow> gotime \<Rightarrow> FocusEvent list" where
  "listed d lo hi = map scanFocusEvent (order_asc fe_started
     (filter (\<lambda>r. rfc3339 lo \<le> fe_started r \<and> fe_started r \<le> rfc3339 hi) (focus_events d)))"

lemma set_listed: "whole lo \<Longrightarrow> whole hi \<Longrightarrow> set (listed d lo hi) =
    {ev \<in> scanFocusEvent ` set (focus_events d). lo \<le> StartedAt ev \<and> StartedAt ev \<le> hi}"
  by (auto simp: listed_def set_order whole_bounds)

lemma distinct_listed:
  assumes "store_inv d"
  shows "distinct (map ID (listed d lo hi))"
proof -
  have "distinct (map fe_id (filter p (focus_events d)))" for p
    using assms by (auto simp: store_inv_def store_wf_def intro: distinct_map_filter)
  moreover have "map ID (listed d lo hi) = map fe_id (order_asc fe_started
      (filter (\<lambda>r. rfc3339 lo \<le> fe_started r \<and> fe_started r \<le> rfc3339 hi) (focus_events d)))"
    by (simp add: listed_def comp_def)
  ultimately show ?thesis by (simp only: distinct_map_order)
qed

lemma healthy_steps:
  assumes "tagged_by d t X s" "has_tag d t" "store_inv d" "times_ok d"
    and "set F \<subseteq> scanFocusEvent ` set (focus_events d)" "list_all whole rs"
    and "distinct T" "set T \<subseteq> X"
  shows "wp (cascade_steps a t rs T F)
     (\<lambda>T' s'. distinct T' \<and> set T' = spread d rs (set T) (set F) \<and> tagged_by d t (X \<union> set T') s')
     (\<lambda>_ _. False) s"
  using assms
proof (induction rs arbitrary: T F s X)
  case Nil
  then show ?case by (auto simp: wp_ret Un_absorb2)
next
  case (Cons r rs)
  let ?Q = "\<lambda>T' s'. distinct T' \<and> set T' = spread d (r # rs) (set T) (set F) \<and>
      tagged_by d t (X \<union> set T') s'"
  show ?case
  proof (cases "F = []")
    case True
    then show ?thesis using Cons.prems by (auto simp: wp_ret Un_absorb2)
  next
    case False
    define lo where "lo = Min (StartedAt ` set F)"
    define hi where "hi = Max (end_of ` set F)"
    define N where "N = fresh d (set T) (listed d (lo - r) (hi + r))"
    let ?s = "s\<lparr>ticks := Suc (ticks s)\<rparr>"
    have hd: "hd F \<in> scanFocusEvent ` set (focus_events d)"
      by (rule subsetD [OF Cons.prems(5)]) (simp add: False)
    have bounds: "frontierBounds F = (lo, hi)"
      using frontierBounds_spec [OF False times_ok_scan [OF Cons.prems(4) hd]]
      by (simp add: lo_def hi_def)
    have wh: "whole (lo - r)" "whole (hi + r)"
      using whole_scan [OF Cons.prems(5)] False Cons.prems(6) by (auto simp: lo_def hi_def)
    have set_N: "set N = reached d r (set T) (set F)"
      using set_listed [OF wh]
      by (auto simp: N_def fresh_def reached_def simp flip: lo_def hi_def)
    have dist: "distinct (T @ map ID N)"
      using distinct_listed [OF Cons.prems(3)] Cons.prems(7)
      by (auto simp: N_def fresh_def distinct_map_filter)
    have ets: "no_fault s" "focus_events (tables s) = focus_events d" "tagged_by d t X ?s"
      using Cons.prems(1) by (auto simp: tagged_by_def)
    have "wp (cascade_candidates a t (listed d (lo - r) (hi + r)) T [])
        (\<lambda>(T', F'). wp (cascade_steps a t rs T' F') ?Q (\<lambda>_ _. False)) (\<lambda>_ _. False) ?s"
    proof (rule wp_mono [OF healthy_candidates [OF ets(3) Cons.prems(2) distinct_listed [OF Cons.prems(3)]]])
      show "\<forall>ev \<in> set (listed d (lo - r) (hi + r)). has_event d (ID ev)"
        unfolding listed_def using listed_events by blast
      fix p :: "rowid list \<times> FocusEvent list" and s2 :: "client_tables db"
      assume "p = (T @ map ID (fresh d (set T) (listed d (lo - r) (hi + r))),
          [] @ fresh d (set T) (listed d (lo - r) (hi + r))) \<and>
        tagged_by d t (X \<union> ID ` set (fresh d (set T) (listed d (lo - r) (hi + r)))) s2"
      then have p: "p = (T @ map ID N, N)" and s2: "tagged_by d t (X \<union> ID ` set N) s2"
        by (simp_all add: N_def)
      have "wp (cascade_steps a t rs (T @ map ID N) N) ?Q (\<lambda>_ _. False) s2"
      proof (rule wp_mono [OF Cons.IH [OF s2 Cons.prems(2-4) _ _ dist]])
        show "set N \<subseteq> scanFocusEvent ` set (focus_events d)" by (auto simp: set_N reached_def)
        show "list_all whole rs" using Cons.prems(6) by simp
        show "set (T @ map ID N) \<subseteq> X \<union> ID ` set N" using Cons.prems(8) by auto
        fix T' :: "rowid list" and s3 :: "client_tables db"
        assume *: "distinct T' \<and> set T' = spread d rs (set (T @ map ID N)) (set N) \<and>
          tagged_by d t (X \<union> ID ` set N \<union> set T') s3"
        have "ID ` set N \<subseteq> spread d rs (set (T @ map ID N)) (set N)"
          using spread_extends by force
        then have eq: "X \<union> ID ` set N \<union> set T' = X \<union> set T'" using * by blast
        have "tagged_by d t (X \<union> ID ` set N \<union> set T') s3" using * by blast
        then have "tagged_by d t (X \<union> set T') s3" by (simp only: eq)
        with * False show "?Q T' s3" by (simp add: set_N [symmetric] Let_def)
      qed
      then show "(case p of (T', F') \<Rightarrow> wp (cascade_steps a t rs T' F') ?Q (\<lambda>_ _. False)) s2"
        by (simp add: p)
    qed simp
    then show ?thesis
      using False ets
      by (simp add: wp_bindM wp_case_prod bounds ListFocusEvents_def wp_query listed_def)
  qed
qed


lemma whole_steps: "list_all whole cascadeSteps"
  by (simp add: whole_def cascadeSteps_def minute_def)

lemma healthy_Apply:
  assumes "no_fault s" "store_inv (tables s)" "times_ok (tables s)"
    and "row_at fe_id a (focus_events (tables s)) = Some r" "has_tag (tables s) t"
  shows "wp (Apply a t)
     (\<lambda>T' s'. distinct T' \<and> set T' = spread (tables s) cascadeSteps {a} {scanFocusEvent r} \<and>
        tagged_with t (event_tags (tables s')) = tagged_with t (event_tags (tables s)) \<union> set T')
     (\<lambda>_ _. False) s"
proof -
  let ?d = "tables s" and ?s = "s\<lparr>ticks := Suc (ticks s)\<rparr>"
  have r: "r \<in> set (focus_events ?d)" "fe_id r = a"
    using row_at_Some [OF assms(4)] by auto
  have "wp (ApplyTagToEvent a t Manual None)
      (\<lambda>_. wp (cascade_steps a t cascadeSteps [a] [scanFocusEvent r])
        (\<lambda>T' s'. distinct T' \<and> set T' = spread ?d cascadeSteps {a} {scanFocusEvent r} \<and>
        tagged_with t (event_tags (tables s')) = tagged_with t (event_tags ?d) \<union> set T')
        (\<lambda>_ _. False)) (\<lambda>_ _. False) ?s"
  proof (rule wp_mono [OF healthy_tag [where s = ?s and d = ?d and ets = "event_tags ?d"]])
    fix x :: unit and s2 :: "client_tables db"
    assume "no_fault s2 \<and> (\<exists>ets'. tables s2 = ?d\<lparr>event_tags := ets'\<rparr> \<and>
        tagged_with t ets' = insert a (tagged_with t (event_tags ?d)))"
    then have s2: "tagged_by ?d t (insert a (tagged_with t (event_tags ?d))) s2"
      by (auto simp: tagged_by_def)
    show "wp (cascade_steps a t cascadeSteps [a] [scanFocusEvent r])
        (\<lambda>T' s'. distinct T' \<and> set T' = spread ?d cascadeSteps {a} {scanFocusEvent r} \<and>
        tagged_with t (event_tags (tables s')) = tagged_with t (event_tags ?d) \<union> set T')
        (\<lambda>_ _. False) s2"
    proof (rule wp_mono [OF healthy_steps [OF s2 assms(5,2,3) _ whole_steps]])
      fix T' and s3 :: "client_tables db"
      assume *: "distinct T' \<and> set T' = spread ?d cascadeSteps (set [a]) (set [scanFocusEvent r]) \<and>
        tagged_by ?d t (insert a (tagged_with t (event_tags ?d)) \<union> set T') s3"
      have "a \<in> spread ?d cascadeSteps (set [a]) (set [scanFocusEvent r])"
        using spread_extends [of "{a}"] by simp
      then show "distinct T' \<and> set T' = spread ?d cascadeSteps {a} {scanFocusEvent r} \<and>
        tagged_with t (event_tags (tables s3)) = tagged_with t (event_tags ?d) \<union> set T'"
        using * by (auto simp: tagged_by_def)
    qed (use r in auto)
  qed (use assms r in \<open>auto simp: has_event_def\<close>)
  then show ?thesis
    using assms(1,4) by (simp add: Apply_def wp_bindM GetFocusEvent_def wp_stmt)
qed

subsection \<open>How far it reaches\<close>

lemma spread_subset:
  assumes "e \<in> spread d rs T F" "e \<notin> T"
  shows "\<exists>ev \<in> scanFocusEvent ` set (focus_events d). ID ev = e \<and> \<not> submitted d e"
  using assms
proof (induction rs arbitrary: T F)
  case (Cons r rs)
  let ?N = "reached d r T F"
  show ?case
  proof (cases "e \<in> ID ` ?N")
    case True
    then show ?thesis by (auto simp: reached_def)
  next
    case False
    with Cons show ?thesis by (auto simp: Let_def split: if_splits)
  qed
qed simp

text \<open>
  With events that last at most \<open>w\<close>, each step moves the frontier by at most its radius to the
  left and its radius plus \<open>w\<close> to the right.
\<close>

lemma spread_window:
  assumes "e \<in> spread d rs T F" "e \<notin> T" "finite F"
    and "\<forall>ev \<in> F. lo \<le> StartedAt ev \<and> end_of ev \<le> hi"
    and "\<forall>ev \<in> scanFocusEvent ` set (focus_events d). end_of ev \<le> StartedAt ev + w"
    and "0 \<le> w" "\<forall>r \<in> set rs. 0 \<le> r"
  shows "\<exists>ev \<in> scanFocusEvent ` set (focus_events d). ID ev = e \<and>
     lo - sum_list rs \<le> StartedAt ev \<and> StartedAt ev \<le> hi + sum_list rs + int (length rs) * w"
  using assms
proof (induction rs arbitrary: T F lo hi)
  case (Cons r rs)
  let ?N = "reached d r T F"
  have ne: "F \<noteq> {}" using Cons.prems by auto
  have "Min (StartedAt ` F) \<in> StartedAt ` F" "Max (end_of ` F) \<in> end_of ` F"
    using ne Cons.prems(3) by (intro Min_in Max_in; simp)+
  then have "lo \<le> Min (StartedAt ` F)" "Max (end_of ` F) \<le> hi"
    using Cons.prems(4) by auto
  then have N: "\<forall>ev \<in> ?N. lo - r \<le> StartedAt ev \<and> StartedAt ev \<le> hi + r"
    by (auto simp: reached_def)
  have sub: "?N \<subseteq> scanFocusEvent ` set (focus_events d)" by (auto simp: reached_def)
  have nonneg: "0 \<le> sum_list rs" "0 \<le> int (length rs) * w"
    using Cons.prems(6,7) by (auto intro: sum_list_nonneg)
  show ?case
  proof (cases "e \<in> ID ` ?N")
    case True
    then obtain ev where ev: "ev \<in> ?N" "ID ev = e" by auto
    moreover have "lo - sum_list (r # rs) \<le> StartedAt ev"
      using N ev nonneg Cons.prems(7) by fastforce
    moreover have "StartedAt ev \<le> hi + r" using N ev by blast
    then have "StartedAt ev \<le> hi + sum_list (r # rs) + int (length (r # rs)) * w"
    proof -
      have "int (length (r # rs)) * w = w + int (length rs) * w" by (simp add: distrib_right)
      then show ?thesis
        using \<open>StartedAt ev \<le> hi + r\<close> nonneg Cons.prems(6) unfolding sum_list.Cons by linarith
    qed
    ultimately show ?thesis using sub by blast
  next
    case False
    have "e \<in> spread d rs (T \<union> ID ` ?N) ?N"
      using Cons.prems(1) ne by (simp add: Let_def)
    moreover have "\<forall>ev \<in> ?N. lo - r \<le> StartedAt ev \<and> end_of ev \<le> hi + r + w"
      using N Cons.prems(5) sub by fastforce
    moreover have "finite ?N" by (rule finite_subset [OF sub]) simp
    ultimately have "\<exists>ev \<in> scanFocusEvent ` set (focus_events d). ID ev = e \<and>
       lo - r - sum_list rs \<le> StartedAt ev \<and>
       StartedAt ev \<le> hi + r + w + sum_list rs + int (length rs) * w"
      using Cons.prems(2,5,6,7) False
      by (intro Cons.IH [of "T \<union> ID ` ?N" ?N "lo - r" "hi + r + w"]) auto
    then show ?thesis by (simp add: algebra_simps)
  qed
qed simp


section \<open>Properties\<close>

text \<open>
  C3: Whatever fails, and whether or not it returns an error, a cascade only appends rows to
  the event tags, all for its tag; the row of the anchor is manual, every other row is marked
  as a cascade from the anchor and belongs to an existing event that is not submitted.
\<close>

theorem cascade_safe:
  "\<exists>new. tables (snd (Apply a t s)) = tables s\<lparr>event_tags := event_tags (tables s) @ new\<rparr> \<and>
     list_all (\<lambda>r. et_tag r = t \<and>
       (if et_event r = a then et_source r = Manual \<and> et_cascade_from r = None
        else et_source r = CascadeSource \<and> et_cascade_from r = Some a \<and>
             \<not> submitted (tables s) (et_event r) \<and> has_event (tables s) (et_event r))) new"
proof -
  have "cascaded a t (tables s) (tables (snd (Apply a t s)))"
    using cascaded_Apply [of a t s] by (auto simp: wp_def split: prod.splits sum.splits)
  then show ?thesis by (simp add: cascaded_def cascade_row_def [abs_def])
qed


text \<open>
  If no event lasts longer than \<open>w\<close> (an open event lasts 0), everything a successful
  cascade tags started at most 112.5 minutes before the anchor and at most 112.5 minutes and
  four times \<open>w\<close> after its end.
\<close>

theorem cascade_reach:
  assumes "no_fault s" "store_inv (tables s)" "times_ok (tables s)"
    and "row_at fe_id a (focus_events (tables s)) = Some r" "has_tag (tables s) t"
    and "\<forall>ev \<in> set (focus_events (tables s)).
           end_of (scanFocusEvent ev) \<le> parse_rfc3339 (fe_started ev) + w" and "0 \<le> w"
    and "Apply a t s = (Inr ids, s')" and "e \<in> set ids"
  shows "\<exists>ev \<in> set (focus_events (tables s)). fe_id ev = e \<and>
     parse_rfc3339 (fe_started r) - 6750 * second \<le> parse_rfc3339 (fe_started ev) \<and>
     parse_rfc3339 (fe_started ev) \<le> end_of (scanFocusEvent r) + 6750 * second + 4 * w"
proof (cases "e = a")
  case True
  have "r \<in> set (focus_events (tables s))" "fe_id r = a" using row_at_Some [OF assms(4)] by auto
  moreover have "parse_rfc3339 (fe_started r) \<le> end_of (scanFocusEvent r)"
    using times_ok_scan [OF assms(3), of "scanFocusEvent r"] calculation by simp
  ultimately show ?thesis using True assms(7) by (intro bexI [of _ r]) (auto simp: second_def)
next
  case False
  have "set ids = spread (tables s) cascadeSteps {a} {scanFocusEvent r}"
    using wpD_ok [OF healthy_Apply [OF assms(1-5)] assms(8)] by blast
  then have e: "e \<in> spread (tables s) cascadeSteps {a} {scanFocusEvent r}" using assms(9) by simp
  have sums: "sum_list cascadeSteps = 6750 * second" "length cascadeSteps = 4"
    "\<forall>r \<in> set cascadeSteps. 0 \<le> r"
    by (simp_all add: cascadeSteps_def minute_def second_def)
  have "\<exists>ev \<in> scanFocusEvent ` set (focus_events (tables s)). ID ev = e \<and>
     parse_rfc3339 (fe_started r) - sum_list cascadeSteps \<le> StartedAt ev \<and>
     StartedAt ev \<le> end_of (scanFocusEvent r) + sum_list cascadeSteps + int (length cascadeSteps) * w"
    using False assms(6,7) sums(3) by (intro spread_window [OF e]) auto
  then show ?thesis by (auto simp: sums)
qed


text \<open>
  A store with an anchor, an event 20 minutes before it, one 70 minutes after it that the
  second step reaches from the anchor's end, one that is submitted and one far away.
\<close>

definition example_row :: "rowid \<Rightarrow> stamp \<Rightarrow> focus_row" where
  "example_row i t = \<lparr>fe_id = i, fe_app = ''vim'', fe_title = ''a.go'', fe_started = t,
     fe_ended = Some (t + 60), fe_duration = Some 60, fe_idle = False, fe_created = t\<rparr>"

definition example_store :: client_tables where
  "example_store = empty_store\<lparr>
     focus_events := [example_row 1 36000, example_row 2 34800, example_row 3 36300,
       example_row 4 90000],
     tags := [\<lparr>tag_id = 7, tag_name = ''Project X'', tag_color = ''red'', tag_created = 0\<rparr>],
     submissions := [new_submission 1 36400], submission_events := [(1, 3)]\<rparr>"

lemma example_store_ok: "store_inv example_store" "times_ok example_store" "has_tag example_store 7"
    "row_at fe_id 1 (focus_events example_store) = Some (example_row 1 36000)"
  by (simp_all add: example_store_def store_inv_defs empty_store_def example_row_def
      new_submission_def times_ok_def row_at_def)


lemma example_cascade: "\<exists>s'. Apply 1 7 (healthy example_store) = (Inr [1, 2], s')"
  by (simp add: Apply_def bindM_def GetFocusEvent_def ApplyTagToEvent_def stmt_def Let_def
      ListFocusEvents_def query_def IsEventSubmitted_def tagEvent_def ret_def
      cascadeSteps_def example_store_def empty_store_def example_row_def
      row_at_def fk_ok_def has_event_def has_tag_def scanFocusEvent_def order_asc_def
      rfc3339_def parse_rfc3339_def minute_def second_def submitted_def affected_def)

lemma cascade_reach_witness:
  "\<exists>ids s'. Apply 1 7 (healthy example_store) = (Inr ids, s') \<and> (\<forall>e \<in> set ids.
     \<exists>ev \<in> set (focus_events example_store). fe_id ev = e \<and>
       36000 * second - 6750 * second \<le> parse_rfc3339 (fe_started ev))"
proof -
  obtain s' where s': "Apply 1 7 (healthy example_store) = (Inr [1, 2], s')"
    using example_cascade by blast
  have w: "\<forall>ev \<in> set (focus_events example_store).
      end_of (scanFocusEvent ev) \<le> parse_rfc3339 (fe_started ev) + minute"
    by (simp add: example_store_def example_row_def end_of_def scanFocusEvent_def
        parse_rfc3339_def minute_def second_def)
  have "\<exists>ev \<in> set (focus_events example_store). fe_id ev = e \<and>
       36000 * second - 6750 * second \<le> parse_rfc3339 (fe_started ev)" if "e \<in> {1, 2}" for e
    using cascade_reach [of "healthy example_store" 1 "example_row 1 36000" 7 minute "[1, 2]" s' e]
      that w s'
    by (fastforce simp: example_store_ok example_row_def parse_rfc3339_def minute_def second_def)
  then show ?thesis using s' by auto
qed

end
