(* ===== verification/Presence.thy ===== *)
theory Presence
  imports Trasker_Prelude
begin

text \<open>
  The deadman's switch (\<^verbatim>\<open>internal/client/presence\<close>): a goroutine that waits for an
  interval, asks the user (CHECKING), and pauses when the answer does not come in time.

  The goroutine, its two signal channels of capacity 1 and its output channel of capacity 16
  are one state, \<open>deadman\<close>; \<open>dm_step\<close> is one atomic action of the environment (an
  acknowledgement, a reset, a cancellation, the clock, a reader of the channel) or of the loop
  (one branch of a \<^verbatim>\<open>select\<close>, or the send an \<^verbatim>\<open>emit\<close> blocks on). A \<^verbatim>\<open>select\<close>
  with several ready branches may take any of them, so every theorem is about all orders.
  \<open>dm_run\<close> is the reachable states with the log of everything emitted so far.
\<close>

section \<open>States\<close>

datatype State = Tracking | Checking | Paused | Away

fun state_String :: "State \<Rightarrow> string" where
  "state_String Tracking = ''TRACKING''"
| "state_String Checking = ''CHECKING''"
| "state_String Paused = ''PAUSED''"
| "state_String Away = ''AWAY''"

record StateChange =
  sc_state :: State
  sc_time :: gotime

text \<open>Where the loop stands: in one of its three selects, in a send, or returned.\<close>

datatype dm_next = ToTimer | ToCountdown | ToSuspend

datatype dm_phase =
    Waiting gotime
  | Counting gotime
  | Suspended
  | Sending State dm_next
  | Returned

record deadman =
  dm_intervals :: "gotime list"
  dm_countdown :: gotime
  dm_tier :: nat
  dm_ack :: bool
  dm_reset :: bool
  dm_states :: "StateChange list"
  dm_cancelled :: bool
  dm_phase :: dm_phase
  dm_now :: gotime

section \<open>Construction\<close>

fun bad_interval :: "gotime list \<Rightarrow> bool" where
  "bad_interval [] = False"
| "bad_interval (d # ds) = (d \<le> 0 \<or> bad_interval ds)"

text \<open>The loop is not running before \<open>Start\<close>.\<close>

definition NewDeadman :: "gotime list \<Rightarrow> gotime \<Rightarrow> err + deadman" where
  "NewDeadman intervals countdown =
     (if intervals = [] then Inl (EInvalid ''deadman: intervals must not be empty'')
      else if bad_interval intervals then Inl (EInvalid ''deadman: interval must be > 0'')
      else if countdown \<le> 0 then Inl (EInvalid ''deadman: countdownDuration must be > 0'')
      else Inr \<lparr>dm_intervals = intervals, dm_countdown = countdown, dm_tier = 0,
             dm_ack = False, dm_reset = False, dm_states = [], dm_cancelled = False,
             dm_phase = Returned, dm_now = 0\<rparr>)"

definition default_intervals :: "gotime list" where
  "default_intervals = [30 * minute, 45 * minute, 60 * minute, 90 * minute, 120 * minute]"

definition DefaultDeadman :: "err + deadman" where
  "DefaultDeadman = NewDeadman default_intervals (90 * second)"

definition currentInterval :: "deadman \<Rightarrow> gotime" where
  "currentInterval d =
     (if length (dm_intervals d) \<le> dm_tier d
      then dm_intervals d ! (length (dm_intervals d) - 1)
      else dm_intervals d ! dm_tier d)"

text \<open>The top of the loop: a new timer for the current interval.\<close>

definition start_timer :: "deadman \<Rightarrow> deadman" where
  "start_timer d = d\<lparr>dm_phase := Waiting (dm_now d + currentInterval d)\<rparr>"

definition StartDeadman :: "gotime \<Rightarrow> deadman \<Rightarrow> deadman" where
  "StartDeadman now d = start_timer (d\<lparr>dm_now := now\<rparr>)"

section \<open>One step\<close>

datatype dm_event =
    Acknowledge | Reset | Cancel | Clock gotime | Receive
  | OnDone | OnReset | OnAck | OnTimer | Send

definition escalate :: "deadman \<Rightarrow> deadman" where
  "escalate d = (if dm_tier d < length (dm_intervals d) - 1 then d\<lparr>dm_tier := dm_tier d + 1\<rparr> else d)"

definition emit :: "State \<Rightarrow> dm_next \<Rightarrow> deadman \<Rightarrow> deadman" where
  "emit st nxt d = d\<lparr>dm_phase := Sending st nxt\<rparr>"

definition take_reset :: "deadman \<Rightarrow> deadman" where
  "take_reset d = emit Tracking ToTimer (d\<lparr>dm_reset := False, dm_tier := 0\<rparr>)"

text \<open>The select of the loop, the one of the countdown and the one of \<^verbatim>\<open>waitForResume\<close>.\<close>

fun loop_step :: "dm_event \<Rightarrow> gotime \<Rightarrow> deadman \<Rightarrow> deadman option" where
  "loop_step OnDone dl d = (if dm_cancelled d then Some (d\<lparr>dm_phase := Returned\<rparr>) else None)"
| "loop_step OnReset dl d = (if dm_reset d then Some (take_reset d) else None)"
| "loop_step OnTimer dl d = (if dl \<le> dm_now d then Some (emit Checking ToCountdown d) else None)"
| "loop_step _ dl d = None"

fun countdown_step :: "dm_event \<Rightarrow> gotime \<Rightarrow> deadman \<Rightarrow> deadman option" where
  "countdown_step OnDone dl d = (if dm_cancelled d then Some (d\<lparr>dm_phase := Returned\<rparr>) else None)"
| "countdown_step OnAck dl d =
     (if dm_ack d then Some (emit Tracking ToTimer (escalate (d\<lparr>dm_ack := False\<rparr>))) else None)"
| "countdown_step OnReset dl d = (if dm_reset d then Some (take_reset d) else None)"
| "countdown_step OnTimer dl d = (if dl \<le> dm_now d then Some (emit Paused ToSuspend d) else None)"
| "countdown_step _ dl d = None"

fun waitForResume_step :: "dm_event \<Rightarrow> deadman \<Rightarrow> deadman option" where
  "waitForResume_step OnDone d = (if dm_cancelled d then Some (start_timer d) else None)"
| "waitForResume_step OnReset d = (if dm_reset d then Some (take_reset d) else None)"
| "waitForResume_step OnAck d =
     (if dm_ack d then Some (emit Tracking ToTimer (d\<lparr>dm_ack := False, dm_tier := 0\<rparr>)) else None)"
| "waitForResume_step _ d = None"

fun send_step :: "State \<Rightarrow> dm_next \<Rightarrow> deadman \<Rightarrow> deadman option" where
  "send_step st nxt d =
     (if length (dm_states d) < 16
      then (let d' = d\<lparr>dm_states := dm_states d @ [\<lparr>sc_state = st, sc_time = dm_now d\<rparr>]\<rparr>
            in Some (case nxt of
                 ToTimer \<Rightarrow> start_timer d'
               | ToCountdown \<Rightarrow> d'\<lparr>dm_phase := Counting (dm_now d + dm_countdown d)\<rparr>
               | ToSuspend \<Rightarrow> d'\<lparr>dm_phase := Suspended\<rparr>))
      else None)"

fun dm_step :: "dm_event \<Rightarrow> deadman \<Rightarrow> deadman option" where
  "dm_step Acknowledge d = Some (d\<lparr>dm_ack := True\<rparr>)"
| "dm_step Reset d = Some (d\<lparr>dm_reset := True\<rparr>)"
| "dm_step Cancel d = Some (d\<lparr>dm_cancelled := True\<rparr>)"
| "dm_step (Clock t) d = (if dm_now d \<le> t then Some (d\<lparr>dm_now := t\<rparr>) else None)"
| "dm_step Receive d =
     (case dm_states d of [] \<Rightarrow> None | _ # rest \<Rightarrow> Some (d\<lparr>dm_states := rest\<rparr>))"
| "dm_step Send d =
     (case dm_phase d of Sending st nxt \<Rightarrow> send_step st nxt d | _ \<Rightarrow> None)"
| "dm_step ev d =
     (case dm_phase d of
        Waiting dl \<Rightarrow> loop_step ev dl d
      | Counting dl \<Rightarrow> countdown_step ev dl d
      | Suspended \<Rightarrow> waitForResume_step ev d
      | _ \<Rightarrow> None)"

fun dm_steps :: "dm_event list \<Rightarrow> deadman \<Rightarrow> deadman option" where
  "dm_steps [] d = Some d"
| "dm_steps (e # es) d = (case dm_step e d of None \<Rightarrow> None | Some d' \<Rightarrow> dm_steps es d')"

text \<open>What a step emits.\<close>

fun sent :: "dm_event \<Rightarrow> deadman \<Rightarrow> StateChange list" where
  "sent Send d = (case dm_phase d of Sending st _ \<Rightarrow> [\<lparr>sc_state = st, sc_time = dm_now d\<rparr>] | _ \<Rightarrow> [])"
| "sent _ d = []"

inductive dm_run :: "deadman \<Rightarrow> StateChange list \<Rightarrow> deadman \<Rightarrow> bool" where
  run_start: "NewDeadman iv cd = Inr d0 \<Longrightarrow> dm_run (StartDeadman now d0) [] (StartDeadman now d0)"
| run_step: "dm_run d0 log d \<Longrightarrow> dm_step e d = Some d' \<Longrightarrow> dm_run d0 (log @ sent e d) d'"

inductive_cases dm_runE: "dm_run d0 log d"

section \<open>Invariants\<close>

definition dm_inv :: "deadman \<Rightarrow> bool" where
  "dm_inv d =
     (dm_intervals d \<noteq> [] \<and> (\<forall>i \<in> set (dm_intervals d). 0 < i) \<and> 0 < dm_countdown d \<and>
      dm_tier d < length (dm_intervals d) \<and> length (dm_states d) \<le> 16)"

lemma bad_interval_iff: "bad_interval ds \<longleftrightarrow> (\<exists>d \<in> set ds. d \<le> 0)"
  by (induction ds) auto

lemmas dm_ops = emit_def take_reset_def escalate_def start_timer_def Let_def

lemmas dm_splits = if_splits option.splits dm_phase.splits dm_next.splits list.splits

lemma dm_step_inv: "dm_step e d = Some d' \<Longrightarrow> dm_inv d \<Longrightarrow> dm_inv d'"
  by (cases e) (auto simp: dm_inv_def dm_ops split: dm_splits)

lemma dm_step_config: "dm_step e d = Some d' \<Longrightarrow>
    dm_intervals d' = dm_intervals d \<and> dm_countdown d' = dm_countdown d \<and>
    dm_now d \<le> dm_now d' \<and> (dm_cancelled d \<longrightarrow> dm_cancelled d')"
  by (cases e) (auto simp: dm_ops split: dm_splits)

lemma NewDeadman_inv: "NewDeadman iv cd = Inr d0 \<Longrightarrow> dm_inv (StartDeadman now d0)"
  by (auto simp: NewDeadman_def dm_inv_def StartDeadman_def start_timer_def bad_interval_iff
      not_le split: if_splits)

lemma dm_run_inv: "dm_run d0 log d \<Longrightarrow> dm_inv d"
  by (induction rule: dm_run.induct) (auto intro: NewDeadman_inv dm_step_inv)

lemma dm_run_config: "dm_run d0 log d \<Longrightarrow>
    dm_intervals d = dm_intervals d0 \<and> dm_countdown d = dm_countdown d0 \<and> dm_now d0 \<le> dm_now d"
  by (induction rule: dm_run.induct) (auto dest: dm_step_config)

lemma currentInterval_mem: "dm_inv d \<Longrightarrow> currentInterval d \<in> set (dm_intervals d)"
  by (auto simp: dm_inv_def currentInterval_def)

lemma currentInterval_Min: "dm_inv d \<Longrightarrow> Min (set (dm_intervals d)) \<le> currentInterval d"
  using currentInterval_mem by (intro Min_le) auto

section \<open>What is emitted\<close>

text \<open>
  \<open>follows iv cd a b\<close>: the change \<open>b\<close> may come right after the change \<open>a\<close>.
\<close>

fun may_follow :: "gotime \<Rightarrow> gotime \<Rightarrow> State \<Rightarrow> State \<Rightarrow> gotime \<Rightarrow> bool" where
  "may_follow least cd Tracking Tracking w = True"
| "may_follow least cd Tracking Checking w = (least \<le> w)"
| "may_follow least cd Checking Tracking w = True"
| "may_follow least cd Checking Paused w = (cd \<le> w)"
| "may_follow least cd Paused Tracking w = True"
| "may_follow least cd _ _ w = False"

definition follows :: "gotime \<Rightarrow> gotime \<Rightarrow> StateChange \<Rightarrow> StateChange \<Rightarrow> bool" where
  "follows least cd a b =
     (sc_time a \<le> sc_time b \<and>
      may_follow least cd (sc_state a) (sc_state b) (sc_time b - sc_time a))"

text \<open>The phase of the loop agrees with the last change that was emitted.\<close>

fun phase_agrees :: "gotime \<Rightarrow> deadman \<Rightarrow> State \<Rightarrow> gotime \<Rightarrow> dm_phase \<Rightarrow> bool" where
  "phase_agrees least d st t (Waiting dl) = (st = Tracking \<and> t + least \<le> dl)"
| "phase_agrees least d st t (Counting dl) = (st = Checking \<and> t + dm_countdown d \<le> dl)"
| "phase_agrees least d st t Suspended = (st = Paused)"
| "phase_agrees least d st t (Sending Tracking ToTimer) = (st \<noteq> Away)"
| "phase_agrees least d st t (Sending Checking ToCountdown) = (st = Tracking \<and> t + least \<le> dm_now d)"
| "phase_agrees least d st t (Sending Paused ToSuspend) =
     (st = Checking \<and> t + dm_countdown d \<le> dm_now d)"
| "phase_agrees least d st t (Sending _ _) = False"
| "phase_agrees least d st t Returned = True"

definition log_inv :: "StateChange list \<Rightarrow> deadman \<Rightarrow> bool" where
  "log_inv log d =
     (let least = Min (set (dm_intervals d)); a = last log in
      successively (follows least (dm_countdown d)) log \<and> log \<noteq> [] \<and>
      sc_time a \<le> dm_now d \<and> phase_agrees least d (sc_state a) (sc_time a) (dm_phase d))"

lemma successively_snoc: "xs \<noteq> [] \<Longrightarrow> successively P (xs @ [x]) \<longleftrightarrow> successively P xs \<and> P (last xs) x"
  by (simp add: successively_append_iff)

lemma log_inv_env:
  assumes "log_inv log d" and "dm_intervals d' = dm_intervals d" "dm_countdown d' = dm_countdown d"
    and "dm_phase d' = dm_phase d" "dm_now d \<le> dm_now d'"
  shows "log_inv log d'"
proof -
  have "phase_agrees l d' st t p" if "phase_agrees l d st t p" for l st t p
    using that assms by (induction l d st t p rule: phase_agrees.induct) auto
  then show ?thesis using assms by (auto simp: log_inv_def Let_def)
qed

lemma log_inv_select:
  assumes "log_inv log d" "dm_inv d" "dm_step e d = Some d'" "e \<in> {OnReset, OnAck, OnTimer}"
    and "\<not> dm_cancelled d"
  shows "log_inv log d'"
  using assms
  by (auto simp: log_inv_def dm_ops split: dm_splits)

lemma log_inv_send:
  assumes "log_inv log d" "dm_inv d" "dm_step Send d = Some d'" "dm_phase d = Sending st nxt"
  shows "log_inv (log @ [\<lparr>sc_state = st, sc_time = dm_now d\<rparr>]) d'"
proof -
  let ?c = "\<lparr>sc_state = st, sc_time = dm_now d\<rparr>"
  let ?least = "Min (set (dm_intervals d))"
  have agrees: "phase_agrees ?least d (sc_state (last log)) (sc_time (last log)) (Sending st nxt)"
    and log: "successively (follows ?least (dm_countdown d)) log" "log \<noteq> []"
      "sc_time (last log) \<le> dm_now d"
    using assms(1,4) by (auto simp: log_inv_def Let_def)
  from agrees consider
      "st = Tracking" "nxt = ToTimer" "sc_state (last log) \<noteq> Away"
    | "st = Checking" "nxt = ToCountdown" "sc_state (last log) = Tracking"
        "sc_time (last log) + ?least \<le> dm_now d"
    | "st = Paused" "nxt = ToSuspend" "sc_state (last log) = Checking"
        "sc_time (last log) + dm_countdown d \<le> dm_now d"
    by (cases st; cases nxt) auto
  then show ?thesis
  proof cases
    case 1
    then have "follows ?least (dm_countdown d) (last log) ?c"
      using log(3) by (cases "sc_state (last log)") (auto simp: follows_def)
    moreover have "phase_agrees ?least d' Tracking (dm_now d) (dm_phase d')"
      using assms 1 currentInterval_Min [OF assms(2)]
      by (auto simp: Let_def start_timer_def currentInterval_def split: if_splits)
    ultimately show ?thesis
      using assms 1 log by (auto simp: log_inv_def successively_snoc Let_def start_timer_def split: if_splits)
  next
    case 2
    then have "follows ?least (dm_countdown d) (last log) ?c"
      using log(3) by (auto simp: follows_def)
    then show ?thesis
      using assms 2 log by (auto simp: log_inv_def successively_snoc Let_def split: if_splits)
  next
    case 3
    then have "follows ?least (dm_countdown d) (last log) ?c"
      using log(3) by (auto simp: follows_def)
    then show ?thesis
      using assms 3 log by (auto simp: log_inv_def successively_snoc Let_def split: if_splits)
  qed
qed

lemma dm_run_log:
  assumes "dm_run d0 log d" and "\<not> dm_cancelled d"
  shows "log_inv (\<lparr>sc_state = Tracking, sc_time = dm_now d0\<rparr> # log) d"
  using assms
proof (induction rule: dm_run.induct)
  case (run_start iv cd d0 now)
  then show ?case
    using currentInterval_Min [OF NewDeadman_inv [OF run_start(1)], of now]
    by (auto simp: log_inv_def Let_def StartDeadman_def start_timer_def currentInterval_def split: if_splits)
next
  case (run_step d0 log d e d')
  have nc: "\<not> dm_cancelled d" using dm_step_config [OF run_step(2)] run_step.prems by auto
  note IH = run_step.IH [OF nc] and inv = dm_run_inv [OF run_step(1)]
  consider "e \<in> {OnReset, OnAck, OnTimer}" | "e = Send" | "e = OnDone" | "e = Cancel"
    | "e \<in> {Acknowledge, Reset, Receive} \<or> (\<exists>t. e = Clock t)"
    by (cases e) auto
  then show ?case
  proof cases
    case 1
    then show ?thesis using log_inv_select [OF IH inv run_step(2) 1 nc] by auto
  next
    case 2
    then obtain st nxt where "dm_phase d = Sending st nxt"
      using run_step(2) by (auto split: dm_phase.splits)
    then show ?thesis using 2 log_inv_send [OF IH inv] run_step(2) by auto
  next
    case 3
    then show ?thesis using run_step(2) nc by (auto split: dm_phase.splits)
  next
    case 4
    then show ?thesis using run_step by auto
  next
    case 5
    then have "log_inv (\<lparr>sc_state = Tracking, sc_time = dm_now d0\<rparr> # log) d'"
      using run_step(2) by (intro log_inv_env [OF IH]) (auto split: if_splits list.splits)
    then show ?thesis using 5 by auto
  qed
qed

section \<open>Properties\<close>

text \<open>
  C24: In every run of the deadman's switch, as long as it is not cancelled, the changes it has
  emitted (after the implicit TRACKING of its start) follow each other as documented: CHECKING
  comes only after TRACKING and not before the least interval has passed, PAUSED comes only after
  CHECKING and not before the countdown has passed, and after CHECKING and PAUSED comes
  TRACKING or, for CHECKING, PAUSED; AWAY is never emitted.
\<close>

theorem deadman_log_follows:
  assumes "dm_run d0 log d" and "\<not> dm_cancelled d"
  shows "successively (follows (Min (set (dm_intervals d0))) (dm_countdown d0))
           (\<lparr>sc_state = Tracking, sc_time = dm_now d0\<rparr> # log)"
  using dm_run_log [OF assms] dm_run_config [OF assms(1)] by (simp add: log_inv_def Let_def)

text \<open>
  In every reachable state the tier is an index of the interval list, so the fallback of
  \<open>currentInterval\<close> is never taken, the interval is positive, and the output channel never holds
  more than 16 changes.
\<close>

theorem deadman_tier_in_range:
  assumes "dm_run d0 log d"
  shows "dm_tier d < length (dm_intervals d0) \<and> currentInterval d = dm_intervals d0 ! dm_tier d \<and>
     0 < currentInterval d \<and> length (dm_states d) \<le> 16"
  using dm_run_inv [OF assms] dm_run_config [OF assms]
  by (auto simp: dm_inv_def currentInterval_def)

text \<open>
  A paused switch stays paused, whatever the time: without an acknowledgement, a reset or a
  cancellation (none pending, none sent) no sequence of steps leaves the wait or emits anything.
\<close>

theorem paused_until_signal:
  assumes "dm_phase d = Suspended" "\<not> dm_ack d" "\<not> dm_reset d" "\<not> dm_cancelled d"
    and "dm_steps es d = Some d'" "set es \<inter> {Acknowledge, Reset, Cancel} = {}"
  shows "dm_phase d' = Suspended \<and> dm_tier d' = dm_tier d \<and> suffix (dm_states d') (dm_states d)"
  using assms
proof (induction es arbitrary: d)
  case (Cons e es)
  then obtain d1 where d1: "dm_step e d = Some d1" "dm_steps es d1 = Some d'"
    by (auto split: option.splits)
  then have "dm_phase d1 = Suspended \<and> \<not> dm_ack d1 \<and> \<not> dm_reset d1 \<and> \<not> dm_cancelled d1 \<and>
      dm_tier d1 = dm_tier d \<and> suffix (dm_states d1) (dm_states d)"
    using Cons.prems by (cases e) (auto split: if_splits list.splits simp: suffix_ConsI)
  then show ?case using Cons.IH [of d1] d1(2) Cons.prems(6) by (auto dest: suffix_order.trans)
qed simp

text \<open>
  An acknowledgement sent while the switch is tracking is not dropped: it stays in its
  channel and answers the next check by itself. From any tracking state, an acknowledgement and
  the interval running out lead to CHECKING followed at once by TRACKING with the tier
  escalated, with no acknowledgement sent after the check.
\<close>

theorem stale_acknowledge_answers_check:
  assumes "dm_phase d = Waiting dl" "dm_now d \<le> t" "dl \<le> t" "length (dm_states d) \<le> 14"
    and "dm_tier d < length (dm_intervals d)"
  shows "\<exists>d'. dm_steps [Acknowledge, Clock t, OnTimer, Send, OnAck, Send] d = Some d' \<and>
     dm_states d' = dm_states d @ [\<lparr>sc_state = Checking, sc_time = t\<rparr>, \<lparr>sc_state = Tracking, sc_time = t\<rparr>] \<and>
     dm_tier d' = min (dm_tier d + 1) (length (dm_intervals d) - 1) \<and> \<not> dm_ack d'"
  using assms by (auto simp: dm_ops)

section \<open>Witnesses\<close>

fun dm_trace :: "dm_event list \<Rightarrow> StateChange list \<Rightarrow> deadman \<Rightarrow> (StateChange list \<times> deadman) option" where
  "dm_trace [] log d = Some (log, d)"
| "dm_trace (e # es) log d =
     (case dm_step e d of None \<Rightarrow> None | Some d' \<Rightarrow> dm_trace es (log @ sent e d) d')"

lemma dm_run_trace: "dm_run d0 log d \<Longrightarrow> dm_trace es log d = Some (log', d') \<Longrightarrow> dm_run d0 log' d'"
  by (induction es arbitrary: log d) (auto intro: run_step split: option.splits)

text \<open>A small switch (intervals of 10 and 20, countdown of 5) that checks, is missed and resumes.\<close>

definition small_deadman :: deadman where
  "small_deadman = \<lparr>dm_intervals = [10, 20], dm_countdown = 5, dm_tier = 0, dm_ack = False,
     dm_reset = False, dm_states = [], dm_cancelled = False, dm_phase = Waiting 10, dm_now = 0\<rparr>"

lemma small_deadman_run: "dm_run small_deadman [] small_deadman"
proof -
  have "NewDeadman [10, 20] 5 = Inr (small_deadman\<lparr>dm_phase := Returned\<rparr>)"
    by (simp add: NewDeadman_def small_deadman_def)
  then have "dm_run (StartDeadman 0 (small_deadman\<lparr>dm_phase := Returned\<rparr>)) []
      (StartDeadman 0 (small_deadman\<lparr>dm_phase := Returned\<rparr>))"
    by (rule run_start)
  then show ?thesis by (simp add: StartDeadman_def start_timer_def small_deadman_def currentInterval_def)
qed

definition missed_check :: "dm_event list" where
  "missed_check = [Clock 12, OnTimer, Send, Clock 20, OnTimer, Send]"

definition missed_deadman :: deadman where
  "missed_deadman = small_deadman\<lparr>dm_now := 20, dm_phase := Suspended,
     dm_states := [\<lparr>sc_state = Checking, sc_time = 12\<rparr>, \<lparr>sc_state = Paused, sc_time = 20\<rparr>]\<rparr>"

lemma missed_run:
  "dm_run small_deadman [\<lparr>sc_state = Checking, sc_time = 12\<rparr>, \<lparr>sc_state = Paused, sc_time = 20\<rparr>]
     missed_deadman"
  by (rule dm_run_trace [OF small_deadman_run, of missed_check])
    (simp add: missed_check_def missed_deadman_def small_deadman_def dm_ops)

lemma deadman_log_follows_witness:
  "successively (follows 10 5) [\<lparr>sc_state = Tracking, sc_time = 0\<rparr>,
     \<lparr>sc_state = Checking, sc_time = 12\<rparr>, \<lparr>sc_state = Paused, sc_time = 20\<rparr>]"
  using deadman_log_follows [OF missed_run] by (simp add: missed_deadman_def small_deadman_def)

lemma deadman_tier_in_range_witness: "dm_tier missed_deadman < 2 \<and> currentInterval missed_deadman = 10"
  using deadman_tier_in_range [OF missed_run] by (simp add: small_deadman_def missed_deadman_def)

lemma paused_until_signal_witness:
  "\<exists>d'. dm_steps [Receive, Clock 900, Receive] missed_deadman = Some d' \<and> dm_phase d' = Suspended"
proof -
  let ?d' = "missed_deadman\<lparr>dm_now := 900, dm_states := []\<rparr>"
  have "dm_steps [Receive, Clock 900, Receive] missed_deadman = Some ?d'"
    by (simp add: missed_deadman_def small_deadman_def)
  moreover from this have "dm_phase ?d' = Suspended"
    using paused_until_signal [of missed_deadman "[Receive, Clock 900, Receive]" ?d']
    by (simp add: missed_deadman_def small_deadman_def)
  ultimately show ?thesis by blast
qed

lemma stale_acknowledge_answers_check_witness:
  "\<exists>d'. dm_steps [Acknowledge, Clock 10, OnTimer, Send, OnAck, Send] small_deadman = Some d' \<and>
     dm_tier d' = 1"
  using stale_acknowledge_answers_check [of small_deadman 10 10]
  by (auto simp: small_deadman_def)

end
