(* ===== verification/Session_Engine.thy ===== *)
theory Session_Engine
  imports Client_Store Presence
begin

text \<open>
  The session engine (\<^verbatim>\<open>internal/client/session/engine.go\<close>): it turns focus changes and
  presence changes into focus events of the store. Its state is the current event, the paused
  flag, the store and the presence detector it notifies; \<^verbatim>\<open>run\<close> handles one message at a time
  under its mutex, so the engine is a function of the sequence of messages.

  The detector is behind an interface of which the engine uses \<^verbatim>\<open>ResetOnFocusChange\<close> alone; its
  contract is the locale \<open>presence_reset\<close>, interpreted on the deadman's switch. \<open>timeline\<close> is
  the abstract view of the store: the intervals of focus, with the last one possibly open.
\<close>

section \<open>The engine\<close>

record FocusChange =
  fc_app :: string
  fc_title :: string
  fc_time :: gotime

record 'p engine =
  currentEventID :: rowid
  paused :: bool
  eng_store :: "client_tables db"
  eng_presence :: 'p

definition NewEngine :: "client_tables db \<Rightarrow> 'p \<Rightarrow> 'p engine" where
  "NewEngine s p = \<lparr>currentEventID = 0, paused = False, eng_store = s, eng_presence = p\<rparr>"

definition end_event :: "gotime \<Rightarrow> 'p engine \<Rightarrow> 'p engine" where
  "end_event t e =
     (if 0 < currentEventID e
      then e\<lparr>eng_store := snd (EndFocusEvent (currentEventID e) t (eng_store e))\<rparr> else e)"

definition handleFocusChange :: "('p \<Rightarrow> 'p) \<Rightarrow> gotime \<Rightarrow> FocusChange \<Rightarrow> 'p engine \<Rightarrow> 'p engine" where
  "handleFocusChange reset now fc e =
     (if paused e then e
      else let e1 = end_event (fc_time fc) e in
        (case InsertFocusEvent now (fc_app fc) (fc_title fc) (fc_time fc) (eng_store e1) of
           (Inl _, s) \<Rightarrow> e1\<lparr>eng_store := s\<rparr>
         | (Inr i, s) \<Rightarrow>
             e1\<lparr>eng_store := s, currentEventID := i, eng_presence := reset (eng_presence e1)\<rparr>))"

definition endCurrentEvent :: "gotime \<Rightarrow> 'p engine \<Rightarrow> 'p engine" where
  "endCurrentEvent now e = (end_event now e)\<lparr>currentEventID := 0\<rparr>"

fun handlePresenceChange :: "gotime \<Rightarrow> State \<Rightarrow> 'p engine \<Rightarrow> 'p engine" where
  "handlePresenceChange now Away e = (endCurrentEvent now e)\<lparr>paused := True\<rparr>"
| "handlePresenceChange now Paused e = (endCurrentEvent now e)\<lparr>paused := True\<rparr>"
| "handlePresenceChange now Tracking e = e\<lparr>paused := False\<rparr>"
| "handlePresenceChange now Checking e = e"

text \<open>One turn of \<^verbatim>\<open>run\<close>; each message carries what \<^verbatim>\<open>time.Now()\<close> returns while it is handled.\<close>

datatype engine_msg = FocusMsg gotime FocusChange | PresenceMsg gotime State | DoneMsg gotime

fun engine_step :: "('p \<Rightarrow> 'p) \<Rightarrow> engine_msg \<Rightarrow> 'p engine \<Rightarrow> 'p engine" where
  "engine_step reset (FocusMsg now fc) e = handleFocusChange reset now fc e"
| "engine_step reset (PresenceMsg now st) e = handlePresenceChange now st e"
| "engine_step reset (DoneMsg now) e = endCurrentEvent now e"

text \<open>\<^verbatim>\<open>run\<close> returns after the message of the cancelled context.\<close>

fun engine_run :: "('p \<Rightarrow> 'p) \<Rightarrow> engine_msg list \<Rightarrow> 'p engine \<Rightarrow> 'p engine" where
  "engine_run reset [] e = e"
| "engine_run reset (msg # ms) e =
     (let e' = engine_step reset msg e
      in case msg of DoneMsg _ \<Rightarrow> e' | _ \<Rightarrow> engine_run reset ms e')"

section \<open>The contract of the detector\<close>

text \<open>A reset is remembered until the detector handles it.\<close>

locale presence_reset =
  fixes reset :: "'p \<Rightarrow> 'p" and reset_pending :: "'p \<Rightarrow> bool"
  assumes reset_pends: "reset_pending (reset p)"
begin

text \<open>A focus change that is recorded leaves a reset pending.\<close>

lemma recorded_focus_resets:
  assumes "\<not> paused e" "no_fault (eng_store e)"
  shows "reset_pending (eng_presence (handleFocusChange reset now fc e))"
proof -
  have "no_fault (eng_store (end_event (fc_time fc) e))"
    using assms(2) by (auto simp: end_event_def EndFocusEvent_def stmt_def Let_def split: sum.splits)
  then show ?thesis
    using assms(1) reset_pends
    by (auto simp: handleFocusChange_def Let_def InsertFocusEvent_def stmt_healthy)
qed

end

definition dm_reset_call :: "deadman \<Rightarrow> deadman" where
  "dm_reset_call d = the (dm_step Reset d)"

interpretation deadman_reset: presence_reset dm_reset_call dm_reset
  by unfold_locales (simp add: dm_reset_call_def)

section \<open>Invariants\<close>

lemma end_event_simps [simp]:
  "currentEventID (end_event t e) = currentEventID e" "paused (end_event t e) = paused e"
  "eng_presence (end_event t e) = eng_presence e"
  by (simp_all add: end_event_def)

text \<open>Under any failures: a paused engine has no current event, and the current event exists.\<close>

definition engine_inv :: "'p engine \<Rightarrow> bool" where
  "engine_inv e =
     (store_inv (tables (eng_store e)) \<and> (paused e \<longrightarrow> currentEventID e = 0) \<and>
      (0 < currentEventID e \<longrightarrow> has_event (tables (eng_store e)) (currentEventID e)) \<and>
      0 \<le> currentEventID e)"

lemma EndFocusEvent_ids: "fe_id ` set (focus_events (tables (snd (EndFocusEvent i t s)))) =
    fe_id ` set (focus_events (tables s))"
  by (auto simp: EndFocusEvent_def stmt_def Let_def simp flip: set_map)

lemma end_event_inv: "engine_inv e \<Longrightarrow> engine_inv (end_event t e)"
  by (auto simp: engine_inv_def end_event_def has_event_def EndFocusEvent_ids keepsD [OF keeps_focus(2)])

lemma endCurrentEvent_inv: "engine_inv e \<Longrightarrow> engine_inv (endCurrentEvent t e)"
  using end_event_inv [of e t] by (simp add: endCurrentEvent_def engine_inv_def)

lemma Insert_cases:
  obtains (fails) x where "InsertFocusEvent now app title t s = (Inl x, s\<lparr>ticks := Suc (ticks s)\<rparr>)"
  | (works) i r where "InsertFocusEvent now app title t s =
        (Inr i, s\<lparr>ticks := Suc (ticks s), tables := tables s\<lparr>focus_events := focus_events (tables s) @ [r]\<rparr>\<rparr>)"
      "i = next_rowid (map fe_id (focus_events (tables s)))"
      "r = \<lparr>fe_id = i, fe_app = app, fe_title = title, fe_started = rfc3339 t, fe_ended = None,
            fe_duration = None, fe_idle = False, fe_created = rfc3339 now\<rparr>"
  by (cases "fault s (ticks s)") (auto simp: InsertFocusEvent_def stmt_def Let_def)

lemma handleFocusChange_inv:
  assumes "engine_inv e"
  shows "engine_inv (handleFocusChange reset now fc e)"
proof (cases "paused e")
  case False
  let ?e = "end_event (fc_time fc) e"
  have inv: "engine_inv ?e" by (rule end_event_inv [OF assms])
  have keep: "store_inv (tables (snd (InsertFocusEvent now (fc_app fc) (fc_title fc) (fc_time fc) (eng_store ?e))))"
    using inv by (intro keepsD [OF keeps_focus(1)]) (simp add: engine_inv_def)
  show ?thesis
    using inv keep False
    by (cases rule: Insert_cases [of now "fc_app fc" "fc_title fc" "fc_time fc" "eng_store ?e"])
      (auto simp: handleFocusChange_def engine_inv_def has_event_def less_imp_le Let_def)
qed (simp add: handleFocusChange_def assms)

lemma engine_step_inv: "engine_inv e \<Longrightarrow> engine_inv (engine_step reset msg e)"
proof (cases msg)
  case (PresenceMsg now st)
  then show "engine_inv e \<Longrightarrow> ?thesis"
    using endCurrentEvent_inv [of e now] by (cases st) (auto simp: engine_inv_def endCurrentEvent_def)
qed (simp_all add: handleFocusChange_inv endCurrentEvent_inv)

lemma engine_run_inv: "engine_inv e \<Longrightarrow> engine_inv (engine_run reset ms e)"
  by (induction ms arbitrary: e) (auto simp: Let_def engine_step_inv simp del: engine_step.simps split: engine_msg.splits)

section \<open>The timeline it records\<close>

type_synonym interval = "string \<times> string \<times> stamp \<times> stamp option"

definition interval_of :: "focus_row \<Rightarrow> interval" where
  "interval_of r = (fe_app r, fe_title r, fe_started r, fe_ended r)"

definition timeline :: "'p engine \<Rightarrow> interval list" where
  "timeline e = map interval_of (focus_events (tables (eng_store e)))"

definition close_open :: "gotime \<Rightarrow> interval list \<Rightarrow> interval list" where
  "close_open t = map (\<lambda>(app, title, s, en). (app, title, s, Some (case en of None \<Rightarrow> rfc3339 t | Some x \<Rightarrow> x)))"

text \<open>
  The specification on a timeline and the paused flag: a focus change closes the open interval
  and opens the next at the same instant; a pause closes it; while paused nothing is recorded.
\<close>

fun spec_step :: "engine_msg \<Rightarrow> interval list \<times> bool \<Rightarrow> interval list \<times> bool" where
  "spec_step (FocusMsg now fc) (ivs, p) =
     (if p then (ivs, p)
      else (close_open (fc_time fc) ivs @ [(fc_app fc, fc_title fc, rfc3339 (fc_time fc), None)], p))"
| "spec_step (PresenceMsg now Away) (ivs, p) = (close_open now ivs, True)"
| "spec_step (PresenceMsg now Paused) (ivs, p) = (close_open now ivs, True)"
| "spec_step (PresenceMsg now Tracking) (ivs, p) = (ivs, False)"
| "spec_step (PresenceMsg now Checking) (ivs, p) = (ivs, p)"
| "spec_step (DoneMsg now) (ivs, p) = (close_open now ivs, p)"

text \<open>The open events of the store are the current one.\<close>

definition open_is_current :: "'p engine \<Rightarrow> bool" where
  "open_is_current e =
     (\<forall>r \<in> set (focus_events (tables (eng_store e))).
        fe_ended r = None \<longleftrightarrow> fe_id r = currentEventID e)"

definition healthy_engine :: "'p engine \<Rightarrow> bool" where
  "healthy_engine e =
     (engine_inv e \<and> no_fault (eng_store e) \<and> open_is_current e \<and>
      (\<forall>r \<in> set (focus_events (tables (eng_store e))). 0 < fe_id r))"

lemma end_event_healthy:
  assumes "healthy_engine e"
  shows "timeline (end_event t e) = close_open t (timeline e)"
    and "no_fault (eng_store (end_event t e))"
    and "\<forall>r \<in> set (focus_events (tables (eng_store (end_event t e)))). fe_ended r \<noteq> None \<and> 0 < fe_id r"
proof -
  let ?rows = "focus_events (tables (eng_store e))"
  have rows: "\<forall>r \<in> set ?rows. (fe_ended r = None \<longleftrightarrow> fe_id r = currentEventID e) \<and> 0 < fe_id r"
    and nf: "no_fault (eng_store e)" and nn: "0 \<le> currentEventID e"
    using assms by (auto simp: healthy_engine_def open_is_current_def engine_inv_def)
  have "timeline (end_event t e) = close_open t (timeline e) \<and> no_fault (eng_store (end_event t e)) \<and>
    (\<forall>r \<in> set (focus_events (tables (eng_store (end_event t e)))). fe_ended r \<noteq> None \<and> 0 < fe_id r)"
  proof (cases "0 < currentEventID e")
    case True
    then have "focus_events (tables (eng_store (end_event t e))) =
        sql_update (\<lambda>r. fe_id r = currentEventID e) (end_row (rfc3339 t)) ?rows"
      "no_fault (eng_store (end_event t e))"
      using nf by (simp_all add: end_event_def EndFocusEvent_def stmt_healthy)
    then show ?thesis
      using rows
      by (auto simp: timeline_def close_open_def sql_update_def interval_of_def end_row_def
          split: option.splits)
  next
    case False
    then have "end_event t e = e" "\<forall>r \<in> set ?rows. fe_ended r \<noteq> None"
      using rows nn by (auto simp: end_event_def)
    then show ?thesis
      using rows nf by (auto simp: timeline_def close_open_def interval_of_def)
  qed
  then show "timeline (end_event t e) = close_open t (timeline e)"
    and "no_fault (eng_store (end_event t e))"
    and "\<forall>r \<in> set (focus_events (tables (eng_store (end_event t e)))). fe_ended r \<noteq> None \<and> 0 < fe_id r"
    by blast+
qed

lemma endCurrentEvent_healthy:
  assumes "healthy_engine e"
  shows "timeline (endCurrentEvent t e) = close_open t (timeline e)" "healthy_engine (endCurrentEvent t e)"
proof -
  note 1 = end_event_healthy [OF assms, of t]
  show "timeline (endCurrentEvent t e) = close_open t (timeline e)"
    using 1(1) by (simp add: timeline_def endCurrentEvent_def)
  have "engine_inv (endCurrentEvent t e)"
    using assms by (simp add: healthy_engine_def endCurrentEvent_inv)
  then show "healthy_engine (endCurrentEvent t e)"
    using 1(2,3) by (auto simp: healthy_engine_def open_is_current_def endCurrentEvent_def)
qed

lemma handleFocusChange_healthy:
  assumes "healthy_engine e" "\<not> paused e"
  shows "timeline (handleFocusChange reset now fc e) =
      close_open (fc_time fc) (timeline e) @ [(fc_app fc, fc_title fc, rfc3339 (fc_time fc), None)]"
    and "healthy_engine (handleFocusChange reset now fc e)"
proof -
  let ?e = "end_event (fc_time fc) e" and ?e' = "handleFocusChange reset now fc e"
  let ?i = "next_rowid (map fe_id (focus_events (tables (eng_store ?e))))"
  let ?r = "\<lparr>fe_id = ?i, fe_app = fc_app fc, fe_title = fc_title fc,
    fe_started = rfc3339 (fc_time fc), fe_ended = None, fe_duration = None, fe_idle = False,
    fe_created = rfc3339 now\<rparr>"
  note 1 = end_event_healthy [OF assms(1), of "fc_time fc"]
  have e': "focus_events (tables (eng_store ?e')) = focus_events (tables (eng_store ?e)) @ [?r]"
    "no_fault (eng_store ?e')" "currentEventID ?e' = ?i"
    using assms(2) 1(2)
    by (simp_all add: handleFocusChange_def InsertFocusEvent_def stmt_healthy Let_def)
  then show "timeline ?e' = close_open (fc_time fc) (timeline e) @
      [(fc_app fc, fc_title fc, rfc3339 (fc_time fc), None)]"
    using 1(1) by (simp add: timeline_def interval_of_def)
  have "engine_inv ?e'" using assms(1) by (simp add: healthy_engine_def handleFocusChange_inv)
  then show "healthy_engine ?e'"
    using 1(3) e' by (auto simp: healthy_engine_def open_is_current_def)
qed

lemma engine_step_healthy:
  assumes "healthy_engine e"
  shows "(timeline (engine_step reset msg e), paused (engine_step reset msg e)) =
      spec_step msg (timeline e, paused e)"
    and "healthy_engine (engine_step reset msg e)"
proof -
  have flag: "healthy_engine (e'\<lparr>paused := b\<rparr>)" "timeline (e'\<lparr>paused := b\<rparr>) = timeline e'"
    if "healthy_engine e'" "b \<longrightarrow> currentEventID e' = 0" for e' :: "'a engine" and b
    using that by (auto simp: healthy_engine_def engine_inv_def open_is_current_def timeline_def)
  have zero: "currentEventID (endCurrentEvent t e) = 0" "paused (endCurrentEvent t e) = paused e" for t
    by (simp_all add: endCurrentEvent_def)
  have focus: "paused (handleFocusChange reset now fc e) = paused e"
    "paused e \<Longrightarrow> handleFocusChange reset now fc e = e" for now fc
    by (auto simp: handleFocusChange_def Let_def split: sum.splits prod.splits)
  have "(timeline (engine_step reset msg e), paused (engine_step reset msg e)) =
      spec_step msg (timeline e, paused e) \<and> healthy_engine (engine_step reset msg e)"
  proof (cases msg)
    case (FocusMsg now fc)
    then show ?thesis
      using handleFocusChange_healthy [OF assms] assms by (cases "paused e") (simp_all add: focus)
  next
    case (PresenceMsg now st)
    then show ?thesis
      using endCurrentEvent_healthy [OF assms, of now] assms
      by (cases st) (simp_all add: flag zero)
  next
    case (DoneMsg now)
    then show ?thesis using endCurrentEvent_healthy [OF assms, of now] by (simp add: zero)
  qed
  then show "(timeline (engine_step reset msg e), paused (engine_step reset msg e)) =
      spec_step msg (timeline e, paused e)"
    and "healthy_engine (engine_step reset msg e)" by blast+
qed

section \<open>Properties\<close>

fun spec_run :: "engine_msg list \<Rightarrow> interval list \<times> bool \<Rightarrow> interval list \<times> bool" where
  "spec_run [] x = x"
| "spec_run (msg # ms) x = (case msg of DoneMsg _ \<Rightarrow> spec_step msg x | _ \<Rightarrow> spec_run ms (spec_step msg x))"

lemma engine_run_healthy: "healthy_engine e \<Longrightarrow>
    (timeline (engine_run reset ms e), paused (engine_run reset ms e)) =
    spec_run ms (timeline e, paused e)"
proof (induction ms arbitrary: e)
  case (Cons msg ms)
  note 1 = engine_step_healthy [OF Cons.prems, of reset msg]
  have "(timeline (engine_run reset ms (engine_step reset msg e)),
      paused (engine_run reset ms (engine_step reset msg e))) =
      spec_run ms (spec_step msg (timeline e, paused e))"
    using Cons.IH [OF 1(2)] 1(1) by simp
  then show ?case
    using 1(1) by (cases msg) (simp_all add: Let_def del: engine_step.simps spec_step.simps)
qed simp

text \<open>
  C7: When no statement fails, a run of the engine over any messages records exactly the
  timeline of the specification: every focus change ends the open interval and starts the next
  at the same instant, a lock or a missed check ends it, nothing is recorded while paused.
\<close>

theorem engine_records_timeline:
  assumes "no_fault (eng_store e)" "store_inv (tables (eng_store e))"
    and "currentEventID e = 0" "\<forall>r \<in> set (focus_events (tables (eng_store e))).
      fe_ended r \<noteq> None \<and> 0 < fe_id r"
  shows "(timeline (engine_run reset ms e), paused (engine_run reset ms e)) =
    spec_run ms (timeline e, paused e)"
  using assms
  by (intro engine_run_healthy) (auto simp: healthy_engine_def engine_inv_def open_is_current_def)

definition fc1 :: FocusChange where "fc1 = \<lparr>fc_app = ''vim'', fc_title = ''a.go'', fc_time = 10 * second\<rparr>"
definition fc2 :: FocusChange where "fc2 = \<lparr>fc_app = ''slack'', fc_title = ''x'', fc_time = 70 * second\<rparr>"
definition fc3 :: FocusChange where "fc3 = \<lparr>fc_app = ''vim'', fc_title = ''b.go'', fc_time = 500 * second\<rparr>"

lemma engine_records_timeline_witness:
  "timeline (engine_run dm_reset_call
      [FocusMsg 0 fc1, FocusMsg 0 fc2, PresenceMsg (90 * second) Paused, FocusMsg 0 fc3]
      (NewEngine (healthy empty_store) small_deadman)) =
    [(''vim'', ''a.go'', 10, Some 70), (''slack'', ''x'', 70, Some 90)]"
proof -
  let ?e = "NewEngine (healthy empty_store) small_deadman"
  let ?ms = "[FocusMsg 0 fc1, FocusMsg 0 fc2, PresenceMsg (90 * second) Paused, FocusMsg 0 fc3]"
  have "spec_run ?ms (timeline ?e, paused ?e) =
      ([(''vim'', ''a.go'', 10, Some 70), (''slack'', ''x'', 70, Some 90)], True)"
    by (simp add: NewEngine_def timeline_def empty_store_def close_open_def fc1_def fc2_def fc3_def
        rfc3339_def)
  moreover have "(timeline (engine_run dm_reset_call ?ms ?e), paused (engine_run dm_reset_call ?ms ?e)) =
      spec_run ?ms (timeline ?e, paused ?e)"
    using store_inv_empty by (intro engine_records_timeline) (auto simp: NewEngine_def empty_store_def)
  ultimately show ?thesis by simp
qed

text \<open>
  Under any failures and any messages the engine keeps the store's invariant, has no current
  event while it is paused, and a current event is always an event of the store.
\<close>

theorem engine_keeps_invariant:
  assumes "store_inv (tables s)"
  shows "let e = engine_run reset ms (NewEngine s p) in
     store_inv (tables (eng_store e)) \<and> (paused e \<longrightarrow> currentEventID e = 0) \<and>
     (0 < currentEventID e \<longrightarrow> has_event (tables (eng_store e)) (currentEventID e))"
proof -
  have "engine_inv (engine_run reset ms (NewEngine s p))"
    using assms by (intro engine_run_inv) (simp add: engine_inv_def NewEngine_def)
  then show ?thesis by (simp add: engine_inv_def Let_def)
qed

lemma engine_keeps_invariant_witness:
  "store_inv (tables (eng_store (engine_run dm_reset_call [FocusMsg 0 fc1, DoneMsg 5]
     (NewEngine (healthy empty_store) small_deadman))))"
  using engine_keeps_invariant [of "healthy empty_store" dm_reset_call "[FocusMsg 0 fc1, DoneMsg 5]" small_deadman]
  by (simp add: store_inv_empty Let_def)

text \<open>
  Once the deadman's switch has paused the engine, focus changes do not resume it: whatever
  windows are focused, the engine records nothing and never resets the switch, so the switch,
  the store and the engine are as they were. (Its documentation has PAUSED lead to TRACKING on
  a focus change.)
\<close>

theorem focus_does_not_resume:
  assumes "paused e" and "list_all (\<lambda>m. \<exists>now fc. m = FocusMsg now fc) ms"
  shows "engine_run dm_reset_call ms e = e"
  using assms
proof (induction ms)
  case (Cons m ms)
  then obtain now fc where "m = FocusMsg now fc" by auto
  then show ?case using Cons by (simp add: handleFocusChange_def)
qed simp

lemma focus_does_not_resume_witness:
  "eng_presence (engine_run dm_reset_call [FocusMsg 0 fc2, FocusMsg 0 fc3]
     (handlePresenceChange 100 Paused (NewEngine (healthy empty_store) missed_deadman))) = missed_deadman"
  using focus_does_not_resume [of "handlePresenceChange 100 Paused (NewEngine (healthy empty_store) missed_deadman)"
      "[FocusMsg 0 fc2, FocusMsg 0 fc3]"]
  by (simp add: endCurrentEvent_def NewEngine_def end_event_def)

text \<open>
  A focus change whose insert fails leaves the event it has just ended as the current one,
  so the next focus change moves that event's end to its own time: the recorded duration then
  covers time in which the window was not focused.
\<close>

theorem failed_insert_extends_event:
  assumes "\<not> paused e" "currentEventID e = i" "0 < i"
    and "row_at fe_id i (focus_events (tables (eng_store e))) = Some r"
    and "eng_store e = \<lparr>tables = d, fault = (\<lambda>n. n = k + 1), ticks = k\<rparr>"
    and "e1 = handleFocusChange reset now1 f1 e" and "e2 = handleFocusChange reset now2 f2 e1"
  shows "row_at fe_id i (focus_events (tables (eng_store e1))) = Some (end_row (rfc3339 (fc_time f1)) r) \<and>
     currentEventID e1 = i \<and>
     row_at fe_id i (focus_events (tables (eng_store e2))) =
       Some (end_row (rfc3339 (fc_time f2)) (end_row (rfc3339 (fc_time f1)) r))"
proof -
  let ?fin = "\<lambda>t rows. sql_update (\<lambda>r. fe_id r = i) (end_row t) rows"
  let ?r1 = "?fin (rfc3339 (fc_time f1)) (focus_events d)"
  have e1: "e1 = e\<lparr>eng_store := \<lparr>tables = d\<lparr>focus_events := ?r1\<rparr>,
      fault = (\<lambda>n. n = k + 1), ticks = k + 2\<rparr>\<rparr>"
    using assms(1,2,3,5,6)
    by (simp add: handleFocusChange_def end_event_def EndFocusEvent_def InsertFocusEvent_def stmt_def Let_def)
  have at1: "row_at fe_id i (focus_events d) = Some r"
    using assms(4,5) by simp
  have "focus_events (tables (eng_store e2)) = ?fin (rfc3339 (fc_time f2)) ?r1 @
      [\<lparr>fe_id = next_rowid (map fe_id ?r1), fe_app = fc_app f2, fe_title = fc_title f2,
        fe_started = rfc3339 (fc_time f2), fe_ended = None, fe_duration = None, fe_idle = False,
        fe_created = rfc3339 now2\<rparr>]"
    using assms(1,2,3,7) unfolding e1
    by (simp add: handleFocusChange_def end_event_def EndFocusEvent_def InsertFocusEvent_def stmt_def Let_def)
  then show ?thesis
    using at1 assms(2) by (simp add: e1 row_at_append focus_end.row_at_update)
qed

lemma failed_insert_extends_event_witness:
  "\<exists>e e2 :: deadman engine. map_option fe_duration (row_at fe_id 1 (focus_events (tables (eng_store e2)))) = Some (Some 490) \<and>
     e2 = handleFocusChange dm_reset_call 0 fc3 (handleFocusChange dm_reset_call 0 fc2 e)"
proof -
  let ?r = "\<lparr>fe_id = 1, fe_app = ''vim'', fe_title = ''a.go'', fe_started = 10, fe_ended = None,
    fe_duration = None, fe_idle = False, fe_created = 10\<rparr>"
  let ?e = "\<lparr>currentEventID = 1, paused = False,
    eng_store = \<lparr>tables = empty_store\<lparr>focus_events := [?r]\<rparr>, fault = (\<lambda>n. n = 0 + 1), ticks = 0\<rparr>,
    eng_presence = small_deadman\<rparr>"
  show ?thesis
    using failed_insert_extends_event [of ?e 1 ?r "empty_store\<lparr>focus_events := [?r]\<rparr>" 0 _ dm_reset_call 0 fc2 _ 0 fc3]
    by (intro exI [of _ ?e] exI [of _ "handleFocusChange dm_reset_call 0 fc3 (handleFocusChange dm_reset_call 0 fc2 ?e)"])
      (simp add: row_at_def end_row_def fc3_def rfc3339_def)
qed

end
