(* ===== verification/Pomodoro.thy ===== *)
theory Pomodoro
  imports Trasker_Prelude
begin

text \<open>
  The pomodoro timer (\<^verbatim>\<open>internal/client/pomodoro/timer.go\<close>): a state machine under a mutex,
  with a goroutine per phase that waits for the end of the phase or for its stop channel.

  A \<open>world\<close> is the timer, the stop channels closed so far, the goroutines and the clock. An
  operation under the mutex is one step; a goroutine takes the steps of \<^verbatim>\<open>runPhase\<close>: it reads
  \<open>endAt\<close> and arms its timer, then either sees its stop channel closed or sees the timer expire,
  and in the latter case it still has to get the mutex, so other operations may come between.
  Closing a closed channel is the panic of the Go runtime.
\<close>

section \<open>The timer\<close>

datatype pstate = StateIdle | StateWork | StateBreak | StateDone | StatePaused

record PomConfig =
  pc_work :: int
  pc_break :: int

definition DefaultConfig :: PomConfig where
  "DefaultConfig = \<lparr>pc_work = 25, pc_break = 5\<rparr>"

record pom_change =
  ch_from :: pstate
  ch_to :: pstate
  ch_remaining :: gotime
  ch_tag :: "rowid option"

record timer =
  tm_state :: pstate
  tm_config :: PomConfig
  tm_tag :: "rowid option"
  tm_startedAt :: gotime
  tm_endAt :: gotime
  tm_changes :: "pom_change list"
  tm_stopCh :: "nat option"
  tm_ticker :: bool

definition NewTimer :: "PomConfig \<Rightarrow> err + timer" where
  "NewTimer c =
     (if pc_work c \<le> 0 then Inl (EInvalid ''pomodoro: WorkMins must be > 0'')
      else if pc_break c < 0 then Inl (EInvalid ''pomodoro: BreakMins must be >= 0'')
      else Inr \<lparr>tm_state = StateIdle, tm_config = c, tm_tag = None, tm_startedAt = 0, tm_endAt = 0,
             tm_changes = [], tm_stopCh = None, tm_ticker = False\<rparr>)"

datatype stage = Spawned | Armed gotime | Fired | Exited

record goroutine =
  g_phase :: pstate
  g_ch :: nat
  g_stage :: stage

record world =
  w_timer :: timer
  w_closed :: "nat list"
  w_next :: nat
  w_gs :: "goroutine list"
  w_now :: gotime
  w_panicked :: bool

definition Remaining :: "world \<Rightarrow> gotime" where
  "Remaining w =
     (if tm_state (w_timer w) \<in> {StateIdle, StateDone} then 0
      else let rem = tm_endAt (w_timer w) - w_now w in if rem < 0 then 0 else rem)"

section \<open>The operations under the mutex\<close>

definition emitChange :: "pstate \<Rightarrow> pstate \<Rightarrow> world \<Rightarrow> world" where
  "emitChange from to w =
     (let t = w_timer w;
          sc = \<lparr>ch_from = from, ch_to = to, ch_remaining = tm_endAt t - w_now w, ch_tag = tm_tag t\<rparr>
      in if length (tm_changes t) < 16 then w\<lparr>w_timer := t\<lparr>tm_changes := tm_changes t @ [sc]\<rparr>\<rparr> else w)"

definition close_stop :: "world \<Rightarrow> world" where
  "close_stop w =
     (case tm_stopCh (w_timer w) of
        None \<Rightarrow> w
      | Some c \<Rightarrow> if c \<in> set (w_closed w) then w\<lparr>w_panicked := True\<rparr> else w\<lparr>w_closed := c # w_closed w\<rparr>)"

definition set_timer :: "(timer \<Rightarrow> timer) \<Rightarrow> world \<Rightarrow> world" where
  "set_timer f w = w\<lparr>w_timer := f (w_timer w)\<rparr>"

fun phase_minutes :: "PomConfig \<Rightarrow> pstate \<Rightarrow> int option" where
  "phase_minutes c StateWork = Some (pc_work c)"
| "phase_minutes c StateBreak = Some (pc_break c)"
| "phase_minutes c _ = None"

definition transitionTo :: "pstate \<Rightarrow> world \<Rightarrow> world" where
  "transitionTo new w =
     (let old = tm_state (w_timer w);
          w1 = close_stop w;
          w2 = set_timer (\<lambda>t. t\<lparr>tm_ticker := False, tm_state := new, tm_startedAt := w_now w\<rparr>) w1
      in case phase_minutes (tm_config (w_timer w)) new of
           None \<Rightarrow> emitChange old new w2
         | Some mins \<Rightarrow>
             let w3 = emitChange old new (set_timer (\<lambda>t. t\<lparr>tm_endAt := w_now w + mins * minute\<rparr>) w2);
                 c = w_next w3
             in (set_timer (\<lambda>t. t\<lparr>tm_stopCh := Some c, tm_ticker := True\<rparr>) w3)
                  \<lparr>w_next := c + 1, w_gs := w_gs w3 @ [\<lparr>g_phase = new, g_ch = c, g_stage = Spawned\<rparr>]\<rparr>)"

definition StartTimer :: "rowid option \<Rightarrow> world \<Rightarrow> err + world" where
  "StartTimer tag w =
     (if tm_state (w_timer w) \<noteq> StateIdle \<and> tm_state (w_timer w) \<noteq> StateDone
      then Inl (EInvalid ''pomodoro: cannot start'')
      else Inr (transitionTo StateWork (set_timer (\<lambda>t. t\<lparr>tm_tag := tag\<rparr>) w)))"

definition CancelTimer :: "world \<Rightarrow> world" where
  "CancelTimer w =
     (let old = tm_state (w_timer w)
      in emitChange old StateIdle
           (set_timer (\<lambda>t. t\<lparr>tm_stopCh := None, tm_ticker := False, tm_state := StateIdle\<rparr>) (close_stop w)))"

text \<open>What the goroutine of a phase does once it has the mutex.\<close>

definition phase_ends :: "pstate \<Rightarrow> world \<Rightarrow> world" where
  "phase_ends ph w =
     (if tm_state (w_timer w) \<noteq> ph then w
      else if ph = StateWork then transitionTo StateBreak w
      else if ph = StateBreak
      then emitChange StateBreak StateDone
             (set_timer (\<lambda>t. t\<lparr>tm_state := StateDone, tm_ticker := False\<rparr>) w)
      else w)"

section \<open>Steps\<close>

datatype pom_event =
    PStart "rowid option" | PCancel | PClock gotime | PReceive
  | GArm nat | GStop nat | GFire nat | GLock nat

definition set_stage :: "nat \<Rightarrow> stage \<Rightarrow> world \<Rightarrow> world" where
  "set_stage i st w = w\<lparr>w_gs := (w_gs w)[i := (w_gs w ! i)\<lparr>g_stage := st\<rparr>]\<rparr>"

fun runPhase :: "pom_event \<Rightarrow> world \<Rightarrow> world option" where
  "runPhase (GArm i) w =
     (if i < length (w_gs w) \<and> g_stage (w_gs w ! i) = Spawned
      then Some (set_stage i (Armed (tm_endAt (w_timer w))) w) else None)"
| "runPhase (GStop i) w =
     (if i < length (w_gs w)
      then (case g_stage (w_gs w ! i) of
              Armed _ \<Rightarrow>
                if g_ch (w_gs w ! i) \<in> set (w_closed w) then Some (set_stage i Exited w) else None
            | _ \<Rightarrow> None)
      else None)"
| "runPhase (GFire i) w =
     (if i < length (w_gs w)
      then (case g_stage (w_gs w ! i) of
              Armed dl \<Rightarrow> if dl \<le> w_now w then Some (set_stage i Fired w) else None
            | _ \<Rightarrow> None)
      else None)"
| "runPhase (GLock i) w =
     (if i < length (w_gs w) \<and> g_stage (w_gs w ! i) = Fired
      then Some (phase_ends (g_phase (w_gs w ! i)) (set_stage i Exited w)) else None)"
| "runPhase _ w = None"

fun pom_step :: "pom_event \<Rightarrow> world \<Rightarrow> world option" where
  "pom_step (PStart tag) w =
     (if w_panicked w then None else case StartTimer tag w of Inl _ \<Rightarrow> Some w | Inr w' \<Rightarrow> Some w')"
| "pom_step PCancel w = (if w_panicked w then None else Some (CancelTimer w))"
| "pom_step (PClock t) w = (if w_panicked w \<or> t < w_now w then None else Some (w\<lparr>w_now := t\<rparr>))"
| "pom_step PReceive w =
     (case tm_changes (w_timer w) of
        [] \<Rightarrow> None
      | _ # rest \<Rightarrow> if w_panicked w then None else Some (set_timer (\<lambda>t. t\<lparr>tm_changes := rest\<rparr>) w))"
| "pom_step ev w = (if w_panicked w then None else runPhase ev w)"

fun pom_steps :: "pom_event list \<Rightarrow> world \<Rightarrow> world option" where
  "pom_steps [] w = Some w"
| "pom_steps (e # es) w = (case pom_step e w of None \<Rightarrow> None | Some w' \<Rightarrow> pom_steps es w')"

definition new_world :: "gotime \<Rightarrow> timer \<Rightarrow> world" where
  "new_world now t = \<lparr>w_timer = t, w_closed = [], w_next = 0, w_gs = [], w_now = now, w_panicked = False\<rparr>"

text \<open>The zero \<^verbatim>\<open>time.Time\<close> of a new timer is the instant 0, before any clock reading.\<close>

inductive pom_reach :: "PomConfig \<Rightarrow> world \<Rightarrow> bool" where
  pom_new: "NewTimer c = Inr t \<Longrightarrow> 0 \<le> now \<Longrightarrow> pom_reach c (new_world now t)"
| pom_next: "pom_reach c w \<Longrightarrow> pom_step e w = Some w' \<Longrightarrow> pom_reach c w'"

lemma pom_reach_steps: "pom_reach c w \<Longrightarrow> pom_steps es w = Some w' \<Longrightarrow> pom_reach c w'"
  by (induction es arbitrary: w) (auto intro: pom_next split: option.splits)

section \<open>Invariant\<close>

text \<open>
  A goroutine is current if its stop channel is open and it has not returned. There is at most
  one, its channel is the one the timer holds, and the deadline it armed is the end of the phase.
\<close>

definition current_g :: "world \<Rightarrow> goroutine \<Rightarrow> bool" where
  "current_g w g = (g_stage g \<noteq> Exited \<and> g_ch g \<notin> set (w_closed w))"

fun stage_ok :: "world \<Rightarrow> stage \<Rightarrow> bool" where
  "stage_ok w (Armed dl) = (dl = tm_endAt (w_timer w))"
| "stage_ok w Fired = (tm_endAt (w_timer w) \<le> w_now w)"
| "stage_ok w _ = True"

definition current_ok :: "world \<Rightarrow> goroutine \<Rightarrow> bool" where
  "current_ok w g =
     (tm_stopCh (w_timer w) = Some (g_ch g) \<and> stage_ok w (g_stage g) \<and>
      (tm_state (w_timer w) = g_phase g \<or>
       tm_state (w_timer w) = StateDone \<and> g_phase g = StateBreak))"

definition end_ok :: "world \<Rightarrow> bool" where
  "end_ok w =
     (let t = w_timer w in
      case phase_minutes (tm_config t) (tm_state t) of
        None \<Rightarrow> True | Some m \<Rightarrow> tm_endAt t = tm_startedAt t + m * minute)"

definition pom_inv :: "PomConfig \<Rightarrow> world \<Rightarrow> bool" where
  "pom_inv c w =
     (\<not> w_panicked w \<and> tm_config (w_timer w) = c \<and> 0 < pc_work c \<and> 0 \<le> pc_break c \<and>
      (\<forall>ch. tm_stopCh (w_timer w) = Some ch \<longrightarrow> ch \<notin> set (w_closed w) \<and> ch < w_next w) \<and>
      (\<forall>ch \<in> set (w_closed w). ch < w_next w) \<and>
      (\<forall>g \<in> set (w_gs w). g_phase g \<in> {StateWork, StateBreak} \<and> g_ch g < w_next w \<and>
         (current_g w g \<longrightarrow> current_ok w g)) \<and>
      tm_state (w_timer w) \<noteq> StatePaused \<and> tm_startedAt (w_timer w) \<le> w_now w \<and> end_ok w)"

lemma emitChange_simps [simp]:
  "w_closed (emitChange a b w) = w_closed w" "w_next (emitChange a b w) = w_next w"
  "w_gs (emitChange a b w) = w_gs w" "w_now (emitChange a b w) = w_now w"
  "w_panicked (emitChange a b w) = w_panicked w"
  "tm_state (w_timer (emitChange a b w)) = tm_state (w_timer w)"
  "tm_config (w_timer (emitChange a b w)) = tm_config (w_timer w)"
  "tm_startedAt (w_timer (emitChange a b w)) = tm_startedAt (w_timer w)"
  "tm_endAt (w_timer (emitChange a b w)) = tm_endAt (w_timer w)"
  "tm_stopCh (w_timer (emitChange a b w)) = tm_stopCh (w_timer w)"
  "tm_tag (w_timer (emitChange a b w)) = tm_tag (w_timer w)"
  by (simp_all add: emitChange_def Let_def)

lemma set_timer_simps [simp]:
  "w_closed (set_timer f w) = w_closed w" "w_next (set_timer f w) = w_next w"
  "w_gs (set_timer f w) = w_gs w" "w_now (set_timer f w) = w_now w"
  "w_panicked (set_timer f w) = w_panicked w" "w_timer (set_timer f w) = f (w_timer w)"
  by (simp_all add: set_timer_def)

lemma pom_invD:
  assumes "pom_inv c w"
  shows "\<not> w_panicked w" "tm_config (w_timer w) = c" "0 < pc_work c" "0 \<le> pc_break c"
    "tm_stopCh (w_timer w) = Some ch \<Longrightarrow> ch \<notin> set (w_closed w) \<and> ch < w_next w"
    "ch \<in> set (w_closed w) \<Longrightarrow> ch < w_next w"
    "g \<in> set (w_gs w) \<Longrightarrow> g_phase g \<in> {StateWork, StateBreak} \<and> g_ch g < w_next w"
    "g \<in> set (w_gs w) \<Longrightarrow> current_g w g \<Longrightarrow> current_ok w g"
    "tm_state (w_timer w) \<noteq> StatePaused" "tm_startedAt (w_timer w) \<le> w_now w" "end_ok w"
  using assms unfolding pom_inv_def by blast+

lemma pom_invI:
  assumes "pom_inv c w0" "\<not> w_panicked w" "tm_config (w_timer w) = tm_config (w_timer w0)"
    and "\<And>ch. tm_stopCh (w_timer w) = Some ch \<Longrightarrow> ch \<notin> set (w_closed w) \<and> ch < w_next w"
    and "\<And>ch. ch \<in> set (w_closed w) \<Longrightarrow> ch < w_next w"
    and "\<And>g. g \<in> set (w_gs w) \<Longrightarrow> g_phase g \<in> {StateWork, StateBreak} \<and> g_ch g < w_next w"
    and "\<And>g. g \<in> set (w_gs w) \<Longrightarrow> current_g w g \<Longrightarrow> current_ok w g"
    and "tm_state (w_timer w) \<noteq> StatePaused" "tm_startedAt (w_timer w) \<le> w_now w" "end_ok w"
  shows "pom_inv c w"
  using assms pom_invD(2,3,4) [OF assms(1)] unfolding pom_inv_def by auto

text \<open>Closing the stop channel leaves no goroutine current.\<close>

lemma close_stop_inv:
  assumes "pom_inv c w"
  shows "\<not> w_panicked (close_stop w)" "w_timer (close_stop w) = w_timer w" "w_next (close_stop w) = w_next w"
    "w_gs (close_stop w) = w_gs w" "w_now (close_stop w) = w_now w"
    "\<And>ch. ch \<in> set (w_closed (close_stop w)) \<Longrightarrow> ch < w_next w"
    "\<And>g. g \<in> set (w_gs w) \<Longrightarrow> g_stage g = Exited \<or> g_ch g \<in> set (w_closed (close_stop w))"
proof -
  note D = pom_invD [OF assms]
  have *: "\<not> w_panicked (close_stop w) \<and> w_timer (close_stop w) = w_timer w \<and>
    w_next (close_stop w) = w_next w \<and> w_gs (close_stop w) = w_gs w \<and> w_now (close_stop w) = w_now w \<and>
    set (w_closed (close_stop w)) = set (w_closed w) \<union> set_option (tm_stopCh (w_timer w))"
    using D(1) D(5) by (auto simp: close_stop_def split: option.splits)
  then show "\<not> w_panicked (close_stop w)" "w_timer (close_stop w) = w_timer w" "w_next (close_stop w) = w_next w"
    "w_gs (close_stop w) = w_gs w" "w_now (close_stop w) = w_now w" by blast+
  show "ch < w_next w" if "ch \<in> set (w_closed (close_stop w))" for ch
    using that * D(5,6) by (auto simp: elem_set)
  show "g_stage g = Exited \<or> g_ch g \<in> set (w_closed (close_stop w))" if "g \<in> set (w_gs w)" for g
    using that * D(8) [OF that] by (auto simp: current_g_def current_ok_def)
qed

lemma CancelTimer_inv: "pom_inv c w \<Longrightarrow> pom_inv c (CancelTimer w)"
proof -
  assume inv: "pom_inv c w"
  note cs = close_stop_inv [OF inv] and D = pom_invD [OF inv]
  have "\<not> current_g (CancelTimer w) g" if "g \<in> set (w_gs w)" for g
    using cs(7) [OF that] by (auto simp: CancelTimer_def Let_def current_g_def)
  then show ?thesis
    using D(7,10) cs(1-6)
    by (intro pom_invI [OF inv]) (auto simp: CancelTimer_def Let_def end_ok_def)
qed

lemma transitionTo_simps:
  assumes "pom_inv c w" "phase_minutes c new = Some m"
  shows "w_gs (transitionTo new w) = w_gs w @ [\<lparr>g_phase = new, g_ch = w_next w, g_stage = Spawned\<rparr>]"
    "w_next (transitionTo new w) = w_next w + 1" "w_now (transitionTo new w) = w_now w"
    "w_closed (transitionTo new w) = w_closed (close_stop w)"
    "\<not> w_panicked (transitionTo new w)" "tm_config (w_timer (transitionTo new w)) = c"
    "tm_state (w_timer (transitionTo new w)) = new"
    "tm_startedAt (w_timer (transitionTo new w)) = w_now w"
    "tm_endAt (w_timer (transitionTo new w)) = w_now w + m * minute"
    "tm_stopCh (w_timer (transitionTo new w)) = Some (w_next w)"
  using close_stop_inv(1-5) [OF assms(1)] pom_invD(2) [OF assms(1)] assms(2)
  by (simp_all add: transitionTo_def Let_def)

lemma transitionTo_inv:
  assumes "pom_inv c w" "new \<in> {StateWork, StateBreak}"
  shows "pom_inv c (transitionTo new w)"
proof -
  note cs = close_stop_inv [OF assms(1)] and D = pom_invD [OF assms(1)]
  obtain m where m: "phase_minutes c new = Some m" using assms(2) by auto
  note t = transitionTo_simps [OF assms(1) m]
  have fresh: "w_next w \<notin> set (w_closed (close_stop w))" using cs(6) by auto
  show ?thesis
  proof (rule pom_invI [OF assms(1)])
    fix g assume g: "g \<in> set (w_gs (transitionTo new w))"
    then show "g_phase g \<in> {StateWork, StateBreak} \<and> g_ch g < w_next (transitionTo new w)"
      using D(7) assms(2) by (auto simp: t less_SucI)
    assume "current_g (transitionTo new w) g"
    then show "current_ok (transitionTo new w) g"
      using g cs(7) by (auto simp: t current_g_def current_ok_def)
  qed (use fresh assms(2) D(2) cs(6) in \<open>auto simp: t end_ok_def m less_SucI\<close>)
qed

lemma set_stage_simps [simp]:
  "w_timer (set_stage i st w) = w_timer w" "w_closed (set_stage i st w) = w_closed w"
  "w_next (set_stage i st w) = w_next w" "w_now (set_stage i st w) = w_now w"
  "w_panicked (set_stage i st w) = w_panicked w"
  by (simp_all add: set_stage_def)

lemma set_stage_gs: "g \<in> set (w_gs (set_stage i st w)) \<Longrightarrow> i < length (w_gs w) \<Longrightarrow>
    g \<in> set (w_gs w) \<or> g = (w_gs w ! i)\<lparr>g_stage := st\<rparr>"
  by (auto simp: set_stage_def dest: subsetD [OF set_update_subset_insert])

lemma stage_ok_cong: "tm_endAt (w_timer w') = tm_endAt (w_timer w) \<Longrightarrow> w_now w \<le> w_now w' \<Longrightarrow>
    stage_ok w st \<Longrightarrow> stage_ok w' st"
  by (cases st) auto

lemma set_stage_inv:
  assumes "pom_inv c w" "i < length (w_gs w)" "g_stage (w_gs w ! i) \<noteq> Exited"
    and "current_g w (w_gs w ! i) \<Longrightarrow> st = Exited \<or> stage_ok w st"
  shows "pom_inv c (set_stage i st w)"
proof -
  note D = pom_invD [OF assms(1)]
  have i: "w_gs w ! i \<in> set (w_gs w)" using assms(2) by simp
  show ?thesis
  proof (rule pom_invI [OF assms(1)])
    fix g assume g: "g \<in> set (w_gs (set_stage i st w))"
    then show "g_phase g \<in> {StateWork, StateBreak} \<and> g_ch g < w_next (set_stage i st w)"
      using set_stage_gs [OF g assms(2)] D(7) [OF i] D(7) [of g] by auto
    assume cur: "current_g (set_stage i st w) g"
    from set_stage_gs [OF g assms(2)] show "current_ok (set_stage i st w) g"
    proof
      assume "g \<in> set (w_gs w)"
      then have "current_ok w g" using D(8) cur by (simp add: current_g_def)
      then show ?thesis by (cases "g_stage g") (auto simp: current_ok_def)
    next
      assume eq: "g = (w_gs w ! i)\<lparr>g_stage := st\<rparr>"
      then have old: "current_g w (w_gs w ! i)" using cur assms(3) by (simp add: current_g_def)
      then have "stage_ok w st" using assms(4) cur eq by (auto simp: current_g_def)
      then show ?thesis
        using D(8) [OF i old] eq by (cases st) (auto simp: current_ok_def)
    qed
  qed (use D in \<open>auto simp: end_ok_def\<close>)
qed

lemma phase_ends_inv: "pom_inv c w \<Longrightarrow> pom_inv c (phase_ends ph w)"
proof -
  assume inv: "pom_inv c w"
  note D = pom_invD [OF inv]
  let ?w = "emitChange StateBreak StateDone (set_timer (\<lambda>t. t\<lparr>tm_state := StateDone, tm_ticker := False\<rparr>) w)"
  have "pom_inv c ?w" if br: "tm_state (w_timer w) = StateBreak"
  proof (rule pom_invI [OF inv])
    fix g assume "g \<in> set (w_gs ?w)" "current_g ?w g"
    then have "current_ok w g" using D(8) by (simp add: current_g_def)
    then show "current_ok ?w g" using br by (cases "g_stage g") (auto simp: current_ok_def)
  qed (use D in \<open>auto simp: end_ok_def\<close>)
  then show ?thesis
    using inv transitionTo_inv [OF inv, of StateBreak] by (simp add: phase_ends_def)
qed

lemma pom_step_inv:
  assumes "pom_step e w = Some w'" "pom_inv c w"
  shows "pom_inv c w'"
proof -
  note D = pom_invD [OF assms(2)]
  have end_same: "end_ok w2 = end_ok w" if "w_timer w2 = (w_timer w)\<lparr>tm_tag := tag, tm_changes := chs\<rparr>"
    for w2 tag chs
    by (simp add: end_ok_def Let_def that split: option.splits)
  have same: "pom_inv c w2"
    if "w_timer w2 = (w_timer w)\<lparr>tm_tag := tag, tm_changes := chs\<rparr>" "w_closed w2 = w_closed w"
      "w_next w2 = w_next w" "w_gs w2 = w_gs w" "w_now w \<le> w_now w2" "w_panicked w2 = w_panicked w"
    for w2 tag chs
  proof (rule pom_invI [OF assms(2)])
    fix g assume "g \<in> set (w_gs w2)" "current_g w2 g"
    then have "current_ok w g" using D(8) that by (simp add: current_g_def)
    then show "current_ok w2 g"
      using that stage_ok_cong [of w2 w] by (auto simp: current_ok_def)
  qed (use D that end_same [OF that(1)] in auto)
  show ?thesis
  proof (cases e)
    case (PStart tag)
    have "pom_inv c (set_timer (\<lambda>t. t\<lparr>tm_tag := tag\<rparr>) w)"
      by (rule same [where tag = tag and chs = "tm_changes (w_timer w)"]) (simp_all add: set_timer_def)
    then show ?thesis
      using assms PStart transitionTo_inv by (auto simp: StartTimer_def split: if_splits)
  next
    case PCancel
    then show ?thesis using assms CancelTimer_inv by (auto split: if_splits)
  next
    case (PClock t)
    then show ?thesis
      using assms(1) by (intro same [where tag = "tm_tag (w_timer w)" and chs = "tm_changes (w_timer w)"]) (auto split: if_splits)
  next
    case PReceive
    then show ?thesis
      using assms(1) by (intro same [where tag = "tm_tag (w_timer w)" and chs = "tl (tm_changes (w_timer w))"])
        (auto simp: set_timer_def split: list.splits if_splits)
  next
    case (GArm i)
    then show ?thesis using assms set_stage_inv by (auto split: if_splits)
  next
    case (GStop i)
    then show ?thesis using assms set_stage_inv by (auto split: if_splits stage.splits)
  next
    case (GFire i)
    then obtain dl where i: "i < length (w_gs w)" "g_stage (w_gs w ! i) = Armed dl" "dl \<le> w_now w"
      and w': "w' = set_stage i Fired w"
      using assms(1) by (auto split: if_splits stage.splits)
    have "stage_ok w Fired" if "current_g w (w_gs w ! i)"
      using D(8) [of "w_gs w ! i"] that i by (simp add: current_ok_def)
    then show ?thesis unfolding w' using i by (intro set_stage_inv [OF assms(2)]) auto
  next
    case (GLock i)
    then have i: "i < length (w_gs w)" "g_stage (w_gs w ! i) = Fired"
      and w': "w' = phase_ends (g_phase (w_gs w ! i)) (set_stage i Exited w)"
      using assms(1) by (auto split: if_splits)
    show ?thesis unfolding w' using i by (intro phase_ends_inv set_stage_inv [OF assms(2)]) auto
  qed
qed

lemma pom_reach_inv: "pom_reach c w \<Longrightarrow> pom_inv c w"
proof (induction rule: pom_reach.induct)
  case (pom_new c t now)
  then have "0 \<le> now" "0 < pc_work c" "0 \<le> pc_break c"
    "t = \<lparr>tm_state = StateIdle, tm_config = c, tm_tag = None, tm_startedAt = 0, tm_endAt = 0,
       tm_changes = [], tm_stopCh = None, tm_ticker = False\<rparr>"
    by (auto simp: NewTimer_def split: if_splits)
  then show ?case by (simp add: pom_inv_def new_world_def end_ok_def)
qed (auto intro: pom_step_inv)

section \<open>Properties\<close>

text \<open>
  C25: However operations and goroutines interleave, no stop channel is closed twice (the timer
  never panics); the timer is never in the unused paused state; and a goroutine that is neither
  returned nor told to stop is the one whose channel the timer holds.
\<close>

theorem pomodoro_never_panics:
  assumes "pom_reach c w"
  shows "\<not> w_panicked w \<and> tm_state (w_timer w) \<noteq> StatePaused \<and>
     (\<forall>g \<in> set (w_gs w). g_stage g \<noteq> Exited \<longrightarrow> g_ch g \<notin> set (w_closed w) \<longrightarrow>
        tm_stopCh (w_timer w) = Some (g_ch g))"
proof -
  note D = pom_invD [OF pom_reach_inv [OF assms]]
  have "tm_stopCh (w_timer w) = Some (g_ch g)"
    if "g \<in> set (w_gs w)" "g_stage g \<noteq> Exited" "g_ch g \<notin> set (w_closed w)" for g
    using D(8) [OF that(1)] that by (simp add: current_g_def current_ok_def)
  then show ?thesis using D(1,9) by blast
qed


text \<open>
  The only changes of state are those of the documented machine: idle or done to work by
  \<open>Start\<close>, work to break and break to done by a goroutine, anything to idle by \<open>Cancel\<close>.
\<close>

theorem pomodoro_transitions:
  assumes "pom_reach c w" "pom_step e w = Some w'" "tm_state (w_timer w') \<noteq> tm_state (w_timer w)"
  shows "(\<exists>tag. e = PStart tag \<and> tm_state (w_timer w) \<in> {StateIdle, StateDone} \<and> tm_state (w_timer w') = StateWork) \<or>
    (e = PCancel \<and> tm_state (w_timer w') = StateIdle) \<or>
    (\<exists>i. e = GLock i \<and> (tm_state (w_timer w), tm_state (w_timer w')) \<in>
       {(StateWork, StateBreak), (StateBreak, StateDone)})"
proof -
  have inv: "pom_inv c w" by (rule pom_reach_inv [OF assms(1)])
  have tr: "tm_state (w_timer (transitionTo new v)) = new" for new v
    by (simp add: transitionTo_def Let_def split: option.split)
  have cl: "w_timer (close_stop v) = w_timer v" for v
    by (simp add: close_stop_def split: option.splits)
  show ?thesis
  proof (cases e)
    case (PStart tag)
    then show ?thesis using assms(2,3) by (auto simp: StartTimer_def tr split: if_splits)
  next
    case PCancel
    then show ?thesis using assms(2) by (auto simp: CancelTimer_def Let_def split: if_splits)
  next
    case (GLock i)
    then have "g_phase (w_gs w ! i) \<in> {StateWork, StateBreak}"
      using assms(2) pom_invD(7) [OF inv, of "w_gs w ! i"] by (auto split: if_splits)
    then show ?thesis
      using assms(2,3) GLock by (auto simp: phase_ends_def tr split: if_splits)
  qed (use assms(2,3) in \<open>auto split: if_splits list.splits stage.splits\<close>)
qed

text \<open>A work phase of 25 minutes started at 0 whose goroutine's timer has expired.\<close>

definition work_world :: world where
  "work_world = \<lparr>w_timer = \<lparr>tm_state = StateWork, tm_config = DefaultConfig,
    tm_tag = None, tm_startedAt = 0, tm_endAt = 25 * minute,
    tm_changes = [\<lparr>ch_from = StateIdle, ch_to = StateWork, ch_remaining = 25 * minute, ch_tag = None\<rparr>],
    tm_stopCh = Some 0, tm_ticker = True\<rparr>, w_closed = [], w_next = 1,
    w_gs = [\<lparr>g_phase = StateWork, g_ch = 0, g_stage = Fired\<rparr>], w_now = 25 * minute, w_panicked = False\<rparr>"

definition fresh_timer :: timer where
  "fresh_timer = \<lparr>tm_state = StateIdle, tm_config = DefaultConfig,
    tm_tag = None, tm_startedAt = 0, tm_endAt = 0, tm_changes = [], tm_stopCh = None, tm_ticker = False\<rparr>"

lemma NewTimer_Default: "NewTimer DefaultConfig = Inr fresh_timer"
  by (simp add: NewTimer_def DefaultConfig_def fresh_timer_def)

lemmas pom_ops = StartTimer_def transitionTo_def CancelTimer_def close_stop_def emitChange_def
  set_timer_def set_stage_def phase_ends_def Let_def new_world_def minute_def second_def DefaultConfig_def
  fresh_timer_def

lemma work_world_steps:
  "pom_steps [PStart None, GArm 0, PClock (25 * minute), GFire 0] (new_world 0 fresh_timer) = Some work_world"
  by (simp add: pom_ops work_world_def)

lemma work_world_reach: "pom_reach DefaultConfig work_world"
  by (rule pom_reach_steps [OF pom_new [OF NewTimer_Default order_refl] work_world_steps])

lemma pomodoro_never_panics_witness: "\<not> w_panicked work_world"
  using pomodoro_never_panics [OF work_world_reach] by simp

definition break_world :: world where
  "break_world = the (pom_step (GLock 0) work_world)"

lemma work_world_break: "pom_step (GLock 0) work_world = Some break_world"
    "tm_state (w_timer break_world) = StateBreak"
  by (simp_all add: break_world_def work_world_def pom_ops)


lemma pomodoro_transitions_witness:
  "(tm_state (w_timer work_world), tm_state (w_timer break_world)) = (StateWork, StateBreak)"
  using pomodoro_transitions [OF work_world_reach work_world_break(1)]
  by (simp add: work_world_break(2)) (simp add: work_world_def)

text \<open>
  The check of the state alone does not tell two phases of one kind apart. There is a run
  with the default configuration in which the goroutine of an old work phase has seen its
  timer expire, the session is cancelled and a new one started before it gets the mutex, and it
  then ends the new work phase, which still had its 25 minutes to go.
\<close>

theorem pomodoro_stale_expiry:
  "\<exists>w w' i. pom_reach DefaultConfig w \<and> tm_state (w_timer w) = StateWork \<and>
     tm_startedAt (w_timer w) = w_now w \<and> Remaining w = 25 * minute \<and>
     pom_step (GLock i) w = Some w' \<and> tm_state (w_timer w') = StateBreak"
proof -
  define w where "w = the (pom_steps [PCancel, PStart (Some 3)] work_world)"
  have w: "pom_steps [PCancel, PStart (Some 3)] work_world = Some w"
    by (simp add: w_def work_world_def pom_ops)
  then have "pom_reach DefaultConfig w" by (rule pom_reach_steps [OF work_world_reach])
  moreover have "tm_state (w_timer w) = StateWork" "tm_startedAt (w_timer w) = w_now w"
    "Remaining w = 25 * minute" "\<exists>w'. pom_step (GLock 0) w = Some w' \<and> tm_state (w_timer w') = StateBreak"
    using w by (auto simp: work_world_def pom_ops Remaining_def)
  ultimately show ?thesis by blast
qed

end
