(* ===== verification/Tagger.thy ===== *)
theory Tagger
  imports Client_Store
begin

text \<open>
  The auto-tagger (\<^verbatim>\<open>internal/client/tagger\<close>: \<^verbatim>\<open>engine.go\<close>, \<^verbatim>\<open>store.go\<close>,
  \<^verbatim>\<open>tagger.go\<close>): glob rules with four tiers of priority, their table, and the orchestrator
  that evaluates its cached rules on each focus event. The function that records the tag is a
  callback; its contract is the locale \<open>tag_applier\<close>, interpreted on the one the daemon
  installs (\<^verbatim>\<open>cmd/trasker-client/main.go\<close>).
\<close>

section \<open>Rules and their evaluation\<close>

record Rule =
  RuleID :: rowid
  RuleTag :: rowid
  RuleTagName :: string
  AppPattern :: string
  TitlePattern :: "string option"
  Priority :: int
  Suggested :: bool
  HitCount :: int

record FocusContext =
  CtxApp :: string
  CtxTitle :: string

definition matchesRule :: "FocusContext \<Rightarrow> Rule \<Rightarrow> bool" where
  "matchesRule ctx r =
     (case filepath_Match (ToLower (AppPattern r)) (ToLower (CtxApp ctx)) of
        Some True \<Rightarrow>
          (case TitlePattern r of
             None \<Rightarrow> True
           | Some p \<Rightarrow>
               (case filepath_Match (ToLower p) (ToLower (CtxTitle ctx)) of
                  Some True \<Rightarrow> True
                | _ \<Rightarrow> False))
      | _ \<Rightarrow> False)"

fun evaluateTier :: "FocusContext \<Rightarrow> Rule list \<Rightarrow> (Rule \<times> rowid) option" where
  "evaluateTier ctx [] = None"
| "evaluateTier ctx (r # rs) =
     (if matchesRule ctx r then Some (r, RuleTag r) else evaluateTier ctx rs)"

text \<open>The partition loop, with its four accumulators.\<close>

fun partition_rules :: "Rule list \<Rightarrow> Rule list \<Rightarrow> Rule list \<Rightarrow> Rule list \<Rightarrow> Rule list \<Rightarrow>
    Rule list list" where
  "partition_rules [] t a st sa = [t, a, st, sa]"
| "partition_rules (r # rs) t a st sa =
     (if Suggested r
      then (if TitlePattern r \<noteq> None then partition_rules rs t a (st @ [r]) sa
            else partition_rules rs t a st (sa @ [r]))
      else if TitlePattern r \<noteq> None then partition_rules rs (t @ [r]) a st sa
      else partition_rules rs t (a @ [r]) st sa)"

fun first_tier :: "FocusContext \<Rightarrow> Rule list list \<Rightarrow> (Rule \<times> rowid) option" where
  "first_tier ctx [] = None"
| "first_tier ctx (tier # tiers) =
     (case evaluateTier ctx tier of Some m \<Rightarrow> Some m | None \<Rightarrow> first_tier ctx tiers)"

definition Evaluate :: "FocusContext \<Rightarrow> Rule list \<Rightarrow> (Rule \<times> rowid) option" where
  "Evaluate ctx rules = first_tier ctx (partition_rules rules [] [] [] [])"

text \<open>The order of the rules: the tier, then the descending priority.\<close>

definition tier :: "Rule \<Rightarrow> int" where
  "tier r = (if Suggested r then 2 else 0) + (if TitlePattern r = None then 1 else 0)"

definition rule_key :: "Rule \<Rightarrow> int \<times> int" where
  "rule_key r = (tier r, - Priority r)"

lemma evaluateTier_find: "evaluateTier ctx rs = map_option (\<lambda>r. (r, RuleTag r)) (find (matchesRule ctx) rs)"
  by (induction rs) auto

lemma partition_rules_filter: "partition_rules rs t a st sa =
    [t @ filter (\<lambda>r. tier r = 0) rs, a @ filter (\<lambda>r. tier r = 1) rs,
     st @ filter (\<lambda>r. tier r = 2) rs, sa @ filter (\<lambda>r. tier r = 3) rs]"
  by (induction rs arbitrary: t a st sa) (auto simp: tier_def)

lemma first_tier_find:
  "first_tier ctx tiers = map_option (\<lambda>r. (r, RuleTag r)) (find (matchesRule ctx) (concat tiers))"
  by (induction tiers) (auto simp: evaluateTier_find find_append split: option.splits)

lemma tier_range: "tier r \<in> {0, 1, 2, 3}"
  by (auto simp: tier_def)

text \<open>A list sorted by a key with values in 0..3 is the concatenation of its tiers.\<close>

lemma sorted_by_tiers:
  assumes "sorted (map tier rs)"
  shows "filter (\<lambda>r. tier r = 0) rs @ filter (\<lambda>r. tier r = 1) rs @
    filter (\<lambda>r. tier r = 2) rs @ filter (\<lambda>r. tier r = 3) rs = rs"
  using assms
proof (induction rs)
  case (Cons r rs)
  have ge: "\<forall>q \<in> set rs. tier r \<le> tier q" using Cons.prems by simp
  have none: "filter (\<lambda>q. tier q = k) rs = []" if "k < tier r" for k
    using ge that by (auto simp: filter_empty_conv)
  show ?case
    using Cons none tier_range [of r] by auto
qed simp

lemma Evaluate_sorted:
  assumes "sorted (map tier rs)"
  shows "Evaluate ctx rs = map_option (\<lambda>r. (r, RuleTag r)) (find (matchesRule ctx) rs)"
  using sorted_by_tiers [OF assms] by (simp add: Evaluate_def partition_rules_filter first_tier_find)

lemma sorted_rule_key_tier: "sorted (map rule_key rs) \<Longrightarrow> sorted (map tier rs)"
  by (induction rs) (auto simp: rule_key_def less_eq_prod_def)

section \<open>The table of rules\<close>

definition scanRule :: "tag_row \<Rightarrow> rule_row \<Rightarrow> Rule" where
  "scanRule t r = \<lparr>RuleID = rr_id r, RuleTag = rr_tag r, RuleTagName = tag_name t,
     AppPattern = rr_app r, TitlePattern = rr_title r, Priority = rr_priority r,
     Suggested = rr_suggested r, HitCount = rr_hits r\<rparr>"

text \<open>\<^verbatim>\<open>JOIN tags t ON t.id = r.tag_id\<close>\<close>

definition joined_rules :: "client_tables \<Rightarrow> Rule list" where
  "joined_rules d = concat (map (\<lambda>r. map (\<lambda>t. scanRule t r) (filter (\<lambda>t. tag_id t = rr_tag r) (tags d))) (tag_rules d))"

definition CreateRule :: "gotime \<Rightarrow> rowid \<Rightarrow> string \<Rightarrow> string option \<Rightarrow> int \<Rightarrow> bool \<Rightarrow> rowid client" where
  "CreateRule now t app title prio sugg =
     stmt ''tagger store: create rule'' (\<lambda>d.
       if fk_ok d (has_tag d t)
       then let i = next_rowid (map rr_id (tag_rules d))
            in Inr (i, d\<lparr>tag_rules := tag_rules d @ [\<lparr>rr_id = i, rr_tag = t, rr_app = app,
                 rr_title = title, rr_priority = prio, rr_suggested = sugg, rr_hits = 0,
                 rr_created = rfc3339 now\<rparr>]\<rparr>)
       else Inl (EConstraint ''FOREIGN KEY''))"

definition GetRule :: "rowid \<Rightarrow> Rule client" where
  "GetRule i =
     stmt ''tagger store: scan rule'' (\<lambda>d.
       case find (\<lambda>r. RuleID r = i) (joined_rules d) of
         None \<Rightarrow> Inl (EDb ''tagger store: scan rule'')
       | Some r \<Rightarrow> Inr (r, d))"

definition ListAll :: "Rule list client" where
  "ListAll = query ''tagger store: list all'' (\<lambda>d. order_asc rule_key (joined_rules d))"

text \<open>An \<^verbatim>\<open>UPDATE\<close> or \<^verbatim>\<open>DELETE\<close> that affects no row is the error "not found".\<close>

definition rule_update :: "string \<Rightarrow> (rule_row \<Rightarrow> bool) \<Rightarrow> (rule_row \<Rightarrow> rule_row) \<Rightarrow> unit client" where
  "rule_update ctx p f =
     bindM (stmt ctx (\<lambda>d. Inr (affected p (tag_rules d), d\<lparr>tag_rules := sql_update p f (tag_rules d)\<rparr>)))
       (\<lambda>n. if n = 0 then throw (ENotFound ''tagger store: rule not found'') else ret ())"

definition rule_set :: "string \<Rightarrow> string option \<Rightarrow> int \<Rightarrow> rule_row \<Rightarrow> rule_row" where
  "rule_set app title prio r = r\<lparr>rr_app := app, rr_title := title, rr_priority := prio\<rparr>"

definition UpdateRule :: "rowid \<Rightarrow> string \<Rightarrow> string option \<Rightarrow> int \<Rightarrow> unit client" where
  "UpdateRule i app title prio =
     rule_update ''tagger store: update rule'' (\<lambda>r. rr_id r = i) (rule_set app title prio)"

definition DeleteRule :: "rowid \<Rightarrow> unit client" where
  "DeleteRule i =
     bindM (stmt ''tagger store: delete rule'' (\<lambda>d.
         Inr (affected (\<lambda>r. rr_id r = i) (tag_rules d),
              d\<lparr>tag_rules := sql_delete (\<lambda>r. rr_id r = i) (tag_rules d)\<rparr>)))
       (\<lambda>n. if n = 0 then throw (ENotFound ''tagger store: rule not found'') else ret ())"

definition hit_row :: "rule_row \<Rightarrow> rule_row" where
  "hit_row r = r\<lparr>rr_hits := rr_hits r + 1\<rparr>"

definition IncrementHitCount :: "rowid \<Rightarrow> unit client" where
  "IncrementHitCount i =
     stmt ''tagger store: increment hit_count'' (\<lambda>d.
       Inr ((), d\<lparr>tag_rules := sql_update (\<lambda>r. rr_id r = i) hit_row (tag_rules d)\<rparr>))"

definition accept_row :: "rule_row \<Rightarrow> rule_row" where
  "accept_row r = r\<lparr>rr_suggested := False\<rparr>"

definition AcceptSuggested :: "rowid \<Rightarrow> unit client" where
  "AcceptSuggested i =
     rule_update ''tagger store: accept suggested'' (\<lambda>r. rr_id r = i \<and> rr_suggested r) accept_row"

lemma rule_rows [simp]:
  "rr_id (rule_set a t p r) = rr_id r" "rr_tag (rule_set a t p r) = rr_tag r"
  "rr_id (hit_row r) = rr_id r" "rr_tag (hit_row r) = rr_tag r"
  "rr_id (accept_row r) = rr_id r" "rr_tag (accept_row r) = rr_tag r"
  by (simp_all add: rule_set_def hit_row_def accept_row_def)

interpretation rule_edit: keyed_update rr_id "rule_set a t p" for a t p by unfold_locales simp
interpretation rule_hit: keyed_update rr_id hit_row by unfold_locales simp
interpretation rule_accept: keyed_update rr_id accept_row by unfold_locales simp

lemma store_inv_rules:
  assumes "store_inv d" "\<And>r. rr_id (f r) = rr_id r" "\<And>r. rr_tag (f r) = rr_tag r"
  shows "store_inv (d\<lparr>tag_rules := sql_update p f (tag_rules d)\<rparr>)"
proof -
  have "map rr_id (sql_update p f (tag_rules d)) = map rr_id (tag_rules d)"
    using assms(2) by (simp add: sql_update_def)
  moreover have "\<forall>r \<in> set (sql_update p f (tag_rules d)). has_tag d (rr_tag r)" if "foreign_keys d"
    using that assms by (intro ball_sql_update) (auto simp: store_inv_def refs_ok_def)
  ultimately show ?thesis using assms(1) by (simp add: store_inv_defs)
qed

lemma keeps_rules_ops [keeps_rules]:
  "keeps store_inv (CreateRule now t app title prio sugg)"
  "keeps store_inv (UpdateRule i app title prio)" "keeps store_inv (DeleteRule i)"
  "keeps store_inv (IncrementHitCount i)" "keeps store_inv (AcceptSuggested i)"
  "keeps I (GetRule i)" "keeps I ListAll"
proof -
  show "keeps store_inv (CreateRule now t app title prio sugg)"
    unfolding CreateRule_def
    by (rule keeps_stmt) (auto simp: store_inv_defs Let_def split: if_splits)
  have upd: "keeps store_inv (rule_update ctx p f)"
    if "\<And>r. rr_id (f r) = rr_id r" "\<And>r. rr_tag (f r) = rr_tag r" for ctx p f
    unfolding rule_update_def
    by (intro keeps_rules keeps_stmt) (auto intro: store_inv_rules that)
  show "keeps store_inv (UpdateRule i app title prio)" "keeps store_inv (AcceptSuggested i)"
    unfolding UpdateRule_def AcceptSuggested_def by (intro upd; simp)+
  show "keeps store_inv (IncrementHitCount i)"
    unfolding IncrementHitCount_def by (rule keeps_stmt) (auto intro: store_inv_rules)
  have "store_inv (d\<lparr>tag_rules := sql_delete p (tag_rules d)\<rparr>)" if "store_inv d" for d p
    using that by (simp add: store_inv_defs set_sql_delete distinct_map_delete)
  then show "keeps store_inv (DeleteRule i)"
    unfolding DeleteRule_def by (intro keeps_rules keeps_stmt) auto
  show "keeps I (GetRule i)"
    unfolding GetRule_def by (rule keeps_stmt) (auto split: option.splits)
  show "keeps I ListAll"
    unfolding ListAll_def by (rule keeps_query)
qed

section \<open>The orchestrator\<close>

record TaggerEvent =
  TevID :: rowid
  TevApp :: string
  TevTitle :: string

record tagger =
  tg_rules :: "Rule list"

definition RefreshRules :: "tagger \<Rightarrow> tagger client" where
  "RefreshRules tg = bindM ListAll (\<lambda>rules. ret (tg\<lparr>tg_rules := rules\<rparr>))"

definition NewTagger :: "tagger client" where
  "NewTagger = RefreshRules \<lparr>tg_rules = []\<rparr>"

type_synonym TagApplier = "rowid \<Rightarrow> rowid \<Rightarrow> rowid \<Rightarrow> unit client"

definition ProcessFocusEvent :: "TagApplier \<Rightarrow> tagger \<Rightarrow> TaggerEvent \<Rightarrow> unit client" where
  "ProcessFocusEvent applier tg ev =
     (case Evaluate \<lparr>CtxApp = TevApp ev, CtxTitle = TevTitle ev\<rparr> (tg_rules tg) of
        None \<Rightarrow> ret ()
      | Some (r, t) \<Rightarrow>
          bindM (attempt (applier (TevID ev) t (RuleID r))) (\<lambda>res.
            case res of
              Inl _ \<Rightarrow> ret ()
            | Inr _ \<Rightarrow> logged (IncrementHitCount (RuleID r))))"

text \<open>The applier of the daemon: \<^verbatim>\<open>INSERT OR IGNORE ... 'auto_rule'\<close>.\<close>

definition tagApplier :: TagApplier where
  "tagApplier e t ruleID = ApplyTagToEvent e t AutoRule None"

locale tag_applier =
  fixes applier :: "rowid \<Rightarrow> rowid \<Rightarrow> rowid \<Rightarrow> unit client"
  assumes applier_keeps: "keeps store_inv (applier e t i)"
    and applier_tags: "applier e t i s = (Inr (), s') \<Longrightarrow>
      \<exists>row \<in> set (event_tags (tables s')). et_event row = e \<and> et_tag row = t"
    and applier_rules: "tag_rules (tables (snd (applier e t i s))) = tag_rules (tables s)"
begin

lemma process_keeps: "keeps store_inv (ProcessFocusEvent applier tg ev)"
  unfolding ProcessFocusEvent_def by (intro keeps_rules applier_keeps)

lemma process_never_fails: "\<exists>s'. ProcessFocusEvent applier tg ev s = (Inr (), s')"
  by (auto simp: ProcessFocusEvent_def ret_def bindM_def attempt_def logged_def
      split: option.splits prod.splits sum.splits)

text \<open>A hit is counted only for an event that carries the tag.\<close>

lemma process_counts_tagged:
  assumes "ProcessFocusEvent applier tg ev s = (Inr (), s')"
    and "tag_rules (tables s') \<noteq> tag_rules (tables s)"
  shows "\<exists>r t. Evaluate \<lparr>CtxApp = TevApp ev, CtxTitle = TevTitle ev\<rparr> (tg_rules tg) = Some (r, t) \<and>
    (\<exists>row \<in> set (event_tags (tables s')). et_event row = TevID ev \<and> et_tag row = t)"
proof -
  obtain r t where ev: "Evaluate \<lparr>CtxApp = TevApp ev, CtxTitle = TevTitle ev\<rparr> (tg_rules tg) = Some (r, t)"
    using assms by (fastforce simp: ProcessFocusEvent_def ret_def split: option.splits)
  obtain res s1 where ap: "applier (TevID ev) t (RuleID r) s = (res, s1)" by fastforce
  have rules: "tag_rules (tables s1) = tag_rules (tables s)"
    using applier_rules [of "TevID ev" t "RuleID r" s] ap by simp
  have "res = Inr ()"
    using assms ev ap rules
    by (cases res) (auto simp: ProcessFocusEvent_def bindM_def attempt_def ret_def)
  moreover have "event_tags (tables s') = event_tags (tables s1)"
    using assms(1) ev ap calculation
    by (auto simp: ProcessFocusEvent_def bindM_def attempt_def logged_def IncrementHitCount_def stmt_def
        Let_def split: if_splits)
  ultimately show ?thesis using ev applier_tags ap by auto
qed

end

interpretation daemon_applier: tag_applier tagApplier
proof
  show "keeps store_inv (tagApplier e t i)" for e t i
    by (simp add: tagApplier_def keeps_tags)
  show "\<exists>row \<in> set (event_tags (tables s')). et_event row = e \<and> et_tag row = t"
    if "tagApplier e t i s = (Inr (), s')" for e t i s s'
    using that by (auto simp: tagApplier_def ApplyTagToEvent_def dest!: stmt_ok split: if_splits)
  show "tag_rules (tables (snd (tagApplier e t i s))) = tag_rules (tables s)" for e t i s
    by (auto simp: tagApplier_def ApplyTagToEvent_def stmt_def Let_def)
qed

section \<open>Properties\<close>

lemma ListAll_ok: "ListAll s = (Inr rules, s') \<Longrightarrow>
    rules = order_asc rule_key (joined_rules (tables s)) \<and> tables s' = tables s \<and> fault s' = fault s"
  by (auto simp: ListAll_def query_def dest!: stmt_ok)

lemma joined_rules_tag: "r \<in> set (joined_rules d) \<Longrightarrow> has_tag d (RuleTag r)"
  by (force simp: joined_rules_def scanRule_def has_tag_def image_iff)

lemma find_first_key:
  assumes "sorted (map k xs)" "find p xs = Some x"
  shows "x \<in> set xs \<and> p x \<and> (\<forall>y \<in> set xs. p y \<longrightarrow> k x \<le> k y)"
  using assms by (induction xs) (auto split: if_splits)

lemma evaluate_sorted_ListAll: "ListAll s = (Inr rules, s') \<Longrightarrow>
    Evaluate ctx rules = map_option (\<lambda>r. (r, RuleTag r)) (find (matchesRule ctx) rules)"
  using ListAll_ok [of s rules s'] by (intro Evaluate_sorted sorted_rule_key_tier) simp

text \<open>
  C22: On the list that \<open>ListAll\<close> returns, evaluating tier by tier is the same as taking the
  first matching rule of the list, so the partition of \<open>Evaluate\<close> and the \<open>ORDER BY\<close> of the
  query agree; the result is a matching rule that no matching rule precedes in tier or
  priority, and there is none iff no rule matches.
\<close>

theorem evaluate_first_of_ListAll:
  assumes "ListAll s = (Inr rules, s')"
  shows "Evaluate ctx rules = map_option (\<lambda>r. (r, RuleTag r)) (find (matchesRule ctx) rules) \<and>
    (case Evaluate ctx rules of
       None \<Rightarrow> \<forall>r \<in> set rules. \<not> matchesRule ctx r
     | Some (r, t) \<Rightarrow> t = RuleTag r \<and> r \<in> set rules \<and> matchesRule ctx r \<and>
         (\<forall>q \<in> set rules. matchesRule ctx q \<longrightarrow> rule_key r \<le> rule_key q))"
proof -
  have sorted: "sorted (map rule_key rules)" using ListAll_ok [OF assms] by simp
  have eq: "Evaluate ctx rules = map_option (\<lambda>r. (r, RuleTag r)) (find (matchesRule ctx) rules)"
    by (rule evaluate_sorted_ListAll [OF assms])
  show ?thesis
  proof (cases "find (matchesRule ctx) rules")
    case None
    then have "\<forall>r \<in> set rules. \<not> matchesRule ctx r" by (simp add: find_None_iff)
    then show ?thesis using eq None by simp
  next
    case (Some r)
    then show ?thesis using eq find_first_key [OF sorted Some] by simp
  qed
qed

definition rule_store :: client_tables where
  "rule_store = empty_store\<lparr>
     focus_events := [\<lparr>fe_id = 1, fe_app = ''Code'', fe_title = ''Trasker'', fe_started = 0, fe_ended = None,
       fe_duration = None, fe_idle = False, fe_created = 0\<rparr>],
     tags := [\<lparr>tag_id = 1, tag_name = ''A'', tag_color = [], tag_created = 0\<rparr>,
              \<lparr>tag_id = 2, tag_name = ''B'', tag_color = [], tag_created = 0\<rparr>],
     tag_rules := [\<lparr>rr_id = 1, rr_tag = 1, rr_app = ''co*'', rr_title = None, rr_priority = 9,
         rr_suggested = False, rr_hits = 0, rr_created = 0\<rparr>,
       \<lparr>rr_id = 2, rr_tag = 2, rr_app = ''code'', rr_title = Some ''trask*'', rr_priority = 0,
         rr_suggested = False, rr_hits = 0, rr_created = 0\<rparr>]\<rparr>"

definition rule_a :: Rule where
  "rule_a = \<lparr>RuleID = 1, RuleTag = 1, RuleTagName = ''A'', AppPattern = ''co*'', TitlePattern = None,
     Priority = 9, Suggested = False, HitCount = 0\<rparr>"

definition rule_b :: Rule where
  "rule_b = \<lparr>RuleID = 2, RuleTag = 2, RuleTagName = ''B'', AppPattern = ''code'', TitlePattern = Some ''trask*'',
     Priority = 0, Suggested = False, HitCount = 0\<rparr>"

lemma rule_store_ListAll: "ListAll (healthy rule_store) =
    (Inr [rule_b, rule_a], (healthy rule_store)\<lparr>ticks := 1\<rparr>)"
  by (simp add: ListAll_def query_def stmt_def rule_store_def empty_store_def joined_rules_def scanRule_def
      order_asc_def rule_key_def tier_def less_eq_prod_def rule_a_def rule_b_def)

lemma rule_b_matches: "matchesRule \<lparr>CtxApp = ''Code'', CtxTitle = ''Trasker''\<rparr> rule_b"
  by code_simp

lemma evaluate_first_of_ListAll_witness:
  "Evaluate \<lparr>CtxApp = ''Code'', CtxTitle = ''Trasker''\<rparr> [rule_b, rule_a] = Some (rule_b, 2)"
  using evaluate_first_of_ListAll [OF rule_store_ListAll, of "\<lparr>CtxApp = ''Code'', CtxTitle = ''Trasker''\<rparr>"]
    rule_b_matches by (simp add: rule_b_def)

text \<open>
  C23: With up-to-date rules and no failing statement, a new focus event is tagged by the rule
  that \<open>Evaluate\<close> picks and that rule's hit count goes up by one, or, if no rule matches,
  nothing changes.
\<close>

theorem auto_tag_event:
  assumes "no_fault s" "has_event (tables s) (TevID ev)"
    and "NewTagger s = (Inr tg, s1)" "ProcessFocusEvent tagApplier tg ev s1 = (Inr (), s2)"
  shows "case find (matchesRule \<lparr>CtxApp = TevApp ev, CtxTitle = TevTitle ev\<rparr>) (tg_rules tg) of
      None \<Rightarrow> tables s2 = tables s
    | Some r \<Rightarrow>
        TevID ev \<in> et_event ` {row \<in> set (event_tags (tables s2)). et_tag row = RuleTag r} \<and>
        (\<forall>i. row_at rr_id i (tag_rules (tables s2)) =
           (if i = RuleID r then map_option hit_row (row_at rr_id i (tag_rules (tables s)))
            else row_at rr_id i (tag_rules (tables s))))"
proof -
  have la: "ListAll s = (Inr (tg_rules tg), s1)"
    using assms(3) by (auto simp: NewTagger_def RefreshRules_def bindM_def ret_def
        split: prod.splits sum.splits)
  note ok = ListAll_ok [OF la]
  have nf: "no_fault s1" and ts: "tables s1 = tables s" using ok assms(1) by auto
  let ?ctx = "\<lparr>CtxApp = TevApp ev, CtxTitle = TevTitle ev\<rparr>"
  note eval = evaluate_sorted_ListAll [OF la, of ?ctx]
  show ?thesis
  proof (cases "find (matchesRule ?ctx) (tg_rules tg)")
    case None
    then show ?thesis
      using assms(4) eval ts by (auto simp: ProcessFocusEvent_def ret_def)
  next
    case (Some r)
    have "r \<in> set (tg_rules tg)" using Some by (auto simp: find_Some_iff)
    then have "r \<in> set (joined_rules (tables s))" using ok by (simp add: set_order)
    then have tag: "has_tag (tables s1) (RuleTag r)" using joined_rules_tag ts by simp
    have proc: "ProcessFocusEvent tagApplier tg ev s1 =
        bindM (attempt (tagApplier (TevID ev) (RuleTag r) (RuleID r))) (\<lambda>res.
          case res of Inl _ \<Rightarrow> ret () | Inr _ \<Rightarrow> logged (IncrementHitCount (RuleID r))) s1"
      using eval Some by (simp add: ProcessFocusEvent_def)
    have "wp (tagApplier (TevID ev) (RuleTag r) (RuleID r))
        (\<lambda>_ s'. tag_rules (tables s') = tag_rules (tables s1) \<and> no_fault s') (\<lambda>_ _. False) s1"
      using nf assms(2) tag ts
      by (simp add: tagApplier_def ApplyTagToEvent_def wp_stmt fk_ok_def)
    then obtain s' where s': "tagApplier (TevID ev) (RuleTag r) (RuleID r) s1 = (Inr (), s')"
      "tag_rules (tables s') = tag_rules (tables s1)" "no_fault s'"
      by (auto simp: wp_def split: prod.splits sum.splits)
    have tagged: "TevID ev \<in> et_event ` {row \<in> set (event_tags (tables s')). et_tag row = RuleTag r}"
      using daemon_applier.applier_tags [OF s'(1)] by force
    have "s2 = snd (IncrementHitCount (RuleID r) s')"
      using assms(4) proc s'(1) by (simp add: bindM_def attempt_def logged_def)
    then have "event_tags (tables s2) = event_tags (tables s')"
      "tag_rules (tables s2) = sql_update (\<lambda>x. rr_id x = RuleID r) hit_row (tag_rules (tables s'))"
      using s'(3) by (simp_all add: IncrementHitCount_def stmt_healthy)
    then show ?thesis using Some s'(2) tagged ts by (simp add: rule_hit.row_at_update)
  qed
qed

lemma auto_tag_event_witness:
  "\<exists>tg s1 s2. NewTagger (healthy rule_store) = (Inr tg, s1) \<and>
     ProcessFocusEvent tagApplier tg \<lparr>TevID = 1, TevApp = ''Code'', TevTitle = ''Trasker''\<rparr> s1 = (Inr (), s2) \<and>
     1 \<in> et_event ` {row \<in> set (event_tags (tables s2)). et_tag row = 2}"
proof -
  let ?ev = "\<lparr>TevID = 1, TevApp = ''Code'', TevTitle = ''Trasker''\<rparr>"
  let ?tg = "\<lparr>tg_rules = [rule_b, rule_a]\<rparr>" and ?s1 = "(healthy rule_store)\<lparr>ticks := 1\<rparr>"
  have 1: "NewTagger (healthy rule_store) = (Inr ?tg, ?s1)"
    by (simp add: NewTagger_def RefreshRules_def bindM_def rule_store_ListAll ret_def)
  obtain s2 where 2: "ProcessFocusEvent tagApplier ?tg ?ev ?s1 = (Inr (), s2)"
    using daemon_applier.process_never_fails by blast
  have "has_event (tables (healthy rule_store)) (TevID ?ev)"
    by (simp add: has_event_def rule_store_def)
  moreover have "find (matchesRule \<lparr>CtxApp = TevApp ?ev, CtxTitle = TevTitle ?ev\<rparr>) (tg_rules ?tg) = Some rule_b"
    using rule_b_matches by simp
  ultimately have "1 \<in> et_event ` {row \<in> set (event_tags (tables s2)). et_tag row = RuleTag rule_b}"
    using auto_tag_event [of "healthy rule_store" ?ev ?tg ?s1 s2] 1 2 by (simp del: find.simps)
  then show ?thesis using 1 2 by (auto simp: rule_b_def)
qed

end
