(* ===== verification/Learner.thy ===== *)
theory Learner
  imports Tagger
begin

text \<open>
  The rule learner (\<^verbatim>\<open>internal/client/tagger/learner.go\<close>): it counts manual taggings per
  application and per significant title word, and proposes a suggested rule when a count
  reaches the threshold. The count map is a function with default 0, which is what reading a
  Go map gives.
\<close>

section \<open>Words of a title\<close>

text \<open>The separators of the replacer; the long dash and the middle dot are their UTF-8 bytes.\<close>

definition separators :: "string list" where
  "separators = [''-'', [CHR 0xE2, CHR 0x80, CHR 0x94], ''|'', [CHR 0xC2, CHR 0xB7], ''['', '']'', ''('', '')'',
     ''/'', [CHR 0x5C], '':'']"

definition replacer :: "(string \<times> string) list" where
  "replacer = map (\<lambda>old. (old, '' '')) separators"

fun collect_words :: "string list \<Rightarrow> string list \<Rightarrow> string list" where
  "collect_words seen [] = []"
| "collect_words seen (p # ps) =
     (let w = ToLower (TrimSpace p)
      in if 3 < length w \<and> w \<notin> set seen then w # collect_words (w # seen) ps
         else collect_words seen ps)"

definition extractSignificantWords :: "string \<Rightarrow> string list" where
  "extractSignificantWords title = collect_words [] (Fields (replace_pairs replacer title))"

section \<open>The learner\<close>

record PatternKey =
  KeyApp :: string
  KeyTitle :: string
  KeyTag :: rowid

record Suggestion =
  SugTag :: rowid
  SugTagName :: string
  SugApp :: string
  SugTitle :: "string option"
  SugObserved :: int

record learner =
  counts :: "PatternKey \<Rightarrow> int"
  threshold :: int
  Suggestions :: "Suggestion list"

definition NewLearner :: "int \<Rightarrow> learner" where
  "NewLearner th = \<lparr>counts = (\<lambda>_. 0), threshold = th, Suggestions = []\<rparr>"

definition bump :: "PatternKey \<Rightarrow> learner \<Rightarrow> learner" where
  "bump k l = l\<lparr>counts := (counts l)(k := counts l k + 1)\<rparr>"

definition similar_rule :: "PatternKey \<Rightarrow> Rule \<Rightarrow> bool" where
  "similar_rule key r =
     (EqualFold (AppPattern r) (KeyApp key) \<and> RuleTag r = KeyTag key \<and>
      (KeyTitle key = [] \<and> TitlePattern r = None \<or>
       (case TitlePattern r of None \<Rightarrow> False | Some p \<Rightarrow> Contains (ToLower p) (KeyTitle key))))"

definition star :: string where "star = ''*''"

definition title_pattern :: "PatternKey \<Rightarrow> string option" where
  "title_pattern key = (if KeyTitle key \<noteq> [] then Some (star @ KeyTitle key @ star) else None)"

definition proposeSuggestion :: "gotime \<Rightarrow> PatternKey \<Rightarrow> string \<Rightarrow> learner \<Rightarrow> learner client" where
  "proposeSuggestion now key tagName l =
     bindM (attempt ListAll) (\<lambda>res.
       case res of
         Inl _ \<Rightarrow> ret l
       | Inr existing \<Rightarrow>
           if list_ex (similar_rule key) existing then ret l
           else bindM (attempt (CreateRule now (KeyTag key) (KeyApp key) (title_pattern key) 0 True)) (\<lambda>res2.
             case res2 of
               Inl _ \<Rightarrow> ret l
             | Inr _ \<Rightarrow>
                 (let sug = \<lparr>SugTag = KeyTag key, SugTagName = tagName, SugApp = KeyApp key,
                        SugTitle = title_pattern key, SugObserved = threshold l\<rparr>
                  in ret (if length (Suggestions l) < 16
                          then l\<lparr>Suggestions := Suggestions l @ [sug]\<rparr> else l))))"

definition app_key :: "string \<Rightarrow> rowid \<Rightarrow> PatternKey" where
  "app_key app t = \<lparr>KeyApp = ToLower app, KeyTitle = [], KeyTag = t\<rparr>"

definition title_key :: "string \<Rightarrow> rowid \<Rightarrow> string \<Rightarrow> PatternKey" where
  "title_key app t w = \<lparr>KeyApp = ToLower app, KeyTitle = w, KeyTag = t\<rparr>"

fun observe_words :: "gotime \<Rightarrow> string \<Rightarrow> rowid \<Rightarrow> string \<Rightarrow> string list \<Rightarrow> learner \<Rightarrow> learner client" where
  "observe_words now app t tagName [] l = ret l"
| "observe_words now app t tagName (w # ws) l =
     (let k = title_key app t w; l1 = bump k l
      in bindM (if counts l1 k = threshold l1 then proposeSuggestion now k tagName l1 else ret l1)
           (observe_words now app t tagName ws))"

definition ObserveManualTag :: "gotime \<Rightarrow> string \<Rightarrow> string \<Rightarrow> rowid \<Rightarrow> string \<Rightarrow> learner \<Rightarrow> learner client" where
  "ObserveManualTag now app title t tagName l =
     (let k = app_key app t
      in bindM (observe_words now app t tagName (extractSignificantWords title) (bump k l)) (\<lambda>l2.
           if counts l2 k = threshold l2 then proposeSuggestion now k tagName l2 else ret l2))"

record observation =
  ob_now :: gotime
  ob_app :: string
  ob_title :: string
  ob_tag :: rowid
  ob_name :: string

fun observe_all :: "observation list \<Rightarrow> learner \<Rightarrow> learner client" where
  "observe_all [] l = ret l"
| "observe_all (ob # obs) l =
     bindM (ObserveManualTag (ob_now ob) (ob_app ob) (ob_title ob) (ob_tag ob) (ob_name ob) l) (observe_all obs)"

section \<open>The words\<close>

lemma collect_words_props:
  "distinct (collect_words seen ps) \<and> set (collect_words seen ps) \<inter> set seen = {} \<and>
   (\<forall>w \<in> set (collect_words seen ps). 3 < length w \<and> (\<exists>p \<in> set ps. w = ToLower (TrimSpace p)))"
proof (induction ps arbitrary: seen)
  case (Cons p ps)
  define w where "w = ToLower (TrimSpace p)"
  show ?case
    using Cons.IH [of seen] Cons.IH [of "w # seen"]
    by (cases "3 < length w \<and> w \<notin> set seen") (auto simp: Let_def simp flip: w_def)
qed simp

lemma distinct_words: "distinct (extractSignificantWords title)"
  using collect_words_props by (simp add: extractSignificantWords_def)

lemma word_nonempty: "w \<in> set (extractSignificantWords title) \<Longrightarrow> w \<noteq> []"
  using collect_words_props [of "[]"] by (fastforce simp: extractSignificantWords_def)

text \<open>A field of the cleaned title is a piece of the title.\<close>

lemma fields_piece:
  assumes "\<forall>(old, new) \<in> set ps. new = '' ''"
    and "w \<in> set (fields_acc acc (replace_pairs ps s))"
  shows "\<exists>u v. rev acc @ s = u @ w @ v"
  using assms
proof (induction ps s arbitrary: acc rule: replace_pairs.induct)
  case (1 ps)
  then show ?case by (auto split: if_splits intro: exI [of _ "[]"])
next
  case (2 ps c s)
  show ?case
  proof (cases "find (\<lambda>(old, new). old \<noteq> [] \<and> HasPrefix (c # s) old) ps")
    case None
    then have rp: "replace_pairs ps (c # s) = c # replace_pairs ps s" by simp
    note IH = "2.IH"(1) [OF None "2.prems"(1)]
    show ?thesis
    proof (cases "is_space c")
      case True
      then consider "w = rev acc" | "w \<in> set (fields_acc [] (replace_pairs ps s))"
        using "2.prems"(2) rp by (auto split: if_splits)
      then show ?thesis
      proof cases
        case 1
        then show ?thesis by (intro exI [of _ "[]"] exI [of _ "c # s"]) simp
      next
        case 2
        from IH [OF 2] obtain u v where "s = u @ w @ v" by auto
        then show ?thesis by (intro exI [of _ "rev acc @ [c] @ u"] exI [of _ v]) simp
      qed
    next
      case False
      then show ?thesis using "2.prems"(2) rp IH [of "c # acc"] by simp
    qed
  next
    case (Some pr)
    obtain old new where pr: "pr = (old, new)" by fastforce
    have "pr \<in> set ps" using Some by (metis find_Some_iff nth_mem)
    then have new: "new = '' ''" using "2.prems"(1) pr by auto
    let ?rest = "drop (length old) (c # s)"
    have rp: "replace_pairs ps (c # s) = new @ replace_pairs ps ?rest"
      using Some pr by simp
    note IH = "2.IH"(2) [OF Some pr [symmetric] "2.prems"(1)]
    have "is_space CHR '' ''" by (simp add: is_space_def)
    then consider "w = rev acc" | "w \<in> set (fields_acc [] (replace_pairs ps ?rest))"
      using "2.prems"(2) unfolding rp new by (auto split: if_splits)
    then show ?thesis
    proof cases
      case 1
      then show ?thesis by (intro exI [of _ "[]"] exI [of _ "c # s"]) simp
    next
      case 2
      from IH [OF 2] obtain u v where "?rest = u @ w @ v" by auto
      then have "c # s = take (length old) (c # s) @ u @ w @ v" by (metis append_take_drop_id)
      then show ?thesis by (metis append.assoc)
    qed
  qed
qed

lemma fields_no_space: "w \<in> set (fields_acc acc s) \<Longrightarrow> \<forall>c \<in> set acc. \<not> is_space c \<Longrightarrow> \<forall>c \<in> set w. \<not> is_space c"
proof (induction s arbitrary: acc)
  case Nil
  then show ?case by (cases "acc = []") simp_all
next
  case (Cons c s)
  show ?case
  proof (cases "is_space c")
    case True
    then consider "w = rev acc" | "w \<in> set (fields_acc [] s)"
      using Cons.prems(1) by (cases "acc = []") auto
    then show ?thesis using Cons.prems(2) Cons.IH [of "[]"] by cases simp_all
  next
    case False
    then show ?thesis using Cons.prems Cons.IH [of "c # acc"] by simp
  qed
qed

lemma word_piece:
  assumes "w \<in> set (extractSignificantWords title)"
  shows "\<exists>u v. ToLower title = u @ w @ v"
proof -
  obtain p where p: "p \<in> set (Fields (replace_pairs replacer title))" "w = ToLower (TrimSpace p)"
    using assms collect_words_props [of "[]"] by (fastforce simp: extractSignificantWords_def)
  then have "TrimSpace p = p"
    using fields_no_space [of p "[]"] TrimSpace_id by (simp add: Fields_def)
  moreover have "\<exists>u v. title = u @ p @ v"
    using fields_piece [of replacer p "[]" title] p(1) by (auto simp: Fields_def replacer_def)
  ultimately show ?thesis using p(2) by (metis ToLower_append)
qed

section \<open>Counting and proposing\<close>

definition obs_keys :: "string \<Rightarrow> string \<Rightarrow> rowid \<Rightarrow> PatternKey set" where
  "obs_keys app title t =
     insert (app_key app t) (title_key app t ` set (extractSignificantWords title))"

lemma bump_simps [simp]:
  "counts (bump k l) k' = counts l k' + (if k' = k then 1 else 0)"
  "threshold (bump k l) = threshold l" "Suggestions (bump k l) = Suggestions l"
  by (simp_all add: bump_def)

lemma title_key_inj [simp]: "title_key app t w = title_key app t w' \<longleftrightarrow> w = w'"
  by (simp add: title_key_def)

lemma title_key_app [simp]: "w \<noteq> [] \<Longrightarrow> title_key app t w \<noteq> app_key app t"
    "w \<noteq> [] \<Longrightarrow> app_key app t \<noteq> title_key app t w"
  by (simp_all add: title_key_def app_key_def)

text \<open>A proposal touches neither the counts nor the existing rules, and it never fails.\<close>

lemma propose_frame:
  "wp (proposeSuggestion now k name l)
     (\<lambda>l' s'. counts l' = counts l \<and> threshold l' = threshold l \<and>
        prefix (tag_rules (tables s)) (tag_rules (tables s')) \<and> fault s' = fault s \<and>
        tags (tables s') = tags (tables s)) (\<lambda>_ _. False) s"
  by (auto simp: proposeSuggestion_def wp_bindM wp_attempt ListAll_def wp_query wp_ret
      CreateRule_def wp_stmt Let_def split: sum.split)

lemma keeps_propose [keeps_rules]: "keeps store_inv (proposeSuggestion now k name l)"
  unfolding proposeSuggestion_def Let_def by (intro keeps_rules)

lemma observe_words_frame:
  "distinct ws \<Longrightarrow> wp (observe_words now app t name ws l)
     (\<lambda>l' s'. counts l' = (\<lambda>k. counts l k + (if k \<in> title_key app t ` set ws then 1 else 0)) \<and>
        threshold l' = threshold l \<and> prefix (tag_rules (tables s)) (tag_rules (tables s')) \<and>
        fault s' = fault s \<and> tags (tables s') = tags (tables s)) (\<lambda>_ _. False) s"
proof (induction ws arbitrary: l s)
  case Nil
  then show ?case by (simp add: wp_ret)
next
  case (Cons w ws)
  let ?k = "title_key app t w"
  let ?Q = "\<lambda>l' s'. counts l' = (\<lambda>k. counts l k + (if k \<in> title_key app t ` set (w # ws) then 1 else 0)) \<and>
        threshold l' = threshold l \<and> prefix (tag_rules (tables s)) (tag_rules (tables s')) \<and>
        fault s' = fault s \<and> tags (tables s') = tags (tables s)"
  have rest: "wp (observe_words now app t name ws l1) ?Q (\<lambda>_ _. False) s1"
    if "counts l1 = counts (bump ?k l)" "threshold l1 = threshold l"
      "prefix (tag_rules (tables s)) (tag_rules (tables s1))" "fault s1 = fault s"
      "tags (tables s1) = tags (tables s)" for l1 s1
    by (rule wp_mono [OF Cons.IH [of l1 s1]])
      (use Cons.prems that in \<open>auto simp: fun_eq_iff\<close>)
  have "wp (proposeSuggestion now ?k name (bump ?k l))
      (\<lambda>x. wp (observe_words now app t name ws x) ?Q (\<lambda>_ _. False)) (\<lambda>_ _. False) s"
    by (rule wp_mono [OF propose_frame]) ((rule rest; simp) | simp)+
  then show ?case
    using rest [of "bump ?k l" s] by (simp add: Let_def wp_bindM wp_if wp_ret)
qed

lemma ObserveManualTag_frame:
  "wp (ObserveManualTag now app title t name l)
     (\<lambda>l' s'. counts l' = (\<lambda>k. counts l k + (if k \<in> obs_keys app title t then 1 else 0)) \<and>
        threshold l' = threshold l \<and> prefix (tag_rules (tables s)) (tag_rules (tables s')) \<and>
        fault s' = fault s \<and> tags (tables s') = tags (tables s)) (\<lambda>_ _. False) s"
proof -
  let ?k = "app_key app t"
  let ?Q = "\<lambda>l' s'. counts l' = (\<lambda>k. counts l k + (if k \<in> obs_keys app title t then 1 else 0)) \<and>
        threshold l' = threshold l \<and> prefix (tag_rules (tables s)) (tag_rules (tables s')) \<and>
        fault s' = fault s \<and> tags (tables s') = tags (tables s)"
  have not_app: "?k \<notin> title_key app t ` set (extractSignificantWords title)"
    by (auto dest: word_nonempty)
  have last: "wp (if counts l2 ?k = threshold l2 then proposeSuggestion now ?k name l2 else ret l2)
      ?Q (\<lambda>_ _. False) s2" if "?Q l2 s2" for l2 s2
  proof -
    have "wp (proposeSuggestion now ?k name l2) ?Q (\<lambda>_ _. False) s2"
      by (rule wp_mono [OF propose_frame]) (use that in auto)
    then show ?thesis using that by (simp add: wp_ret)
  qed
  show ?thesis
    unfolding ObserveManualTag_def Let_def wp_bindM
    by (rule wp_mono [OF observe_words_frame [OF distinct_words]])
      ((rule last; use not_app in \<open>auto simp: obs_keys_def fun_eq_iff\<close>) | simp)+
qed

text \<open>Below the threshold an observation does not reach the database.\<close>

lemma observe_words_silent:
  "\<forall>w \<in> set ws. counts l (title_key app t w) + 1 < threshold l \<Longrightarrow> distinct ws \<Longrightarrow>
   \<exists>l'. observe_words now app t name ws l s = (Inr l', s) \<and> Suggestions l' = Suggestions l"
proof (induction ws arbitrary: l)
  case (Cons w ws)
  have "\<exists>l'. observe_words now app t name ws (bump (title_key app t w) l) s = (Inr l', s) \<and>
      Suggestions l' = Suggestions (bump (title_key app t w) l)"
    using Cons.prems by (intro Cons.IH) auto
  then show ?case using Cons.prems by (simp add: Let_def bindM_def ret_def)
qed (simp add: ret_def)

lemma ObserveManualTag_silent:
  assumes "\<forall>k \<in> obs_keys app title t. counts l k + 1 < threshold l"
  shows "\<exists>l'. ObserveManualTag now app title t name l s = (Inr l', s) \<and> Suggestions l' = Suggestions l"
proof -
  let ?l = "bump (app_key app t) l" and ?ws = "extractSignificantWords title"
  have "\<forall>w \<in> set ?ws. counts ?l (title_key app t w) + 1 < threshold ?l"
    using assms by (auto simp: obs_keys_def dest: word_nonempty)
  from observe_words_silent [OF this distinct_words, where now = now and name = name and s = s]
  obtain l' where l': "observe_words now app t name ?ws ?l s = (Inr l', s)" "Suggestions l' = Suggestions l"
    by auto
  have "counts l' (app_key app t) = counts l (app_key app t) + 1 \<and> threshold l' = threshold l"
    using wpD_ok [OF observe_words_frame [OF distinct_words] l'(1)] by (auto dest: word_nonempty)
  then show ?thesis
    using assms l' by (auto simp: ObserveManualTag_def Let_def bindM_def ret_def obs_keys_def)
qed

lemma observe_all_silent:
  assumes "\<forall>k. counts l k \<le> int n" "n + length obs < nat (threshold l)"
  shows "\<exists>l'. observe_all obs l s = (Inr l', s) \<and> Suggestions l' = Suggestions l \<and>
    threshold l' = threshold l \<and>
    counts l' = (\<lambda>k. counts l k + (\<Sum>ob \<leftarrow> obs. if k \<in> obs_keys (ob_app ob) (ob_title ob) (ob_tag ob) then 1 else 0))"
  using assms
proof (induction obs arbitrary: l n)
  case (Cons ob obs)
  have "counts l k + 1 < threshold l" for k
  proof -
    have "counts l k \<le> int n" using Cons.prems(1) by blast
    moreover have "n + 1 < nat (threshold l)" using Cons.prems(2) by simp
    ultimately show ?thesis by linarith
  qed
  then obtain l1 where l1: "ObserveManualTag (ob_now ob) (ob_app ob) (ob_title ob) (ob_tag ob) (ob_name ob) l s = (Inr l1, s)"
    "Suggestions l1 = Suggestions l"
    using ObserveManualTag_silent by blast
  note f = wpD_ok [OF ObserveManualTag_frame l1(1)]
  have "counts l1 k \<le> int (n + 1)" for k
    using f Cons.prems(1) [rule_format, of k] by auto
  then obtain l2 where "observe_all obs l1 s = (Inr l2, s)" "Suggestions l2 = Suggestions l1"
    "threshold l2 = threshold l1"
    "counts l2 = (\<lambda>k. counts l1 k + (\<Sum>ob \<leftarrow> obs. if k \<in> obs_keys (ob_app ob) (ob_title ob) (ob_tag ob) then 1 else 0))"
    using Cons.IH [of l1 "n + 1"] Cons.prems(2) f by auto
  then show ?case using l1 f by (simp add: bindM_def fun_eq_iff)
qed (simp add: ret_def)

lemma count_sum: "(\<Sum>ob \<leftarrow> replicate n ob. if P ob then 1 else 0 :: int) = (if P ob then int n else 0)"
  by (induction n) auto

lemma observe_all_append: "observe_all (xs @ ys) l = bindM (observe_all xs l) (observe_all ys)"
  by (induction xs arbitrary: l) (auto simp: fun_eq_iff bindM_def ret_def split: prod.splits sum.splits)

section \<open>Properties\<close>

text \<open>
  Fewer observations than the threshold, of whatever events, neither touch the database nor
  send a suggestion.
\<close>

theorem learner_silent_below_threshold:
  assumes "int (length obs) < th"
  shows "\<exists>l. observe_all obs (NewLearner th) s = (Inr l, s) \<and> Suggestions l = []"
  using observe_all_silent [of "NewLearner th" 0 obs s] assms
  by (auto simp: NewLearner_def zless_nat_eq_int_zless)

definition ob1 :: observation where
  "ob1 = \<lparr>ob_now = 0, ob_app = ''Code'', ob_title = ''main.go - Trasker'', ob_tag = 1, ob_name = ''A''\<rparr>"

lemma learner_silent_below_threshold_witness:
  "\<exists>l. observe_all [ob1, ob1] (NewLearner 3) (healthy rule_store) = (Inr l, healthy rule_store) \<and> Suggestions l = []"
  using learner_silent_below_threshold [of "[ob1, ob1]" 3] by simp

text \<open>
  The observation that brings the same manual tagging to the threshold stores a suggested
  rule for the application and the first significant word of the title, if no statement fails,
  the tag exists and no rule for that tag and application is there.
\<close>

theorem learner_suggests_at_threshold:
  assumes "no_fault s" "has_tag (tables s) t" "extractSignificantWords title = w # ws"
    and "\<forall>r \<in> set (tag_rules (tables s)). \<not> (EqualFold (rr_app r) app \<and> rr_tag r = t)"
    and "ob = \<lparr>ob_now = now, ob_app = app, ob_title = title, ob_tag = t, ob_name = name\<rparr>"
    and "observe_all (replicate (Suc n) ob) (NewLearner (int n + 1)) s = (Inr l, s')"
  shows "\<exists>r \<in> set (tag_rules (tables s')). rr_tag r = t \<and> rr_app r = ToLower app \<and>
     rr_title r = Some (star @ w @ star) \<and> rr_suggested r"
proof -
  let ?k = "title_key app t w"
  have rep: "replicate (Suc n) ob = replicate n ob @ [ob]" by (simp add: replicate_append_same)
  obtain l1 where l1: "observe_all (replicate n ob) (NewLearner (int n + 1)) s = (Inr l1, s)"
    "threshold l1 = int n + 1" "\<And>k. counts l1 k = (if k \<in> obs_keys app title t then int n else 0)"
    using observe_all_silent [of "NewLearner (int n + 1)" 0 "replicate n ob" s] assms(5)
    by (auto simp: NewLearner_def zless_nat_eq_int_zless sum_list_replicate)
  have w: "w \<noteq> []" "distinct (w # ws)"
    using word_nonempty [of w title] distinct_words [of title] assms(3) by auto
  let ?l2 = "bump ?k (bump (app_key app t) l1)"
  have hit: "counts ?l2 ?k = threshold ?l2" using l1(2,3) w(1) assms(3) by (simp add: obs_keys_def)
  let ?row = "\<lambda>tabs. \<exists>r \<in> set (tag_rules tabs). rr_tag r = t \<and> rr_app r = ToLower app \<and>
     rr_title r = Some (star @ w @ star) \<and> rr_suggested r"
  have mono: "?row (tables b)" if "?row (tables a)" "prefix (tag_rules (tables a)) (tag_rules (tables b))"
    for a b :: "client_tables db"
    using that set_mono_prefix by blast
  have none: "\<not> list_ex (similar_rule ?k) (order_asc rule_key (joined_rules (tables s)))"
    using assms(4)
    by (auto simp: list_ex_iff set_order joined_rules_def scanRule_def similar_rule_def title_key_def
        EqualFold_def)
  have sugg: "wp (proposeSuggestion now ?k name ?l2)
      (\<lambda>x. wp (observe_words now app t name ws x) (\<lambda>_ s'. ?row (tables s')) (\<lambda>_ _. False))
      (\<lambda>_ _. False) s"
  proof -
    have "wp (proposeSuggestion now ?k name ?l2) (\<lambda>_ s'. ?row (tables s')) (\<lambda>_ _. False) s"
      using assms(1,2) none w(1)
      by (simp add: proposeSuggestion_def wp_bindM wp_attempt ListAll_def wp_query wp_ret
          CreateRule_def wp_stmt Let_def fk_ok_def title_pattern_def)
        (simp add: title_key_def)
    then show ?thesis
    proof (rule wp_mono)
      fix x and s1 :: "client_tables db" assume "?row (tables s1)"
      then show "wp (observe_words now app t name ws x) (\<lambda>_ s'. ?row (tables s')) (\<lambda>_ _. False) s1"
        using w(2) mono by (intro wp_mono [OF observe_words_frame]) auto
    qed
  qed
  have words: "wp (observe_words now app t name (w # ws) (bump (app_key app t) l1))
      (\<lambda>_ s'. ?row (tables s')) (\<lambda>_ _. False) s"
    using sugg hit by (simp add: Let_def wp_bindM)
  have "wp (ObserveManualTag now app title t name l1) (\<lambda>_ s'. ?row (tables s')) (\<lambda>_ _. False) s"
    unfolding ObserveManualTag_def Let_def wp_bindM assms(3)
  proof (rule wp_mono [OF words])
    fix x and s1 :: "client_tables db" assume "?row (tables s1)"
    then have "wp (proposeSuggestion now (app_key app t) name x) (\<lambda>_ s'. ?row (tables s')) (\<lambda>_ _. False) s1"
      using mono by (intro wp_mono [OF propose_frame]) auto
    then show "wp (if counts x (app_key app t) = threshold x
        then proposeSuggestion now (app_key app t) name x else ret x) (\<lambda>_ s'. ?row (tables s')) (\<lambda>_ _. False) s1"
      using \<open>?row (tables s1)\<close> by (simp add: wp_ret)
  qed simp
  moreover have "ObserveManualTag now app title t name l1 s = (Inr l, s')"
  proof -
    have ob: "ob_now ob = now" "ob_app ob = app" "ob_title ob = title" "ob_tag ob = t" "ob_name ob = name"
      by (simp_all add: assms(5))
    have "observe_all (replicate n ob @ [ob]) (NewLearner (int n + 1)) s = (Inr l, s')"
      using assms(6) unfolding rep .
    then show ?thesis
      using l1(1) by (simp add: observe_all_append bindM_def ret_def ob split: prod.splits sum.splits)
  qed
  ultimately show ?thesis by (rule wpD_ok)
qed

definition learner_store :: client_tables where
  "learner_store = rule_store\<lparr>tag_rules := []\<rparr>"

lemma ob1_words: "extractSignificantWords ''main.go - Trasker'' = [''main.go'', ''trasker'']"
  by code_simp

lemma learner_suggests_at_threshold_witness:
  "\<exists>l s'. observe_all (replicate 2 ob1) (NewLearner 2) (healthy learner_store) = (Inr l, s') \<and>
     (\<exists>r \<in> set (tag_rules (tables s')). rr_app r = ''code'' \<and> rr_title r = Some ''*main.go*'')"
proof -
  have no_err: "\<exists>l s'. observe_all obs l0 s0 = (Inr l, s')" for obs l0 s0
  proof (induction obs arbitrary: l0 s0)
    case (Cons ob obs)
    have "\<exists>l s'. ObserveManualTag (ob_now ob) (ob_app ob) (ob_title ob) (ob_tag ob) (ob_name ob) l0 s0 = (Inr l, s')"
      using ObserveManualTag_frame [of "ob_now ob" "ob_app ob" "ob_title ob" "ob_tag ob" "ob_name ob" l0 s0]
      by (auto simp: wp_def split: prod.splits sum.splits)
    then show ?case using Cons by (auto simp: bindM_def)
  qed (simp add: ret_def)
  obtain l s' where run: "observe_all (replicate 2 ob1) (NewLearner 2) (healthy learner_store) = (Inr l, s')"
    using no_err by blast
  have "ToLower ''Code'' = ''code''" by code_simp
  moreover have "has_tag (tables (healthy learner_store)) 1"
    by (simp add: has_tag_def learner_store_def rule_store_def)
  ultimately have "\<exists>r \<in> set (tag_rules (tables s')). rr_app r = ''code'' \<and> rr_title r = Some ''*main.go*''"
    using learner_suggests_at_threshold [OF _ _ ob1_words, of "healthy learner_store" 1 "''Code''" ob1 0 "''A''" 1 l s'] run
    by (auto simp: learner_store_def ob1_def star_def numeral_2_eq_2)
  then show ?thesis using run by blast
qed

text \<open>
  The rule learned from a word of a title matches an application and a title (if the
  application name and the word hold no pattern characters) iff the application is the same up
  to case and the word occurs in the title with no slash before or after it; so it matches the
  title it was learned from whenever that title holds no slash.
\<close>

theorem learned_rule_matches:
  assumes "w \<in> set (extractSignificantWords title)" "list_all plain w" "list_all plain (ToLower app)"
    and "AppPattern r = ToLower app" "TitlePattern r = Some (star @ w @ star)"
  shows "(matchesRule \<lparr>CtxApp = app', CtxTitle = title'\<rparr> r \<longleftrightarrow>
      ToLower app' = ToLower app \<and>
      (\<exists>u v. ToLower title' = u @ w @ v \<and> separator \<notin> set u \<and> separator \<notin> set v)) \<and>
    (separator \<notin> set title \<longrightarrow> matchesRule \<lparr>CtxApp = app, CtxTitle = title\<rparr> r)"
proof -
  have low: "ToLower w = w"
    using assms(1) collect_words_props [of "[]"] by (fastforce simp: extractSignificantWords_def)
  have pat: "ToLower (star @ w @ star) = CHR ''*'' # w @ ''*''"
    using low by (simp add: star_def) (simp add: ToLower_def lower_char_def)
  have match: "matchesRule \<lparr>CtxApp = a, CtxTitle = t\<rparr> r \<longleftrightarrow> ToLower a = ToLower app \<and>
      (\<exists>u v. ToLower t = u @ w @ v \<and> separator \<notin> set u \<and> separator \<notin> set v)" for a t
  proof -
    have 1: "filepath_Match (ToLower (AppPattern r)) (ToLower a) = Some (ToLower a = ToLower app)"
      using assms(3,4) by (simp add: filepath_Match_plain)
    have 2: "filepath_Match (ToLower (star @ w @ star)) (ToLower t) =
        Some (\<exists>u v. ToLower t = u @ w @ v \<and> separator \<notin> set u \<and> separator \<notin> set v)"
      unfolding pat by (rule filepath_Match_starred [OF assms(2)])
    show ?thesis
      by (simp add: matchesRule_def 1 2 assms(5) del: ToLower_append split: bool.split)
  qed
  have sep: "separator \<notin> set (ToLower title)" if "separator \<notin> set title"
  proof
    assume "separator \<in> set (ToLower title)"
    then obtain c where c: "c \<in> set title" "lower_char c = separator" by (auto simp: ToLower_def)
    have "(of_char (lower_char c) :: nat) = 47" using c(2) by (simp add: separator_def)
    moreover have "(of_char (lower_char c) :: nat) = of_char c + 32" if "CHR ''A'' \<le> c \<and> c \<le> CHR ''Z''"
      using that by (simp add: lower_char_def less_eq_char_def)
    ultimately have "\<not> (CHR ''A'' \<le> c \<and> c \<le> CHR ''Z'')"
      by (auto simp: less_eq_char_def)
    then have "c = separator" using c(2) lower_char_fixed by simp
    then show False using c that by simp
  qed
  obtain u v where "ToLower title = u @ w @ v" using word_piece [OF assms(1)] by blast
  then show ?thesis using match sep by auto
qed

lemma learned_rule_matches_witness:
  "matchesRule \<lparr>CtxApp = ''Code'', CtxTitle = ''main.go - Trasker''\<rparr>
     (rule_b\<lparr>TitlePattern := Some (star @ ''trasker'' @ star)\<rparr>)"
proof -
  have "list_all plain ''trasker''" "list_all plain (ToLower ''Code'')" "ToLower ''Code'' = ''code''"
    "separator \<notin> set ''main.go - Trasker''"
    by (code_simp, code_simp, code_simp, simp add: separator_def)
  then show ?thesis
    by (intro learned_rule_matches [of "''trasker''" "''main.go - Trasker''" "''Code''",
          THEN conjunct2, THEN mp]) (simp_all add: ob1_words rule_b_def)
qed

text \<open>
  A title with a slash can teach a rule that does not match the very title: the words are
  split at slashes, and the star of the pattern does not reach over one.
\<close>

theorem learned_rule_misses_slash:
  "\<exists>title w. w \<in> set (extractSignificantWords title) \<and>
     \<not> matchesRule \<lparr>CtxApp = ''Code'', CtxTitle = title\<rparr>
         (rule_b\<lparr>TitlePattern := Some (star @ w @ star)\<rparr>)"
proof (intro exI conjI)
  show "''main.go'' \<in> set (extractSignificantWords ''src/main.go'')" by code_simp
  show "\<not> matchesRule \<lparr>CtxApp = ''Code'', CtxTitle = ''src/main.go''\<rparr>
         (rule_b\<lparr>TitlePattern := Some (star @ ''main.go'' @ star)\<rparr>)"
    by code_simp
qed

end
