(* ===== verification/Submit.thy ===== *)
theory Submit
  imports Client_Store
begin

text \<open>
  The submission flow of the client (\<^verbatim>\<open>internal/client/sync/submit.go\<close>): loading events with
  their tags and notes, aggregating them by tag, and recording a submission.

  A Go map is iterated in an unspecified order: the functions that do so take the order as the
  argument \<open>rng\<close>, a function on the list of the keys in order of first occurrence, of which the
  theorems assume that it permutes. \<^verbatim>\<open>sort.Slice\<close> leaves the order of equal elements open;
  here it is the stable sort.
\<close>

section \<open>Joins\<close>

definition left_join :: "'a list \<Rightarrow> 'a option list" where
  "left_join xs = (if xs = [] then [None] else map Some xs)"

text \<open>
  The rows of \<^verbatim>\<open>LEFT JOIN event_tags LEFT JOIN tags LEFT JOIN notes\<close> for one event: the name of
  a tag ('Untagged' where there is none) and a note.
\<close>

definition tag_names :: "client_tables \<Rightarrow> rowid \<Rightarrow> string list" where
  "tag_names d e =
     concat (map (\<lambda>et. case et of
         None \<Rightarrow> [''Untagged'']
       | Some r \<Rightarrow> map (\<lambda>t. case t of None \<Rightarrow> ''Untagged'' | Some t \<Rightarrow> tag_name t)
           (left_join (filter (\<lambda>t. tag_id t = et_tag r) (tags d))))
       (left_join (filter (\<lambda>r. et_event r = e) (event_tags d))))"

definition event_notes_of :: "client_tables \<Rightarrow> rowid \<Rightarrow> note_row option list" where
  "event_notes_of d e = left_join (filter (\<lambda>n. note_anchor n = e) (event_notes d))"

definition join_rows :: "client_tables \<Rightarrow> focus_row \<Rightarrow> (focus_row \<times> string \<times> note_row option) list" where
  "join_rows d fe =
     concat (map (\<lambda>tag. map (\<lambda>n. (fe, tag, n)) (event_notes_of d (fe_id fe))) (tag_names d (fe_id fe)))"

section \<open>Raw events\<close>

record RawEvent =
  RawID :: rowid
  RawApp :: string
  RawStarted :: gotime
  RawEnded :: gotime
  RawDuration :: int
  RawTag :: string
  RawNote :: string
  RawNoteTime :: "gotime option"

text \<open>Scanning a NULL end or duration into a Go string or int is an error.\<close>

definition scanRaw :: "focus_row \<times> string \<times> note_row option \<Rightarrow> RawEvent option" where
  "scanRaw row = (case row of (fe, tag, n) \<Rightarrow>
     (case (fe_ended fe, fe_duration fe) of
        (Some en, Some dur) \<Rightarrow>
          Some \<lparr>RawID = fe_id fe, RawApp = fe_app fe, RawStarted = parse_rfc3339 (fe_started fe),
                RawEnded = parse_rfc3339 en, RawDuration = dur, RawTag = tag,
                RawNote = (case n of None \<Rightarrow> [] | Some m \<Rightarrow> note_text m),
                RawNoteTime = map_option (\<lambda>m. parse_rfc3339 (note_created m)) n\<rparr>
      | _ \<Rightarrow> None))"

definition LoadEventsForSubmission :: "rowid list \<Rightarrow> RawEvent list client" where
  "LoadEventsForSubmission ids =
     (if ids = [] then ret []
      else stmt ''submit: load events'' (\<lambda>d.
        let raws = map scanRaw (concat (map (join_rows d)
              (order_asc fe_started (filter (\<lambda>fe. fe_id fe \<in> set ids) (focus_events d)))))
        in if None \<in> set raws then Inl (EDb ''submit: scan event'')
           else Inr (map the raws, d)))"

section \<open>Aggregation of raw events\<close>

record AggregatedEntry =
  AggTag :: string
  AggStarted :: gotime
  AggEnded :: gotime
  AggDuration :: int
  AggNotes :: string
  AggSummary :: string
  AggIDs :: "rowid list"

definition two_digits :: "nat \<Rightarrow> string" where
  "two_digits n = [digit (n div 10), digit (n mod 10)]"

text \<open>\<^verbatim>\<open>Format("15:04")\<close> in UTC.\<close>

definition clock_time :: "gotime \<Rightarrow> string" where
  "clock_time t =
     (let m = nat ((t div minute) mod 1440) in two_digits (m div 60) @ '':'' @ two_digits (m mod 60))"

definition newline :: string where "newline = [CHR 0x0A]"

definition raw_note :: "RawEvent \<Rightarrow> string option" where
  "raw_note e =
     (case RawNoteTime e of
        Some t \<Rightarrow> if RawNote e \<noteq> [] then Some (''['' @ clock_time t @ ''] '' @ RawNote e) else None
      | None \<Rightarrow> None)"

definition keys_of :: "('a \<Rightarrow> string) \<Rightarrow> 'a list \<Rightarrow> string list" where
  "keys_of key xs = remdups (map key xs)"

definition app_duration :: "RawEvent list \<Rightarrow> string \<Rightarrow> int" where
  "app_duration events app = (\<Sum>e \<leftarrow> filter (\<lambda>e. RawApp e = app) events. RawDuration e)"

text \<open>Go's integer division truncates; the percentages of the code have positive operands.\<close>

definition go_div :: "int \<Rightarrow> int \<Rightarrow> int" where
  "go_div a b = (if (a < 0) = (b < 0) then \<bar>a\<bar> div \<bar>b\<bar> else - (\<bar>a\<bar> div \<bar>b\<bar>))"

definition app_percents :: "(string list \<Rightarrow> string list) \<Rightarrow> RawEvent list \<Rightarrow> int \<Rightarrow> (string \<times> int) list" where
  "app_percents rng events tot =
     sort_key (\<lambda>p. - snd p) (filter (\<lambda>p. 0 < snd p)
       (map (\<lambda>app. (app, go_div (app_duration events app * 100) tot)) (rng (keys_of RawApp events))))"

definition buildAppSummary :: "(string list \<Rightarrow> string list) \<Rightarrow> RawEvent list \<Rightarrow> int \<Rightarrow> string" where
  "buildAppSummary rng events tot =
     (if tot = 0 then []
      else Join (map (\<lambda>(app, pct). app @ '' ('' @ show_int pct @ ''%)'') (app_percents rng events tot)) '', '')"

definition aggregateGroup :: "(string list \<Rightarrow> string list) \<Rightarrow> string \<Rightarrow> RawEvent list \<Rightarrow> AggregatedEntry" where
  "aggregateGroup rng tag events =
     (let es = sort_key RawStarted events; tot = sum_list (map RawDuration es)
      in \<lparr>AggTag = tag, AggStarted = RawStarted (hd es), AggEnded = RawEnded (last es),
          AggDuration = tot, AggNotes = Join (List.map_filter raw_note es) newline,
          AggSummary = buildAppSummary rng es tot, AggIDs = map RawID es\<rparr>)"

definition aggregateRawEvents :: "(string list \<Rightarrow> string list) \<Rightarrow> RawEvent list \<Rightarrow> AggregatedEntry list" where
  "aggregateRawEvents rng events =
     sort_key AggStarted
       (map (\<lambda>tag. aggregateGroup rng tag (filter (\<lambda>e. RawTag e = tag) events)) (rng (keys_of RawTag events)))"

section \<open>Aggregation of wire entries\<close>

text \<open>The end is \<open>None\<close> where the code has the empty text (an event still open).\<close>

record TimesheetEntry =
  TeTag :: string
  TeStarted :: stamp
  TeEnded :: "stamp option"
  TeDuration :: int
  TeNotes :: string
  TeSummary :: string

definition mergeTimesheetEntries :: "string \<Rightarrow> TimesheetEntry list \<Rightarrow> TimesheetEntry" where
  "mergeTimesheetEntries tag entries =
     (let es = sort_key TeStarted entries
      in \<lparr>TeTag = tag, TeStarted = TeStarted (hd es), TeEnded = TeEnded (last es),
          TeDuration = sum_list (map TeDuration es),
          TeNotes = Join (filter (\<lambda>n. n \<noteq> []) (map TeNotes es)) newline, TeSummary = []\<rparr>)"

definition Aggregate :: "(string list \<Rightarrow> string list) \<Rightarrow> TimesheetEntry list \<Rightarrow> TimesheetEntry list" where
  "Aggregate rng entries =
     (if entries = [] then entries
      else sort_key TeStarted
        (map (\<lambda>tag. mergeTimesheetEntries tag (filter (\<lambda>e. TeTag e = tag) entries))
          (rng (keys_of TeTag entries))))"

section \<open>Recording a submission\<close>

definition CreateSubmission :: "gotime \<Rightarrow> rowid list \<Rightarrow> rowid client" where
  "CreateSubmission now eventIDs =
     in_tx ''submit: begin tx'' ''submit: commit''
       (bindM (insert_submission ''submit: insert submission'' (rfc3339 now)) (\<lambda>subID.
        bindM (query ''submit: prepare'' (\<lambda>_. ())) (\<lambda>_.
        bindM (forM eventIDs (LinkEventToSubmission subID)) (\<lambda>_.
        ret subID))))"

section \<open>Lemmas on groups\<close>

lemma sort_key_ne: "xs \<noteq> [] \<Longrightarrow> sort_key k xs \<noteq> []"
  by (metis length_0_conv length_sort)

lemma sum_list_sort_key: "sum_list (map f (sort_key k xs)) = sum_list (map f xs)"
  for f :: "'a \<Rightarrow> int"
  by (metis mset_map mset_sort sum_mset_sum_list)

lemma sum_list_perm: "mset xs = mset ys \<Longrightarrow> sum_list (map f xs) = sum_list (map f ys)"
  for f :: "'a \<Rightarrow> int"
  by (metis mset_map sum_mset_sum_list)

text \<open>Summing over the groups is summing over the list.\<close>

lemma sum_groups_Cons: "distinct ks \<Longrightarrow>
    (\<Sum>k \<leftarrow> ks. \<Sum>x \<leftarrow> filter (\<lambda>x. key x = k) (y # xs). f x) =
    (if key y \<in> set ks then f y else 0) + (\<Sum>k \<leftarrow> ks. \<Sum>x \<leftarrow> filter (\<lambda>x. key x = k) xs. f x)"
  for f :: "'a \<Rightarrow> int"
  by (induction ks) auto

lemma sum_groups:
  fixes f :: "'a \<Rightarrow> int"
  assumes "distinct ks" "key ` set xs \<subseteq> set ks"
  shows "(\<Sum>k \<leftarrow> ks. \<Sum>x \<leftarrow> filter (\<lambda>x. key x = k) xs. f x) = (\<Sum>x \<leftarrow> xs. f x)"
  using assms(2)
proof (induction xs)
  case Nil
  then show ?case by (induction ks) auto
next
  case (Cons x xs)
  then show ?case using sum_groups_Cons [OF assms(1), where key = key and f = f and y = x and xs = xs] by simp
qed

definition permutes_keys :: "(string list \<Rightarrow> string list) \<Rightarrow> bool" where
  "permutes_keys rng = (\<forall>xs. mset (rng xs) = mset xs)"

lemma keys_rng:
  assumes "permutes_keys rng"
  shows "set (rng (keys_of key xs)) = key ` set xs" "distinct (rng (keys_of key xs))"
proof -
  have m: "mset (rng (keys_of key xs)) = mset (keys_of key xs)"
    using assms by (simp add: permutes_keys_def)
  then show "set (rng (keys_of key xs)) = key ` set xs"
    by (metis keys_of_def mset_eq_setD set_map set_remdups)
  show "distinct (rng (keys_of key xs))"
    using m by (metis keys_of_def distinct_remdups mset_eq_imp_distinct_iff)
qed

lemma sorted_hd_le: "xs \<noteq> [] \<Longrightarrow> x \<in> set xs \<Longrightarrow> k (hd (sort_key k xs)) \<le> k x"
proof -
  assume x: "xs \<noteq> []" "x \<in> set xs"
  obtain y ys where y: "sort_key k xs = y # ys" using sort_key_ne [OF x(1)] by (meson neq_Nil_conv)
  have "x \<in> set (y # ys)" using x(2) by (simp flip: y)
  moreover have "sorted (map k (y # ys))" by (simp flip: y)
  ultimately show ?thesis using y by auto
qed

section \<open>Properties\<close>

text \<open>
  C21: Aggregating wire entries keeps the total duration, gives exactly one entry per tag that
  occurs, each with the total of its tag and starting at its earliest start, sorted by start; so
  whatever order the map is iterated in, no time is lost or counted twice by the aggregation.
\<close>

theorem aggregate_preserves_durations:
  assumes "permutes_keys rng"
  shows "sum_list (map TeDuration (Aggregate rng es)) = sum_list (map TeDuration es) \<and>
    distinct (map TeTag (Aggregate rng es)) \<and>
    TeTag ` set (Aggregate rng es) = TeTag ` set es \<and>
    sorted (map TeStarted (Aggregate rng es)) \<and>
    (\<forall>a \<in> set (Aggregate rng es).
       TeDuration a = (\<Sum>e \<leftarrow> filter (\<lambda>e. TeTag e = TeTag a) es. TeDuration e) \<and>
       (\<forall>e \<in> set es. TeTag e = TeTag a \<longrightarrow> TeStarted a \<le> TeStarted e))"
proof (cases "es = []")
  case False
  let ?ks = "rng (keys_of TeTag es)"
  let ?g = "\<lambda>tag. filter (\<lambda>e. TeTag e = tag) es"
  let ?m = "\<lambda>tag. mergeTimesheetEntries tag (?g tag)"
  have agg: "Aggregate rng es = sort_key TeStarted (map ?m ?ks)" using False by (simp add: Aggregate_def)
  note ks = keys_rng [OF assms, of TeTag es]
  have tag: "TeTag (?m k) = k" for k by (simp add: mergeTimesheetEntries_def Let_def)
  have dur: "TeDuration (?m k) = (\<Sum>e \<leftarrow> ?g k. TeDuration e)" for k
    by (simp add: mergeTimesheetEntries_def Let_def sum_list_sort_key)
  have start: "TeStarted (?m (TeTag e)) \<le> TeStarted e" if "e \<in> set es" for e
    using that sorted_hd_le [of "?g (TeTag e)" e TeStarted]
    by (auto simp: mergeTimesheetEntries_def Let_def filter_empty_conv)
  have "sum_list (map TeDuration (Aggregate rng es)) = (\<Sum>k \<leftarrow> ?ks. \<Sum>e \<leftarrow> ?g k. TeDuration e)"
    by (simp add: agg sum_list_sort_key comp_def dur)
  also have "\<dots> = sum_list (map TeDuration es)"
    using ks by (intro sum_groups) auto
  finally have "sum_list (map TeDuration (Aggregate rng es)) = sum_list (map TeDuration es)" .
  moreover have "distinct (map TeTag (Aggregate rng es))"
  proof -
    have "mset (map TeTag (Aggregate rng es)) = mset ?ks"
      by (simp add: agg tag image_mset.compositionality comp_def)
    then show ?thesis using ks(2) mset_eq_imp_distinct_iff by blast
  qed
  moreover have "TeTag ` set (Aggregate rng es) = TeTag ` set es"
    by (simp add: agg image_image tag ks)
  moreover have "sorted (map TeStarted (Aggregate rng es))" by (simp add: agg)
  moreover have "\<forall>a \<in> set (Aggregate rng es).
       TeDuration a = (\<Sum>e \<leftarrow> ?g (TeTag a). TeDuration e) \<and>
       (\<forall>e \<in> set es. TeTag e = TeTag a \<longrightarrow> TeStarted a \<le> TeStarted e)"
    using start by (auto simp: agg tag dur)
  ultimately show ?thesis by blast
qed (simp add: Aggregate_def)

definition te :: "string \<Rightarrow> stamp \<Rightarrow> int \<Rightarrow> TimesheetEntry" where
  "te tag t dur = \<lparr>TeTag = tag, TeStarted = t, TeEnded = Some (t + dur), TeDuration = dur, TeNotes = [], TeSummary = []\<rparr>"

lemma aggregate_preserves_durations_witness:
  "sum_list (map TeDuration (Aggregate rev [te ''A'' 0 60, te ''B'' 100 30, te ''A'' 200 5])) = 95"
  using aggregate_preserves_durations [of rev "[te ''A'' 0 60, te ''B'' 100 30, te ''A'' 200 5]"]
  by (simp add: permutes_keys_def te_def)

lemma links_frame: "wp (forM ids (LinkEventToSubmission i))
    (\<lambda>_ s'. tables s' = tables s\<lparr>submission_events := submission_events (tables s) @ map (Pair i) ids\<rparr>)
    (\<lambda>_ s'. True) s"
proof (induction ids arbitrary: s)
  case Nil
  then show ?case by (simp add: wp_ret)
next
  case (Cons e ids)
  have link: "wp (LinkEventToSubmission i e)
      (\<lambda>_ s1. tables s1 = tables s\<lparr>submission_events := submission_events (tables s) @ [(i, e)]\<rparr>)
      (\<lambda>_ _. True) s"
    by (simp add: LinkEventToSubmission_def wp_stmt)
  show ?case
    unfolding forM.simps wp_bindM
  proof (rule wp_mono [OF link])
    fix x :: unit and s1 :: "client_tables db"
    assume s1: "tables s1 = tables s\<lparr>submission_events := submission_events (tables s) @ [(i, e)]\<rparr>"
    show "wp (forM ids (LinkEventToSubmission i))
      (\<lambda>_ s'. tables s' = tables s\<lparr>submission_events := submission_events (tables s) @ map (Pair i) (e # ids)\<rparr>)
      (\<lambda>_ _. True) s1"
      by (rule wp_mono [OF Cons.IH [of s1]]) (simp_all add: s1)
  qed simp
qed

lemma create_submission_effect:
  "case CreateSubmission now ids s of
     (Inl e, s') \<Rightarrow> tables s' = tables s
   | (Inr i, s') \<Rightarrow> i \<notin> sub_id ` set (submissions (tables s)) \<and>
       tables s' = tables s
         \<lparr>submissions := submissions (tables s) @
            [new_submission i (rfc3339 now)],
          submission_events := submission_events (tables s) @ map (Pair i) ids\<rparr>"
proof (cases "CreateSubmission now ids s")
  case (Pair r s')
  show ?thesis
  proof (cases r)
    case (Inl e)
    then show ?thesis using Pair in_tx_rollback by (auto simp: CreateSubmission_def)
  next
    case (Inr i)
    let ?s = "s\<lparr>ticks := Suc (ticks s)\<rparr>"
    let ?m = "bindM (insert_submission ''submit: insert submission'' (rfc3339 now)) (\<lambda>subID.
        bindM (query ''submit: prepare'' (\<lambda>_. ())) (\<lambda>_.
        bindM (forM ids (LinkEventToSubmission subID)) (\<lambda>_. ret subID)))"
    obtain s1 where s1: "?m ?s = (Inr i, s1)" "tables s' = tables s1"
      using Pair Inr in_tx_ok [of _ _ ?m s i s'] by (auto simp: CreateSubmission_def)
    let ?new = "next_rowid (map sub_id (submissions (tables s)))"
    have "wp (forM ids (LinkEventToSubmission ?new))
        (\<lambda>_ s2. tables s2 = tables s\<lparr>submissions := submissions (tables s) @ [new_submission ?new (rfc3339 now)],
            submission_events := submission_events (tables s) @ map (Pair ?new) ids\<rparr>) (\<lambda>_ _. True) s2"
      if "tables s2 = tables s\<lparr>submissions := submissions (tables s) @ [new_submission ?new (rfc3339 now)]\<rparr>" for s2
      by (rule wp_mono [OF links_frame]) (simp_all add: that)
    then have "wp ?m (\<lambda>j s2. j = ?new \<and> tables s2 = tables s\<lparr>submissions := submissions (tables s) @
          [new_submission ?new (rfc3339 now)],
        submission_events := submission_events (tables s) @ map (Pair ?new) ids\<rparr>) (\<lambda>_ _. True) ?s"
      by (simp add: wp_bindM insert_submission_def wp_stmt wp_query wp_ret Let_def)
    from wpD_ok [OF this s1(1)] show ?thesis
      using Pair Inr s1(2) next_rowid_notin [of "map sub_id (submissions (tables s))"]
      by simp
  qed
qed

text \<open>
  C36: Creating a submission is all or nothing under any failures: on an error the tables are
  as before; on success there is one new pending submission with a fresh id, not yet
  retried, linked to exactly the given events, and nothing else has changed.
\<close>

theorem create_submission_atomic:
  "case CreateSubmission now ids s of
     (Inl e, s') \<Rightarrow> tables s' = tables s
   | (Inr i, s') \<Rightarrow> i \<notin> sub_id ` set (submissions (tables s)) \<and>
       tables s' = tables s
         \<lparr>submissions := submissions (tables s) @
            [\<lparr>sub_id = i, sub_server_id = None, sub_submitted = rfc3339 now, sub_status = ''pending'',
              sub_retries = 0, sub_last_retry = None\<rparr>],
          submission_events := submission_events (tables s) @ map (Pair i) ids\<rparr>"
  using create_submission_effect [where now = now and ids = ids and s = s] by (simp add: new_submission_def split: prod.splits sum.splits)

lemma keeps_CreateSubmission [keeps_rules]: "keeps store_inv (CreateSubmission now ids)"
  unfolding CreateSubmission_def by (intro keeps_rules)

end
