(* ===== verification/Auto_Submit.thy ===== *)
theory Auto_Submit
  imports Submit
begin

text \<open>
  Auto-submit (\<^verbatim>\<open>internal/client/autosubmit/autosubmit.go\<close>): the persisted settings and the pass
  that submits finished, tagged, not yet submitted events once per interval.
\<close>

section \<open>Settings\<close>

definition ValidInterval :: "int \<Rightarrow> bool" where
  "ValidInterval h = (h \<in> {0, 1, 2, 4, 6, 8, 12, 24})"

record Settings =
  IntervalHours :: int
  TagIDs :: "rowid list"
  EnabledAt :: "gotime option"
  LastRun :: "gotime option"

definition Enabled :: "Settings \<Rightarrow> bool" where
  "Enabled st = (0 < IntervalHours st \<and> EnabledAt st \<noteq> None)"

definition NextRun :: "Settings \<Rightarrow> gotime option" where
  "NextRun st =
     (if \<not> Enabled st then None
      else case LastRun st of None \<Rightarrow> None | Some l \<Rightarrow> Some (l + IntervalHours st * hour))"

definition Load :: "Settings client" where
  "Load =
     bindM (query ''auto-submit: load config'' auto_config) (\<lambda>row.
     bindM (query ''auto-submit: load tags'' (\<lambda>d. order_asc (\<lambda>i. i) (auto_tags d))) (\<lambda>ids.
     ret (case row of
            None \<Rightarrow> \<lparr>IntervalHours = 0, TagIDs = ids, EnabledAt = None, LastRun = None\<rparr>
          | Some r \<Rightarrow> \<lparr>IntervalHours = as_hours r, TagIDs = ids,
              EnabledAt = map_option parse_rfc3339 (as_enabled r),
              LastRun = map_option parse_rfc3339 (as_last_run r)\<rparr>)))"

text \<open>The upsert of the configuration row.\<close>

definition upsert_config :: "int \<Rightarrow> stamp \<Rightarrow> auto_row option \<Rightarrow> auto_row" where
  "upsert_config h now old =
     (let ex_enabled = (if 0 < h then Some now else None);
          ex_last = (if 0 < h then Some now else None)
      in case old of
           None \<Rightarrow> \<lparr>as_hours = h, as_enabled = ex_enabled, as_last_run = ex_last\<rparr>
         | Some r \<Rightarrow> \<lparr>as_hours = h,
             as_enabled = (if h = 0 then None
                           else case as_enabled r of Some e \<Rightarrow> Some e | None \<Rightarrow> ex_enabled),
             as_last_run = (if h = 0 then None
                            else if as_enabled r = None then ex_last else as_last_run r)\<rparr>)"

definition insert_auto_tag :: "rowid \<Rightarrow> unit client" where
  "insert_auto_tag i =
     bindM (stmt ''auto-submit: save tag'' (\<lambda>d.
       if \<not> has_tag d i then Inr (0 :: nat, d)
       else if i \<in> set (auto_tags d) then Inl (EConstraint ''UNIQUE auto_submit_tags.tag_id'')
       else Inr (1, d\<lparr>auto_tags := auto_tags d @ [i]\<rparr>)))
     (\<lambda>n. if n = 0 then throw (EUnknownTag i) else ret ())"

definition Save :: "int \<Rightarrow> rowid list \<Rightarrow> gotime \<Rightarrow> unit client" where
  "Save h tagIDs now =
     (if \<not> ValidInterval h then throw (EInterval h)
      else in_tx ''auto-submit: begin'' ''auto-submit: commit''
        (bindM (stmt ''auto-submit: save config'' (\<lambda>d.
             Inr ((), d\<lparr>auto_config := Some (upsert_config h (rfc3339 now) (auto_config d))\<rparr>))) (\<lambda>_.
         bindM (stmt ''auto-submit: clear tags'' (\<lambda>d. Inr ((), d\<lparr>auto_tags := []\<rparr>))) (\<lambda>_.
         forM tagIDs insert_auto_tag))))"

section \<open>A pass\<close>

text \<open>The query of the eligible events.\<close>

definition eligible :: "client_tables \<Rightarrow> stamp \<Rightarrow> focus_row \<Rightarrow> bool" where
  "eligible d cutoff fe =
     (\<not> fe_idle fe \<and> fe_ended fe \<noteq> None \<and> cutoff \<le> fe_started fe \<and> \<not> submitted d (fe_id fe) \<and>
      (\<exists>et \<in> set (event_tags d). et_event et = fe_id fe \<and> et_tag et \<in> set (auto_tags d)))"

definition eligible_ids :: "client_tables \<Rightarrow> stamp \<Rightarrow> rowid list" where
  "eligible_ids d cutoff =
     order_asc (\<lambda>i. i) (remdups (map fe_id (filter (eligible d cutoff) (focus_events d))))"

definition eligibleEvents :: "gotime \<Rightarrow> rowid list client" where
  "eligibleEvents cutoff = query ''auto-submit: query events'' (\<lambda>d. eligible_ids d (rfc3339 cutoff))"

definition record_run :: "stamp \<Rightarrow> unit client" where
  "record_run now =
     stmt ''auto-submit: record run'' (\<lambda>d.
       Inr ((), d\<lparr>auto_config := map_option (as_last_run_update (\<lambda>_. Some now)) (auto_config d)\<rparr>))"

text \<open>
  \<open>RunOnce\<close> returns the submission (0 for none) and the number of events. The time its
  submission is stamped with is read from the clock inside \<open>CreateSubmission\<close> (\<open>clock\<close>).
\<close>

definition RunOnce :: "gotime \<Rightarrow> gotime \<Rightarrow> (rowid \<times> nat) client" where
  "RunOnce now clock =
     bindM Load (\<lambda>st.
       if \<not> Enabled st \<or> TagIDs st = [] then ret (0, 0)
       else if (case NextRun st of Some next \<Rightarrow> now < next | None \<Rightarrow> False) then ret (0, 0)
       else
         bindM (eligibleEvents (the (EnabledAt st))) (\<lambda>ids.
         bindM (if ids \<noteq> [] then CreateSubmission clock ids else ret 0) (\<lambda>subID.
         bindM (record_run (rfc3339 now)) (\<lambda>_.
         ret (subID, length ids)))))"

text \<open>\<open>Run\<close> until the context is cancelled: the passes at the given ticks; errors are logged.\<close>

definition RunTicks :: "(gotime \<times> gotime) list \<Rightarrow> unit client" where
  "RunTicks turns = forM turns (\<lambda>(now, clock). logged (RunOnce now clock))"

section \<open>Invariants\<close>

lemma keeps_auto [keeps_rules]:
  "keeps store_inv Load" "keeps store_inv (Save h ids now)" "keeps store_inv (RunOnce now clock)"
  "keeps store_inv (RunTicks turns)"
proof -
  show load: "keeps store_inv Load" unfolding Load_def by (intro keeps_rules)
  have cfg: "store_inv (d\<lparr>auto_config := c\<rparr>) = store_inv d" for d c
    by (simp add: store_inv_defs)
  have tags: "store_inv d \<Longrightarrow> store_inv (d\<lparr>auto_tags := []\<rparr>)" for d
    by (simp add: store_inv_defs)
  have tag: "keeps store_inv (insert_auto_tag i)" for i
    unfolding insert_auto_tag_def
    by (intro keeps_rules keeps_stmt) (auto simp: store_inv_defs split: if_splits)
  show "keeps store_inv (Save h ids now)"
    unfolding Save_def by (intro keeps_rules keeps_stmt tag) (auto simp: cfg tags)
  have "keeps store_inv (record_run t)" for t
    unfolding record_run_def by (intro keeps_stmt) (auto simp: cfg)
  then show run: "keeps store_inv (RunOnce now clock)" for now clock
    unfolding RunOnce_def eligibleEvents_def by (intro keeps_rules load)
  show "keeps store_inv (RunTicks turns)"
    unfolding RunTicks_def by (intro keeps_rules run)
qed

text \<open>No event is in two submissions.\<close>

definition once_submitted :: "client_tables \<Rightarrow> bool" where
  "once_submitted d = distinct (map snd (submission_events d))"

lemma submitted_iff: "submitted d e \<longleftrightarrow> e \<in> snd ` set (submission_events d)"
  by (auto simp: submitted_def affected_def filter_empty_conv)

lemma set_eligible_ids: "set (eligible_ids d c) = fe_id ` {fe \<in> set (focus_events d). eligible d c fe}"
  by (auto simp: eligible_ids_def set_order)

lemma distinct_eligible_ids: "distinct (eligible_ids d c)"
  by (simp add: eligible_ids_def order_asc_def)

text \<open>What a pass does to the tables, whatever fails.\<close>

lemma CreateSubmission_wp:
  "wp (CreateSubmission now ids)
     (\<lambda>i s'. i \<notin> sub_id ` set (submissions (tables s)) \<and> tables s' = tables s
         \<lparr>submissions := submissions (tables s) @ [new_submission i (rfc3339 now)],
          submission_events := submission_events (tables s) @ map (Pair i) ids\<rparr>)
     (\<lambda>_ s'. tables s' = tables s) s"
  using create_submission_effect [where now = now and ids = ids and s = s]
  by (auto simp: wp_def split: prod.splits sum.splits)

lemma once_submitted_add:
  assumes "once_submitted d" "distinct ids" "\<forall>e \<in> set ids. \<not> submitted d e"
  shows "once_submitted (d\<lparr>submissions := subs, submission_events := submission_events d @ map (Pair i) ids\<rparr>)"
  using assms by (auto simp: once_submitted_def submitted_iff comp_def)

definition auto_ok :: "client_tables \<Rightarrow> client_tables \<Rightarrow> bool" where
  "auto_ok d d' =
     (once_submitted d' \<and> (\<forall>e. submitted d' e \<and> \<not> submitted d e \<longrightarrow>
        (\<exists>cfg t fe. auto_config d = Some cfg \<and> 0 < as_hours cfg \<and> as_enabled cfg = Some t \<and>
           fe \<in> set (focus_events d) \<and> fe_id fe = e \<and> eligible d t fe)))"

lemma auto_ok_refl: "once_submitted d \<Longrightarrow> auto_ok d d"
  by (simp add: auto_ok_def)

lemma auto_ok_config [simp]: "auto_ok d (d'\<lparr>auto_config := c\<rparr>) = auto_ok d d'"
  by (simp add: auto_ok_def once_submitted_def submitted_def)

lemma auto_ok_create:
  assumes "once_submitted d" "auto_config d = Some c" "0 < as_hours c" "as_enabled c = Some t"
  shows "auto_ok d (d\<lparr>submissions := subs,
      submission_events := submission_events d @ map (Pair i) (eligible_ids d t)\<rparr>)" (is "auto_ok d ?d'")
proof -
  have new: "e \<in> fe_id ` {fe \<in> set (focus_events d). eligible d t fe}" if "e \<in> set (eligible_ids d t)" for e
    using that by (simp add: set_eligible_ids)
  have "once_submitted ?d'"
    using assms(1) distinct_eligible_ids new
    by (intro once_submitted_add) (auto simp: eligible_def)
  moreover have "e \<in> set (eligible_ids d t)" if "submitted ?d' e" "\<not> submitted d e" for e
    using that by (auto simp: submitted_iff)
  ultimately show ?thesis using new assms(2-4) unfolding auto_ok_def by blast
qed

lemma RunOnce_wp:
  assumes "once_submitted (tables s)"
  shows "wp (RunOnce now clock) (\<lambda>_ s'. auto_ok (tables s) (tables s'))
     (\<lambda>_ s'. auto_ok (tables s) (tables s')) s"
proof -
  let ?d = "tables s"
  let ?ok = "\<lambda>_ s'. auto_ok ?d (tables s')"
  have refl: "auto_ok ?d ?d" using assms by (rule auto_ok_refl)
  have rec: "wp (record_run t) ?ok ?ok s1" if "auto_ok ?d (tables s1)" for t s1
    using that by (simp add: record_run_def wp_stmt)
  have pass: "wp (CreateSubmission clock (eligible_ids ?d t))
      (\<lambda>x. wp (record_run (rfc3339 now)) ?ok ?ok) ?ok s1"
    if "tables s1 = ?d" "auto_config ?d = Some c" "0 < as_hours c" "as_enabled c = Some t" for s1 c t
  proof (rule wp_mono [OF CreateSubmission_wp])
    fix i and s2 :: "client_tables db"
    assume "i \<notin> sub_id ` set (submissions (tables s1)) \<and> tables s2 = tables s1
         \<lparr>submissions := submissions (tables s1) @ [new_submission i (rfc3339 clock)],
          submission_events := submission_events (tables s1) @ map (Pair i) (eligible_ids ?d t)\<rparr>"
    then show "wp (record_run (rfc3339 now)) ?ok ?ok s2"
      using auto_ok_create [OF assms that(2-4)] that(1) by (intro rec) simp
  qed (use refl that(1) in simp)
  show ?thesis
    unfolding RunOnce_def Load_def eligibleEvents_def
    using refl
    by (auto simp: wp_bindM wp_query wp_ret Enabled_def NextRun_def intro: pass rec split: option.splits)
qed

section \<open>Properties\<close>

text \<open>
  C2: A pass never submits an event twice, whatever statement fails: if no event was in two
  submissions before it, none is after it, and every event it has submitted was finished, not
  idle, not submitted, carried a ticked tag and started at or after the time auto-submit was
  enabled, which it was.
\<close>

theorem auto_submit_safe:
  assumes "once_submitted (tables s)"
  shows "let d = tables s; d' = tables (snd (RunOnce now clock s)) in
     once_submitted d' \<and>
     (\<forall>e. submitted d' e \<and> \<not> submitted d e \<longrightarrow>
        (\<exists>cfg t fe. auto_config d = Some cfg \<and> 0 < as_hours cfg \<and> as_enabled cfg = Some t \<and>
           fe \<in> set (focus_events d) \<and> fe_id fe = e \<and> eligible d t fe))"
proof -
  have "auto_ok (tables s) (tables (snd (RunOnce now clock s)))"
    using RunOnce_wp [OF assms, of now clock] by (auto simp: wp_def split: prod.splits sum.splits)
  then show ?thesis by (simp add: auto_ok_def Let_def)
qed

definition auto_store :: client_tables where
  "auto_store = empty_store\<lparr>
     focus_events := [\<lparr>fe_id = 1, fe_app = ''vim'', fe_title = ''a'', fe_started = 100, fe_ended = Some 200,
         fe_duration = Some 100, fe_idle = False, fe_created = 100\<rparr>,
       \<lparr>fe_id = 2, fe_app = ''vim'', fe_title = ''b'', fe_started = 10, fe_ended = Some 20,
         fe_duration = Some 10, fe_idle = False, fe_created = 10\<rparr>],
     tags := [\<lparr>tag_id = 1, tag_name = ''A'', tag_color = [], tag_created = 0\<rparr>],
     event_tags := [\<lparr>et_event = 1, et_tag = 1, et_source = Manual, et_cascade_from = None\<rparr>,
       \<lparr>et_event = 2, et_tag = 1, et_source = Manual, et_cascade_from = None\<rparr>],
     auto_config := Some \<lparr>as_hours = 1, as_enabled = Some 50, as_last_run = Some 50\<rparr>,
     auto_tags := [1]\<rparr>"

lemma auto_store_run: "\<exists>s'. RunOnce (hour + 60 * second) 0 (healthy auto_store) = (Inr (1, 1), s') \<and>
    submission_events (tables s') = [(1, 1)] \<and> auto_config (tables s') =
      Some \<lparr>as_hours = 1, as_enabled = Some 50, as_last_run = Some 3660\<rparr>"
  by (simp add: RunOnce_def Load_def bindM_def query_def stmt_def auto_store_def empty_store_def
      order_asc_def ret_def Enabled_def NextRun_def hour_def minute_def second_def parse_rfc3339_def
      rfc3339_def eligibleEvents_def eligible_ids_def eligible_def submitted_def affected_def Let_def
      CreateSubmission_def in_tx_def insert_submission_def next_rowid_def new_submission_def
      LinkEventToSubmission_def fk_ok_def has_submission_def has_event_def record_run_def)

lemma auto_submit_safe_witness:
  "submission_events (tables (snd (RunOnce (hour + 60 * second) 0 (healthy auto_store)))) = [(1, 1)] \<and>
   (\<exists>fe \<in> set (focus_events auto_store). fe_id fe = 1 \<and> eligible auto_store 50 fe)"
proof -
  have inv: "once_submitted (tables (healthy auto_store))" and none: "\<not> submitted auto_store 1"
    by (simp_all add: auto_store_def once_submitted_def empty_store_def submitted_def affected_def)
  have run: "submission_events (tables (snd (RunOnce (hour + 60 * second) 0 (healthy auto_store)))) = [(1, 1)]"
    using auto_store_run by auto
  then have "submitted (tables (snd (RunOnce (hour + 60 * second) 0 (healthy auto_store)))) 1"
    by (simp add: submitted_iff)
  with auto_submit_safe [OF inv, of "hour + 60 * second" 0] none run show ?thesis
    by (fastforce simp: Let_def auto_store_def)
qed

end
