(* ===== verification/Sync_Client.thy ===== *)
theory Sync_Client
  imports Submit
begin

text \<open>
  The HTTP client of the daemon (\<^verbatim>\<open>internal/client/sync/client.go\<close>): the classification of the
  server's replies. What the transport does is an argument: a reply is \<open>NoResponse\<close> where the
  request or the reading of its body fails, and a status with a body otherwise.
\<close>

datatype http = NoResponse | Response int body

datatype sync_error =
    ErrKeyExpired
  | ErrKeyRevoked
  | ErrKeyInvalid
  | ErrPermissionDenied
  | ErrorResponse int string
  | OtherError

record DeviceRegistration =
  RegClientID :: string
  RegOS :: string
  RegHostname :: string

record TimesheetSubmission =
  SubClientDeviceID :: string
  SubEntries :: "TimesheetEntry list"

record TimesheetResponse =
  RespID :: string
  RespSubmittedAt :: string

definition ClassifyAuthError :: "body \<Rightarrow> int \<Rightarrow> sync_error" where
  "ClassifyAuthError b status =
     (let msg = ToLower (string_field ''error'' b)
      in if Contains msg ''expired'' then ErrKeyExpired
         else if Contains msg ''revoked'' then ErrKeyRevoked
         else if status = 403 then ErrPermissionDenied
         else ErrKeyInvalid)"

definition post :: "http \<Rightarrow> sync_error + body" where
  "post r =
     (case r of
        NoResponse \<Rightarrow> Inl OtherError
      | Response status b \<Rightarrow>
          if status = 200 \<or> status = 201 then Inr b
          else if status = 401 then Inl (ClassifyAuthError b 401)
          else if status = 403 then Inl (ClassifyAuthError b 403)
          else if decodes [''message''] [''code''] b \<and> string_field ''message'' b \<noteq> []
          then Inl (ErrorResponse (num_field ''code'' b) (string_field ''message'' b))
          else Inl OtherError)"

definition RegisterDevice :: "http \<Rightarrow> sync_error option" where
  "RegisterDevice r = (case post r of Inl e \<Rightarrow> Some e | Inr _ \<Rightarrow> None)"

definition SubmitTimesheet :: "http \<Rightarrow> sync_error + TimesheetResponse" where
  "SubmitTimesheet r =
     (case post r of
        Inl e \<Rightarrow> Inl e
      | Inr b \<Rightarrow>
          if decodes [''id'', ''submitted_at''] [] b
          then Inr \<lparr>RespID = string_field ''id'' b, RespSubmittedAt = string_field ''submitted_at'' b\<rparr>
          else Inl OtherError)"

definition HealthCheck :: "http \<Rightarrow> bool" where
  "HealthCheck r = (case r of NoResponse \<Rightarrow> False | Response status b \<Rightarrow> status = 200)"

definition permanent :: "sync_error \<Rightarrow> bool" where
  "permanent e = (e \<in> {ErrKeyExpired, ErrKeyRevoked, ErrKeyInvalid, ErrPermissionDenied})"

lemma permanent_simps [simp]:
  "permanent ErrKeyExpired" "permanent ErrKeyRevoked" "permanent ErrKeyInvalid"
  "permanent ErrPermissionDenied" "\<not> permanent (ErrorResponse n m)" "\<not> permanent OtherError"
  by (simp_all add: permanent_def)

lemma ClassifyAuthError_permanent [simp]: "permanent (ClassifyAuthError b status)"
  by (simp add: ClassifyAuthError_def permanent_def Let_def)

lemma post_permanent_iff:
  "(\<exists>e. post r = Inl e \<and> permanent e) \<longleftrightarrow> (\<exists>b. r = Response 401 b \<or> r = Response 403 b)"
  by (auto simp: post_def split: http.splits if_splits)

lemma SubmitTimesheet_permanent_iff:
  "(\<exists>e. SubmitTimesheet r = Inl e \<and> permanent e) \<longleftrightarrow> (\<exists>b. r = Response 401 b \<or> r = Response 403 b)"
  using post_permanent_iff [of r]
  by (auto simp: SubmitTimesheet_def split: sum.splits if_splits)

lemma SubmitTimesheet_accepted:
  "SubmitTimesheet r = Inr resp \<Longrightarrow> \<exists>b. r = Response 200 b \<or> r = Response 201 b"
  by (auto simp: SubmitTimesheet_def post_def split: http.splits sum.splits if_splits)

text \<open>
  The client never reports a key as expired or revoked unless the server's error text says
  so: a 401 or 403 whose error text mentions neither is an invalid key or a lack of permission,
  by status alone, and an unreadable body is treated like an empty text. Whatever the body, a
  401 or 403 is one of the four permanent errors, and nothing else is.
\<close>

theorem auth_errors_classified:
  "(ClassifyAuthError b status = ErrKeyExpired \<longleftrightarrow> Contains (ToLower (string_field ''error'' b)) ''expired'') \<and>
   (ClassifyAuthError b status = ErrKeyRevoked \<longleftrightarrow>
      Contains (ToLower (string_field ''error'' b)) ''revoked'' \<and>
      \<not> Contains (ToLower (string_field ''error'' b)) ''expired'') \<and>
   ClassifyAuthError None 401 = ErrKeyInvalid \<and> ClassifyAuthError None 403 = ErrPermissionDenied \<and>
   ((\<exists>e. SubmitTimesheet r = Inl e \<and> permanent e) \<longleftrightarrow> (\<exists>b. r = Response 401 b \<or> r = Response 403 b))"
proof -
  have "ClassifyAuthError None 401 = ErrKeyInvalid" "ClassifyAuthError None 403 = ErrPermissionDenied"
    by code_simp+
  then show ?thesis
    by (simp add: SubmitTimesheet_permanent_iff) (simp add: ClassifyAuthError_def Let_def)
qed

end
