(* ===== verification/Sync_Queue.thy ===== *)
theory Sync_Queue
  imports Sync_Client
begin

text \<open>
  The upload queue of submissions (\<^verbatim>\<open>internal/client/sync/queue.go\<close>). The world a pass runs in
  is an \<open>env\<close>: the clock, whether the context is done and the server's reply to a payload, at
  every moment. A pass also returns its exchanges with the server (submission, payload, reply),
  which the code does not keep; the theorems speak about them.
\<close>

record 'p env =
  env_now :: "nat \<Rightarrow> gotime"
  env_done :: "nat \<Rightarrow> bool"
  env_post :: "nat \<Rightarrow> 'p \<Rightarrow> http"

section \<open>Backoff\<close>

definition backoffSchedule :: "gotime list" where
  "backoffSchedule = [1 * minute, 5 * minute, 15 * minute, 1 * hour]"

text \<open>Retry counts are not negative (\<open>retries_ok\<close> below); the code would panic on one.\<close>

definition backoffFor :: "int \<Rightarrow> gotime" where
  "backoffFor n = (if n < int (length backoffSchedule) then backoffSchedule ! nat n else 1 * hour)"

lemma backoffFor_eq: "0 \<le> n \<Longrightarrow> backoffFor n =
    (if n = 0 then minute else if n = 1 then 5 * minute else if n = 2 then 15 * minute else hour)"
proof -
  assume n: "0 \<le> n"
  consider "n = 0" | "n = 1" | "n = 2" | "n = 3" | "4 \<le> n" using n by linarith
  then show ?thesis by cases (simp_all add: backoffFor_def backoffSchedule_def)
qed

interpretation submission_retry: retry_policy backoffFor
proof
  show "0 < backoffFor n" if "0 \<le> n" for n
    using that by (simp add: backoffFor_eq minute_def hour_def)
  show "backoffFor m \<le> backoffFor n" if "0 \<le> m" "m \<le> n" for m n
    using that by (simp add: backoffFor_eq minute_def hour_def)
  show "backoffFor n \<le> hour" if "0 \<le> n" for n
    using that by (simp add: backoffFor_eq minute_def hour_def)
qed

section \<open>A pass\<close>

record PendingSubmission =
  PendID :: rowid
  PendStatus :: string
  PendRetries :: int
  PendLastRetry :: "gotime option"

definition scanPending :: "submission_row \<Rightarrow> PendingSubmission" where
  "scanPending r = \<lparr>PendID = sub_id r, PendStatus = sub_status r, PendRetries = sub_retries r,
     PendLastRetry = map_option parse_rfc3339 (sub_last_retry r)\<rparr>"

definition not_due :: "gotime \<Rightarrow> PendingSubmission \<Rightarrow> bool" where
  "not_due now p = (case PendLastRetry p of None \<Rightarrow> False
     | Some l \<Rightarrow> now < l + backoffFor (PendRetries p))"

definition listDueSubmissions :: "'p env \<Rightarrow> PendingSubmission list client" where
  "listDueSubmissions env =
     bindM (query ''queue: list pending'' (\<lambda>d. map scanPending (pending_rows d))) (\<lambda>ps.
     bindM (sample (env_now env)) (\<lambda>now.
     ret (filter (\<lambda>p. \<not> not_due now p) ps)))"

text \<open>The rows of the query of \<open>loadSubmissionEntries\<close>, scanned: a NULL end is the empty text.\<close>

definition submission_entries :: "client_tables \<Rightarrow> rowid \<Rightarrow> TimesheetEntry list" where
  "submission_entries d sid =
     map (\<lambda>(fe, tag, n). \<lparr>TeTag = tag, TeStarted = fe_started fe, TeEnded = fe_ended fe,
            TeDuration = (case fe_duration fe of None \<Rightarrow> 0 | Some x \<Rightarrow> x),
            TeNotes = (case n of None \<Rightarrow> [] | Some m \<Rightarrow> note_text m), TeSummary = []\<rparr>)
       (concat (map (join_rows d)
         (order_asc fe_started
           (concat (map (\<lambda>(_, e). filter (\<lambda>fe. fe_id fe = e) (focus_events d))
              (filter (\<lambda>(i, _). i = sid) (submission_events d)))))))"

definition loadSubmissionEntries :: "rowid \<Rightarrow> TimesheetEntry list client" where
  "loadSubmissionEntries sid = query ''queue: load entries'' (\<lambda>d. submission_entries d sid)"

definition updateStatus :: "rowid \<Rightarrow> string \<Rightarrow> string option \<Rightarrow> unit client" where
  "updateStatus i st server =
     stmt ''update submission status'' (\<lambda>d. Inr ((), d\<lparr>submissions :=
       sql_update (\<lambda>r. sub_id r = i) (status_row st server) (submissions d)\<rparr>))"

definition bump_row :: "int \<Rightarrow> stamp \<Rightarrow> submission_row \<Rightarrow> submission_row" where
  "bump_row n t r = r\<lparr>sub_retries := n + 1, sub_last_retry := Some t\<rparr>"

definition bumpRetry :: "'p env \<Rightarrow> rowid \<Rightarrow> int \<Rightarrow> unit client" where
  "bumpRetry env i n =
     bindM (sample (env_now env)) (\<lambda>now.
     stmt ''bump retry'' (\<lambda>d. Inr ((), d\<lparr>submissions :=
       sql_update (\<lambda>r. sub_id r = i) (bump_row n (rfc3339 now)) (submissions d)\<rparr>)))"

type_synonym exchange = "rowid \<times> TimesheetSubmission \<times> http"

definition processOne :: "TimesheetSubmission env \<Rightarrow> (string list \<Rightarrow> string list) \<Rightarrow> string \<Rightarrow>
    PendingSubmission \<Rightarrow> exchange list client" where
  "processOne env rng deviceID p =
     bindM (attempt (loadSubmissionEntries (PendID p))) (\<lambda>r.
     case r of
       Inl _ \<Rightarrow> ret []
     | Inr entries \<Rightarrow>
         if entries = [] then bindM (logged (updateStatus (PendID p) ''confirmed'' None)) (\<lambda>_. ret [])
         else
           let sub = \<lparr>SubClientDeviceID = deviceID, SubEntries = Aggregate rng entries\<rparr> in
           bindM (sample (\<lambda>k. env_post env k sub)) (\<lambda>reply.
           bindM (case SubmitTimesheet reply of
                    Inl e \<Rightarrow> if permanent e then ret () else logged (bumpRetry env (PendID p) (PendRetries p))
                  | Inr resp \<Rightarrow> logged (updateStatus (PendID p) ''confirmed'' (Some (RespID resp)))) (\<lambda>_.
           ret [(PendID p, sub, reply)])))"

fun processAll :: "TimesheetSubmission env \<Rightarrow> (string list \<Rightarrow> string list) \<Rightarrow> string \<Rightarrow>
    PendingSubmission list \<Rightarrow> exchange list client" where
  "processAll env rng deviceID [] = ret []"
| "processAll env rng deviceID (p # ps) =
     bindM (sample (env_done env)) (\<lambda>fin.
     if fin then ret []
     else bindM (processOne env rng deviceID p) (\<lambda>x.
          bindM (processAll env rng deviceID ps) (\<lambda>xs. ret (x @ xs))))"

definition ProcessPending :: "TimesheetSubmission env \<Rightarrow> (string list \<Rightarrow> string list) \<Rightarrow> string \<Rightarrow>
    exchange list client" where
  "ProcessPending env rng deviceID =
     bindM (attempt (listDueSubmissions env)) (\<lambda>r.
     case r of Inl _ \<Rightarrow> ret [] | Inr pending \<Rightarrow> processAll env rng deviceID pending)"

text \<open>The loop: a pass at once and one at every tick, until the context is done.\<close>

fun run_queue :: "TimesheetSubmission env \<Rightarrow> (string list \<Rightarrow> string list) \<Rightarrow> string \<Rightarrow> nat \<Rightarrow>
    exchange list client" where
  "run_queue env rng deviceID 0 = ret []"
| "run_queue env rng deviceID (Suc n) =
     bindM (ProcessPending env rng deviceID) (\<lambda>x.
     bindM (run_queue env rng deviceID n) (\<lambda>xs. ret (x @ xs)))"

section \<open>What a pass does\<close>

lemma bump_row_simps [simp]:
  "sub_id (bump_row n t r) = sub_id r" "sub_status (bump_row n t r) = sub_status r"
  "sub_retries (bump_row n t r) = n + 1" "sub_last_retry (bump_row n t r) = Some t"
  by (simp_all add: bump_row_def)

interpretation sub_bump: keyed_update sub_id "bump_row n t" for n t
  by unfold_locales simp

lemma join_rows_frame [simp]: "join_rows (d\<lparr>submissions := subs\<rparr>) = join_rows d"
  by (simp add: fun_eq_iff join_rows_def tag_names_def event_notes_of_def cong: option.case_cong)

lemma submission_entries_frame [simp]:
  "submission_entries (d\<lparr>submissions := subs\<rparr>) i = submission_entries d i"
  by (simp add: submission_entries_def)

definition payload :: "(string list \<Rightarrow> string list) \<Rightarrow> string \<Rightarrow> client_tables \<Rightarrow> rowid \<Rightarrow> TimesheetSubmission" where
  "payload rng deviceID d i =
     \<lparr>SubClientDeviceID = deviceID, SubEntries = Aggregate rng (submission_entries d i)\<rparr>"

lemma payload_frame [simp]: "payload rng dev (d\<lparr>submissions := subs\<rparr>) i = payload rng dev d i"
  by (simp add: payload_def)

text \<open>
  The outcome of handling one submission: the exchanges it had with the server and what happened
  to its row.
\<close>

inductive handled :: "TimesheetSubmission env \<Rightarrow> TimesheetSubmission \<Rightarrow> bool \<Rightarrow> rowid \<Rightarrow> int \<Rightarrow>
    exchange list \<Rightarrow> (submission_row \<Rightarrow> submission_row) \<Rightarrow> bool"
  for env p none i n where
  handled_skip: "handled env p none i n [] (\<lambda>r. r)"
| handled_empty: "none \<Longrightarrow> handled env p none i n [] (status_row ''confirmed'' None)"
| handled_lost: "\<not> none \<Longrightarrow> handled env p none i n [(i, p, env_post env k p)] (\<lambda>r. r)"
| handled_sent: "\<not> none \<Longrightarrow> SubmitTimesheet (env_post env k p) = Inr resp \<Longrightarrow>
    handled env p none i n [(i, p, env_post env k p)] (status_row ''confirmed'' (Some (RespID resp)))"
| handled_retry: "\<not> none \<Longrightarrow> SubmitTimesheet (env_post env k p) = Inl e \<Longrightarrow> \<not> permanent e \<Longrightarrow>
    handled env p none i n [(i, p, env_post env k p)] (bump_row n (rfc3339 (env_now env k)))"

lemma handled_id: "handled env p none i n x f \<Longrightarrow> sub_id (f r) = sub_id r"
  by (erule handled.cases) auto

lemma handled_fst: "handled env p none i n x f \<Longrightarrow> fst ` set x \<subseteq> {i} \<and> length x \<le> 1"
  by (erule handled.cases) auto

definition on_row :: "rowid \<Rightarrow> (submission_row \<Rightarrow> submission_row) \<Rightarrow> client_tables \<Rightarrow> client_tables" where
  "on_row i f d = d\<lparr>submissions := sql_update (\<lambda>r. sub_id r = i) f (submissions d)\<rparr>"

lemma on_row_id [simp]: "on_row i (\<lambda>r. r) d = d"
  by (simp add: on_row_def sql_update_def)

definition handled_by :: "TimesheetSubmission env \<Rightarrow> (string list \<Rightarrow> string list) \<Rightarrow> string \<Rightarrow>
    PendingSubmission \<Rightarrow> client_tables db \<Rightarrow> exchange list \<Rightarrow> client_tables db \<Rightarrow> bool" where
  "handled_by env rng dev q s x s' =
     (\<exists>f. handled env (payload rng dev (tables s) (PendID q)) (submission_entries (tables s) (PendID q) = [])
          (PendID q) (PendRetries q) x f \<and>
        tables s' = on_row (PendID q) f (tables s) \<and> fault s' = fault s)"

lemma handled_byI:
  "handled env (payload rng dev (tables s) (PendID q)) (submission_entries (tables s) (PendID q) = [])
      (PendID q) (PendRetries q) x f \<Longrightarrow>
   tables s' = on_row (PendID q) f (tables s) \<Longrightarrow> fault s' = fault s \<Longrightarrow> handled_by env rng dev q s x s'"
  by (auto simp: handled_by_def)

lemma sent_wp:
  assumes "submission_entries (tables s) (PendID q) \<noteq> []" "tables s1 = tables s" "fault s1 = fault s"
    and "p = payload rng dev (tables s) (PendID q)" and "reply = env_post env (ticks s1) p"
  shows "wp (case SubmitTimesheet reply of
                    Inl e \<Rightarrow> if permanent e then ret () else logged (bumpRetry env (PendID q) (PendRetries q))
                  | Inr resp \<Rightarrow> logged (updateStatus (PendID q) ''confirmed'' (Some (RespID resp))))
      (\<lambda>_. handled_by env rng dev q s [(PendID q, p, reply)]) (\<lambda>_ _. False) s1"
proof -
  have lost: "handled_by env rng dev q s [(PendID q, p, reply)] s'"
    if "tables s' = tables s" "fault s' = fault s" for s'
    using assms that by (intro handled_byI [where f = "\<lambda>r. r"]) (auto intro: handled_lost)
  show ?thesis
  proof (cases "SubmitTimesheet reply")
    case (Inl e)
    have "handled_by env rng dev q s [(PendID q, p, reply)] s'"
      if "\<not> permanent e" "tables s' = on_row (PendID q) (bump_row (PendRetries q) (rfc3339 (env_now env (ticks s1)))) (tables s)"
        "fault s' = fault s" for s'
      using assms Inl that by (intro handled_byI) (auto intro: handled_retry)
    then show ?thesis using assms(2,3) Inl lost by (auto simp: wp_rules bumpRetry_def on_row_def)
  next
    case (Inr resp)
    have "handled_by env rng dev q s [(PendID q, p, reply)] s'"
      if "tables s' = on_row (PendID q) (status_row ''confirmed'' (Some (RespID resp))) (tables s)"
        "fault s' = fault s" for s'
      using assms Inr that by (intro handled_byI) (auto intro: handled_sent)
    then show ?thesis using assms(2,3) Inr lost by (auto simp: wp_rules updateStatus_def on_row_def)
  qed
qed

lemma processOne_wp: "wp (processOne env rng dev q) (handled_by env rng dev q s) (\<lambda>_ _. False) s"
proof -
  let ?e = "submission_entries (tables s) (PendID q)"
  let ?s1 = "s\<lparr>ticks := Suc (ticks s)\<rparr>"
  have skip: "handled_by env rng dev q s [] s'" if "tables s' = tables s" "fault s' = fault s" for s'
    using that by (intro handled_byI [where f = "\<lambda>r. r"]) (auto intro: handled_skip)
  have empty: "handled_by env rng dev q s [] s'"
    if "?e = []" "tables s' = on_row (PendID q) (status_row ''confirmed'' None) (tables s)" "fault s' = fault s" for s'
    using that by (intro handled_byI) (auto intro: handled_empty)
  consider "fault s (ticks s)" | "\<not> fault s (ticks s)" "?e = []" | "\<not> fault s (ticks s)" "?e \<noteq> []" by blast
  then show ?thesis
  proof cases
    case 1
    then show ?thesis
      by (simp add: processOne_def loadSubmissionEntries_def wp_rules skip)
  next
    case 2
    then show ?thesis using empty skip
      by (auto simp: processOne_def loadSubmissionEntries_def wp_rules updateStatus_def on_row_def)
  next
    case 3
    then have "processOne env rng dev q s = bindM (sample (\<lambda>k. env_post env k (payload rng dev (tables s) (PendID q)))) (\<lambda>reply.
           bindM (case SubmitTimesheet reply of
                    Inl e \<Rightarrow> if permanent e then ret () else logged (bumpRetry env (PendID q) (PendRetries q))
                  | Inr resp \<Rightarrow> logged (updateStatus (PendID q) ''confirmed'' (Some (RespID resp)))) (\<lambda>_.
           ret [(PendID q, payload rng dev (tables s) (PendID q), reply)])) ?s1"
      by (simp add: processOne_def loadSubmissionEntries_def bindM_def [where m = "attempt m" for m]
          attempt_def query_def stmt_def Let_def payload_def)
    moreover have "wp (bindM (sample (\<lambda>k. env_post env k (payload rng dev (tables s) (PendID q)))) (\<lambda>reply.
           bindM (case SubmitTimesheet reply of
                    Inl e \<Rightarrow> if permanent e then ret () else logged (bumpRetry env (PendID q) (PendRetries q))
                  | Inr resp \<Rightarrow> logged (updateStatus (PendID q) ''confirmed'' (Some (RespID resp)))) (\<lambda>_.
           ret [(PendID q, payload rng dev (tables s) (PendID q), reply)]))) (handled_by env rng dev q s) (\<lambda>_ _. False) ?s1"
      unfolding wp_bindM wp_sample wp_ret using 3 by (intro sent_wp) simp_all
    ultimately show ?thesis by (simp add: wp_def)
  qed
qed

definition of_sub :: "rowid \<Rightarrow> exchange list \<Rightarrow> exchange list" where
  "of_sub i xs = filter (\<lambda>x. fst x = i) xs"

lemma of_sub_simps [simp]:
  "of_sub i [] = []" "of_sub i (xs @ ys) = of_sub i xs @ of_sub i ys"
  by (simp_all add: of_sub_def)

lemma handled_of_sub:
  "handled env p none i n x f \<Longrightarrow> of_sub j x = (if i = j then x else [])"
  by (erule handled.cases) (auto simp: of_sub_def)

text \<open>
  A pass maps every row by a function that is one of the outcomes for the rows of the list, each
  with its own exchanges, and the identity for all others.
\<close>

definition all_handled :: "TimesheetSubmission env \<Rightarrow> (string list \<Rightarrow> string list) \<Rightarrow> string \<Rightarrow>
    PendingSubmission list \<Rightarrow> client_tables db \<Rightarrow> exchange list \<Rightarrow> client_tables db \<Rightarrow> bool" where
  "all_handled env rng dev qs s xs s' =
     (\<exists>F. (\<forall>i. i \<notin> PendID ` set qs \<longrightarrow> F i = (\<lambda>r. r) \<and> of_sub i xs = []) \<and>
        (\<forall>q \<in> set qs. handled env (payload rng dev (tables s) (PendID q))
           (submission_entries (tables s) (PendID q) = []) (PendID q) (PendRetries q)
           (of_sub (PendID q) xs) (F (PendID q))) \<and>
        tables s' = (tables s)\<lparr>submissions := map (\<lambda>r. F (sub_id r) r) (submissions (tables s))\<rparr> \<and>
        fault s' = fault s)"

lemma all_handledI:
  assumes "\<And>i. i \<notin> PendID ` set qs \<Longrightarrow> F i = (\<lambda>r. r) \<and> of_sub i xs = []"
    and "\<And>q. q \<in> set qs \<Longrightarrow> handled env (payload rng dev (tables s) (PendID q))
           (submission_entries (tables s) (PendID q) = []) (PendID q) (PendRetries q)
           (of_sub (PendID q) xs) (F (PendID q))"
    and "tables s' = (tables s)\<lparr>submissions := map (\<lambda>r. F (sub_id r) r) (submissions (tables s))\<rparr>"
    and "fault s' = fault s"
  shows "all_handled env rng dev qs s xs s'"
  using assms unfolding all_handled_def by blast

lemma all_handled_none: "tables s' = tables s \<Longrightarrow> fault s' = fault s \<Longrightarrow> all_handled env rng dev qs s [] s'"
  by (rule all_handledI [where F = "\<lambda>_ r. r"]) (auto intro: handled_skip)

lemma all_handled_Cons:
  assumes q: "handled_by env rng dev q s x s1" and qs: "all_handled env rng dev qs s1 xs s'"
    and "PendID q \<notin> PendID ` set qs"
  shows "all_handled env rng dev (q # qs) s (x @ xs) s'"
proof -
  obtain f where f: "handled env (payload rng dev (tables s) (PendID q))
      (submission_entries (tables s) (PendID q) = []) (PendID q) (PendRetries q) x f"
    "tables s1 = on_row (PendID q) f (tables s)" "fault s1 = fault s"
    using q by (auto simp: handled_by_def)
  obtain F where F: "\<forall>i. i \<notin> PendID ` set qs \<longrightarrow> F i = (\<lambda>r. r) \<and> of_sub i xs = []"
    "\<forall>p \<in> set qs. handled env (payload rng dev (tables s1) (PendID p))
           (submission_entries (tables s1) (PendID p) = []) (PendID p) (PendRetries p)
           (of_sub (PendID p) xs) (F (PendID p))"
    "tables s' = (tables s1)\<lparr>submissions := map (\<lambda>r. F (sub_id r) r) (submissions (tables s1))\<rparr>"
    "fault s' = fault s1"
    using qs unfolding all_handled_def by blast
  have same: "payload rng dev (tables s1) i = payload rng dev (tables s) i"
    "submission_entries (tables s1) i = submission_entries (tables s) i" for i
    by (simp_all add: f(2) on_row_def)
  note sub = handled_of_sub [OF f(1)]
  show ?thesis
  proof (rule all_handledI [where F = "F(PendID q := f)"])
    fix i assume "i \<notin> PendID ` set (q # qs)"
    then show "(F(PendID q := f)) i = (\<lambda>r. r) \<and> of_sub i (x @ xs) = []"
      using F(1) sub [of i] by simp
  next
    fix p assume p: "p \<in> set (q # qs)"
    show "handled env (payload rng dev (tables s) (PendID p))
           (submission_entries (tables s) (PendID p) = []) (PendID p) (PendRetries p)
           (of_sub (PendID p) (x @ xs)) ((F(PendID q := f)) (PendID p))"
    proof (cases "p = q")
      case True
      then show ?thesis using f(1) F(1) assms(3) sub [of "PendID q"] by simp
    next
      case False
      then have mem: "p \<in> set qs" using p by simp
      then have "PendID p \<noteq> PendID q" using assms(3) by (metis image_eqI)
      with mem show ?thesis using F(2) same sub [of "PendID p"] by fastforce
    qed
  next
    have "F (sub_id r) (if sub_id r = PendID q then f r else r) = (F(PendID q := f)) (sub_id r) r" for r
      using F(1) assms(3) handled_id [OF f(1)] by simp
    moreover have "sub_id (if sub_id r = PendID q then f r else r) = sub_id r" for r
      using handled_id [OF f(1)] by simp
    ultimately show "tables s' = (tables s)\<lparr>submissions :=
        map (\<lambda>r. (F(PendID q := f)) (sub_id r) r) (submissions (tables s))\<rparr>"
      unfolding F(3) f(2) on_row_def sql_update_def by simp
  qed (simp add: F(4) f(3))
qed

lemma processAll_wp:
  "distinct (map PendID qs) \<Longrightarrow>
   wp (processAll env rng dev qs) (all_handled env rng dev qs s) (\<lambda>_ _. False) s"
proof (induction qs arbitrary: s)
  case Nil
  then show ?case by (simp add: wp_ret all_handled_none)
next
  case (Cons q qs)
  have "wp (processOne env rng dev q) (\<lambda>x. wp (bindM (processAll env rng dev qs) (\<lambda>xs. ret (x @ xs)))
      (all_handled env rng dev (q # qs) s) (\<lambda>_ _. False)) (\<lambda>_ _. False) s"
  proof (rule wp_mono [OF processOne_wp])
    fix x s1
    assume q: "handled_by env rng dev q s x s1"
    have "wp (processAll env rng dev qs) (all_handled env rng dev qs s1) (\<lambda>_ _. False) s1"
      using Cons by simp
    then show "wp (bindM (processAll env rng dev qs) (\<lambda>xs. ret (x @ xs)))
        (all_handled env rng dev (q # qs) s) (\<lambda>_ _. False) s1"
      unfolding wp_bindM wp_ret
      by (rule wp_mono) (use q Cons.prems in \<open>auto intro: all_handled_Cons\<close>)
  qed simp
  then show ?case by (simp add: wp_bindM wp_sample wp_ret all_handled_none)
qed

lemma distinct_pending:
  assumes "distinct (map sub_id (submissions d))"
  shows "distinct (map PendID (filter P (map scanPending (pending_rows d))))"
proof -
  have "PendID \<circ> scanPending = sub_id" by (simp add: fun_eq_iff scanPending_def)
  moreover have "distinct (map sub_id (pending_rows d))"
    unfolding pending_rows_def distinct_map_order by (simp add: assms distinct_map_filter)
  ultimately show ?thesis by (simp add: filter_map distinct_map_filter)
qed

lemma all_handled_ticks [simp]:
  "all_handled env rng dev qs (s\<lparr>ticks := n\<rparr>) tr s' = all_handled env rng dev qs s tr s'"
  by (simp add: all_handled_def)

lemma due_pending: "\<not> not_due now (scanPending r) \<longleftrightarrow> due_at backoffFor now (sub_retries r) (sub_last_retry r)"
  by (simp add: not_due_def scanPending_def due_at_def split: option.splits)

text \<open>The outcome of a pass for one row, as the specification states it.\<close>

definition outcome :: "TimesheetSubmission env \<Rightarrow> (string list \<Rightarrow> string list) \<Rightarrow> string \<Rightarrow> client_tables \<Rightarrow>
    exchange list \<Rightarrow> submission_row \<Rightarrow> submission_row \<Rightarrow> bool" where
  "outcome env rng dev d tr r r' =
     (of_sub (sub_id r) tr = [] \<and> r' = r \<or>
      sub_status r = ''pending'' \<and>
      (\<exists>k. due_at backoffFor (env_now env k) (sub_retries r) (sub_last_retry r)) \<and>
      (submission_entries d (sub_id r) = [] \<and> of_sub (sub_id r) tr = [] \<and> r' = status_row ''confirmed'' None r \<or>
       (\<exists>reply. of_sub (sub_id r) tr = [(sub_id r, payload rng dev d (sub_id r), reply)] \<and>
         (r' = r \<or>
          (\<exists>resp. SubmitTimesheet reply = Inr resp \<and> r' = status_row ''confirmed'' (Some (RespID resp)) r) \<or>
          (\<exists>e t. SubmitTimesheet reply = Inl e \<and> \<not> permanent e \<and> r' = bump_row (sub_retries r) t r)))))"

lemma handled_outcome:
  assumes "handled env (payload rng dev d (sub_id r)) (submission_entries d (sub_id r) = []) (sub_id r)
      (sub_retries r) (of_sub (sub_id r) tr) f"
    and "sub_status r = ''pending''" and "due_at backoffFor (env_now env k) (sub_retries r) (sub_last_retry r)"
  shows "outcome env rng dev d tr r (f r)"
  using assms(1)
proof cases
  case handled_skip
  then show ?thesis by (simp add: outcome_def)
qed (use assms(2,3) in \<open>auto simp: outcome_def\<close>)

definition due_list :: "client_tables \<Rightarrow> gotime \<Rightarrow> PendingSubmission list" where
  "due_list d now = filter (\<lambda>p. \<not> not_due now p) (map scanPending (pending_rows d))"

definition passed :: "TimesheetSubmission env \<Rightarrow> (string list \<Rightarrow> string list) \<Rightarrow> string \<Rightarrow>
    client_tables db \<Rightarrow> exchange list \<Rightarrow> client_tables db \<Rightarrow> bool" where
  "passed env rng dev s tr s' =
     (\<exists>k. all_handled env rng dev (due_list (tables s) (env_now env k)) s tr s')"

lemma ProcessPending_wp:
  assumes "distinct (map sub_id (submissions (tables s)))"
  shows "wp (ProcessPending env rng dev) (passed env rng dev s) (\<lambda>_ _. False) s"
proof (cases "fault s (ticks s)")
  case True
  then show ?thesis
    by (simp add: ProcessPending_def listDueSubmissions_def wp_rules passed_def all_handled_none)
next
  case False
  let ?qs = "due_list (tables s) (env_now env (Suc (ticks s)))"
  let ?s1 = "s\<lparr>ticks := Suc (ticks s)\<rparr>"
  have "wp (processAll env rng dev ?qs) (all_handled env rng dev ?qs ?s1) (\<lambda>_ _. False) ?s1"
    unfolding due_list_def by (intro processAll_wp distinct_pending assms)
  then have "wp (processAll env rng dev ?qs) (passed env rng dev s) (\<lambda>_ _. False) ?s1"
    by (rule wp_mono) (auto simp: passed_def)
  then show ?thesis using False
    by (simp add: ProcessPending_def listDueSubmissions_def wp_rules due_list_def)
qed

lemma passed_outcomes:
  assumes "passed env rng dev s tr s'"
  shows "\<exists>F. tables s' = (tables s)\<lparr>submissions := map (\<lambda>r. F (sub_id r) r) (submissions (tables s))\<rparr> \<and>
     (\<forall>r \<in> set (submissions (tables s)). distinct (map sub_id (submissions (tables s))) \<longrightarrow>
        outcome env rng dev (tables s) tr r (F (sub_id r) r))"
proof -
  obtain k F where F: "\<forall>i. i \<notin> PendID ` set (due_list (tables s) (env_now env k)) \<longrightarrow> F i = (\<lambda>r. r) \<and> of_sub i tr = []"
    "\<forall>q \<in> set (due_list (tables s) (env_now env k)). handled env (payload rng dev (tables s) (PendID q))
           (submission_entries (tables s) (PendID q) = []) (PendID q) (PendRetries q)
           (of_sub (PendID q) tr) (F (PendID q))"
    "tables s' = (tables s)\<lparr>submissions := map (\<lambda>r. F (sub_id r) r) (submissions (tables s))\<rparr>"
    using assms unfolding passed_def all_handled_def by blast
  have "outcome env rng dev (tables s) tr r (F (sub_id r) r)"
    if r: "r \<in> set (submissions (tables s))" "distinct (map sub_id (submissions (tables s)))" for r
  proof (cases "sub_id r \<in> PendID ` set (due_list (tables s) (env_now env k))")
    case True
    then obtain r1 where r1: "r1 \<in> set (pending_rows (tables s))" "\<not> not_due (env_now env k) (scanPending r1)"
      "sub_id r1 = sub_id r"
      by (auto simp: due_list_def scanPending_def)
    then have in1: "r1 \<in> set (submissions (tables s))" and st: "sub_status r1 = ''pending''"
      by (auto simp: pending_rows_def set_order)
    have same: "r1 = r" using r in1 r1(3) by (meson inj_on_def distinct_map)
    have "scanPending r1 \<in> set (due_list (tables s) (env_now env k))"
      using r1 by (simp add: due_list_def)
    then have "handled env (payload rng dev (tables s) (sub_id r)) (submission_entries (tables s) (sub_id r) = [])
        (sub_id r) (sub_retries r) (of_sub (sub_id r) tr) (F (sub_id r))"
      using F(2) by (force simp: same scanPending_def)
    then show ?thesis using st r1(2) same by (intro handled_outcome [where k = k]) (simp_all add: due_pending)
  next
    case False
    then show ?thesis using F(1) by (simp add: outcome_def)
  qed
  then show ?thesis using F(3) by blast
qed

section \<open>Properties\<close>

lemma list_all2_map_eq: "list_all2 R xs ys \<Longrightarrow> (\<And>a b. R a b \<Longrightarrow> f b = f a) \<Longrightarrow> map f ys = map f xs"
  by (induction rule: list_all2_induct) auto

lemma list_all2_ball: "list_all2 R xs ys \<Longrightarrow> \<forall>x \<in> set xs. P x \<Longrightarrow> (\<And>a b. R a b \<Longrightarrow> P a \<Longrightarrow> P b) \<Longrightarrow>
    \<forall>y \<in> set ys. P y"
  by (induction rule: list_all2_induct) auto

lemma pass_rows:
  assumes "store_inv (tables s)" "ProcessPending env rng dev s = (r, s')"
  shows "\<exists>tr. r = Inr tr \<and> tables s' = (tables s)\<lparr>submissions := submissions (tables s')\<rparr> \<and>
    list_all2 (outcome env rng dev (tables s) tr) (submissions (tables s)) (submissions (tables s'))"
proof -
  have dist: "distinct (map sub_id (submissions (tables s)))"
    using assms(1) by (simp add: store_inv_def store_wf_def)
  note wp = ProcessPending_wp [OF dist, of env rng dev]
  obtain tr where tr: "r = Inr tr" "passed env rng dev s tr s'"
    using wp assms(2) by (cases r) (auto simp: wp_def)
  from passed_outcomes [OF this(2)] dist obtain F where
    F: "tables s' = (tables s)\<lparr>submissions := map (\<lambda>r. F (sub_id r) r) (submissions (tables s))\<rparr>"
      "\<forall>r \<in> set (submissions (tables s)). outcome env rng dev (tables s) tr r (F (sub_id r) r)"
    by blast
  have "submissions (tables s') = map (\<lambda>r. F (sub_id r) r) (submissions (tables s))" by (simp add: F(1))
  then show ?thesis using F tr(1) by (simp add: list_all2_map2 list.rel_refl_strong list_all2_same)
qed

text \<open>
  C12: Whatever statement fails, whatever the server answers and whenever the context ends, a pass
  of the queue changes no table but the submissions, and each of those by one of the documented
  outcomes: it is untouched; or it was pending and due and is confirmed, because it has no entries
  or with the id of a reply that accepted exactly its aggregated entries; or it is to be retried,
  its count one up, after a reply that is not a permanent error. Each is sent at most once.
\<close>

theorem queue_pass_outcomes:
  assumes "store_inv (tables s)" "ProcessPending env rng dev s = (r, s')"
  shows "\<exists>tr. r = Inr tr \<and> tables s' = (tables s)\<lparr>submissions := submissions (tables s')\<rparr> \<and>
    list_all2 (outcome env rng dev (tables s) tr) (submissions (tables s)) (submissions (tables s'))"
  by (rule pass_rows [OF assms])

lemma keeps_pass: "store_inv (tables s) \<Longrightarrow> store_inv (tables (snd (ProcessPending env rng dev s)))"
proof -
  assume inv: "store_inv (tables s)"
  obtain r s' where p: "ProcessPending env rng dev s = (r, s')" by fastforce
  from pass_rows [OF inv p] obtain tr where
    t: "tables s' = (tables s)\<lparr>submissions := submissions (tables s')\<rparr>"
       "list_all2 (outcome env rng dev (tables s) tr) (submissions (tables s)) (submissions (tables s'))" by blast
  have ids: "map sub_id (submissions (tables s')) = map sub_id (submissions (tables s))"
    by (rule list_all2_map_eq [OF t(2)]) (auto simp: outcome_def)
  then have "sub_id ` set (submissions (tables s')) = sub_id ` set (submissions (tables s))"
    by (metis set_map)
  then have "store_inv ((tables s)\<lparr>submissions := submissions (tables s')\<rparr>)"
    using inv ids by (simp add: store_inv_defs)
  then show ?thesis using p t(1) by simp
qed

text \<open>The counts never go negative.\<close>

definition retries_ok :: "client_tables \<Rightarrow> bool" where
  "retries_ok d = (\<forall>r \<in> set (submissions d). 0 \<le> sub_retries r)"

lemma retries_ok_pass:
  assumes "store_inv (tables s)" "retries_ok (tables s)"
  shows "retries_ok (tables (snd (ProcessPending env rng dev s)))"
proof -
  obtain r s' where p: "ProcessPending env rng dev s = (r, s')" by fastforce
  from pass_rows [OF assms(1) p] obtain tr where
    t: "list_all2 (outcome env rng dev (tables s) tr) (submissions (tables s)) (submissions (tables s'))" by blast
  have "\<forall>b \<in> set (submissions (tables s')). 0 \<le> sub_retries b"
    by (rule list_all2_ball [OF t]) (use assms(2) in \<open>auto simp: retries_ok_def outcome_def\<close>)
  then show ?thesis using p by (simp add: retries_ok_def)
qed

lemma retries_ok_create:
  "retries_ok (tables s) \<Longrightarrow> retries_ok (tables (snd (CreateSubmission now ids s)))"
  using create_submission_effect [where now = now and ids = ids and s = s]
  by (auto simp: retries_ok_def new_submission_def split: prod.splits sum.splits)

text \<open>Deliveries: an accepting server, no failing statement.\<close>

definition unconfirmed :: "client_tables \<Rightarrow> submission_row set" where
  "unconfirmed d = {r \<in> set (submissions d). sub_status r \<noteq> ''confirmed''}"

lemma unconfirmed_on_row: "unconfirmed (on_row i (status_row ''confirmed'' srv) d) = {r \<in> unconfirmed d. sub_id r \<noteq> i}"
  by (auto simp: unconfirmed_def on_row_def set_sql_update)

lemma processOne_delivers:
  assumes "no_fault s" "\<forall>k p. \<exists>resp. SubmitTimesheet (env_post env k p) = Inr resp"
  shows "wp (processOne env rng dev q)
     (\<lambda>_ s'. no_fault s' \<and> unconfirmed (tables s') = {r \<in> unconfirmed (tables s). sub_id r \<noteq> PendID q})
     (\<lambda>_ _. False) s"
proof (cases "submission_entries (tables s) (PendID q) = []")
  case True
  then show ?thesis using assms(1)
    by (simp add: processOne_def loadSubmissionEntries_def wp_rules updateStatus_def
        on_row_def [symmetric] unconfirmed_on_row)
next
  case False
  let ?p = "\<lparr>SubClientDeviceID = dev, SubEntries = Aggregate rng (submission_entries (tables s) (PendID q))\<rparr>"
  obtain resp where "SubmitTimesheet (env_post env (Suc (ticks s)) ?p) = Inr resp" using assms(2) by blast
  then show ?thesis using assms(1) False
    by (simp add: processOne_def loadSubmissionEntries_def wp_rules updateStatus_def Let_def
        on_row_def [symmetric] unconfirmed_on_row)
qed

lemma processAll_delivers:
  assumes "\<forall>k p. \<exists>resp. SubmitTimesheet (env_post env k p) = Inr resp" "\<forall>k. \<not> env_done env k"
  shows "no_fault s \<Longrightarrow> wp (processAll env rng dev qs)
     (\<lambda>_ s'. unconfirmed (tables s') = {r \<in> unconfirmed (tables s). sub_id r \<notin> PendID ` set qs})
     (\<lambda>_ _. False) s"
proof (induction qs arbitrary: s)
  case Nil
  then show ?case by (simp add: wp_ret)
next
  case (Cons q qs)
  have "wp (processOne env rng dev q) (\<lambda>x. wp (bindM (processAll env rng dev qs) (\<lambda>xs. ret (x @ xs)))
      (\<lambda>_ s'. unconfirmed (tables s') = {r \<in> unconfirmed (tables s). sub_id r \<notin> PendID ` set (q # qs)})
      (\<lambda>_ _. False)) (\<lambda>_ _. False) s"
  proof (rule wp_mono [OF processOne_delivers [OF Cons.prems assms(1)]])
    fix x :: "exchange list" and s1
    assume q: "no_fault s1 \<and> unconfirmed (tables s1) = {r \<in> unconfirmed (tables s). sub_id r \<noteq> PendID q}"
    show "wp (bindM (processAll env rng dev qs) (\<lambda>xs. ret (x @ xs)))
      (\<lambda>_ s'. unconfirmed (tables s') = {r \<in> unconfirmed (tables s). sub_id r \<notin> PendID ` set (q # qs)})
      (\<lambda>_ _. False) s1"
      unfolding wp_bindM wp_ret using q by (intro wp_mono [OF Cons.IH [of s1]]) auto
  qed simp
  then show ?case using assms(2) by (simp add: wp_bindM wp_sample)
qed

text \<open>
  C13: A pending submission whose last attempt is an hour old (or that was never tried) is
  confirmed by one pass if no statement fails and the server accepts what it is sent: whatever
  its retry count, the backoff holds nothing back for longer.
\<close>

theorem queue_delivers_within_an_hour:
  assumes "no_fault s" "store_inv (tables s)" "\<forall>k. \<not> env_done env k"
    and "\<forall>k p. \<exists>resp. SubmitTimesheet (env_post env k p) = Inr resp"
    and "r \<in> set (submissions (tables s))" "sub_status r = ''pending''" "0 \<le> sub_retries r"
    and "\<forall>k l. sub_last_retry r = Some l \<longrightarrow> parse_rfc3339 l + hour \<le> env_now env k"
  shows "\<exists>r'. row_at sub_id (sub_id r) (submissions (tables (snd (ProcessPending env rng dev s)))) = Some r' \<and>
     sub_status r' = ''confirmed''"
proof -
  let ?s1 = "s\<lparr>ticks := Suc (ticks s)\<rparr>"
  let ?s' = "snd (ProcessPending env rng dev s)"
  let ?now = "env_now env (Suc (ticks s))"
  have "due_at backoffFor ?now (sub_retries r) (sub_last_retry r)"
    using assms(7,8) submission_retry.due_within_an_hour [of "sub_retries r"]
    by (cases "sub_last_retry r") (auto simp: due_at_def)
  then have "scanPending r \<in> set (due_list (tables s) ?now)"
    using assms(5,6) by (simp add: due_list_def due_pending pending_rows_def set_order)
  then have in_due: "sub_id r \<in> PendID ` set (due_list (tables s) ?now)"
    by (force simp: scanPending_def)
  have "wp (ProcessPending env rng dev)
      (\<lambda>_ s'. unconfirmed (tables s') = {r \<in> unconfirmed (tables s). sub_id r \<notin> PendID ` set (due_list (tables s) ?now)})
      (\<lambda>_ _. False) s"
    using processAll_delivers [OF assms(4,3), of ?s1 rng dev "due_list (tables s) ?now"] assms(1)
    by (simp add: ProcessPending_def listDueSubmissions_def wp_rules due_list_def)
  then have "unconfirmed (tables ?s') = {r \<in> unconfirmed (tables s). sub_id r \<notin> PendID ` set (due_list (tables s) ?now)}"
    by (simp add: wp_def split: prod.splits sum.splits)
  moreover obtain t s' where p: "ProcessPending env rng dev s = (t, s')" by fastforce
  ultimately have "q \<notin> unconfirmed (tables s')" if "sub_id q = sub_id r" for q
    using that in_due by simp
  then have conf: "sub_status q = ''confirmed''" if "q \<in> set (submissions (tables s'))" "sub_id q = sub_id r" for q
    using that by (simp add: unconfirmed_def)
  obtain tr where l: "list_all2 (outcome env rng dev (tables s) tr) (submissions (tables s)) (submissions (tables s'))"
    using pass_rows [OF assms(2) p] by blast
  have "map sub_id (submissions (tables s')) = map sub_id (submissions (tables s))"
    by (rule list_all2_map_eq [OF l]) (auto simp: outcome_def)
  then have "sub_id r \<in> sub_id ` set (submissions (tables s'))"
    using assms(5) by (metis image_eqI set_map)
  then obtain r' where "row_at sub_id (sub_id r) (submissions (tables s')) = Some r'"
    using row_at_None by (metis option.exhaust)
  then show ?thesis using conf [of r'] row_at_Some [of sub_id "sub_id r"] p by auto
qed

text \<open>
  A server that refuses the key leaves no trace in the queue: a pass that is answered 401 or
  403 throughout changes no row, so every submission with entries stays pending and as due as it
  was, and the next tick sends it again at once, with no backoff, although the error is called
  permanent.
\<close>

theorem refused_stays_due:
  assumes "store_inv (tables s)"
    and "\<forall>k p. \<exists>b. env_post env k p = Response 401 b \<or> env_post env k p = Response 403 b"
    and "\<forall>r \<in> set (submissions (tables s)). sub_status r = ''pending'' \<longrightarrow> submission_entries (tables s) (sub_id r) \<noteq> []"
  shows "tables (snd (ProcessPending env rng dev s)) = tables s"
proof -
  have dist: "distinct (map sub_id (submissions (tables s)))"
    using assms(1) by (simp add: store_inv_def store_wf_def)
  obtain t s' where p: "ProcessPending env rng dev s = (t, s')" by fastforce
  then obtain tr where "passed env rng dev s tr s'"
    using ProcessPending_wp [OF dist, of env rng dev] by (auto simp: wp_def split: sum.splits)
  then obtain k F where F:
    "\<forall>i. i \<notin> PendID ` set (due_list (tables s) (env_now env k)) \<longrightarrow> F i = (\<lambda>r. r) \<and> of_sub i tr = []"
    "\<forall>q \<in> set (due_list (tables s) (env_now env k)). handled env (payload rng dev (tables s) (PendID q))
           (submission_entries (tables s) (PendID q) = []) (PendID q) (PendRetries q)
           (of_sub (PendID q) tr) (F (PendID q))"
    "tables s' = (tables s)\<lparr>submissions := map (\<lambda>r. F (sub_id r) r) (submissions (tables s))\<rparr>"
    unfolding passed_def all_handled_def by blast
  have refused: "\<exists>e. SubmitTimesheet (env_post env k p) = Inl e \<and> permanent e" for k p
    using assms(2) SubmitTimesheet_permanent_iff by blast
  have "F (PendID q) = (\<lambda>r. r)" if q: "q \<in> set (due_list (tables s) (env_now env k))" for q
  proof -
    have ne: "submission_entries (tables s) (PendID q) \<noteq> []"
      using q assms(3) by (auto simp: due_list_def pending_rows_def set_order scanPending_def)
    have "handled env (payload rng dev (tables s) (PendID q)) False (PendID q) (PendRetries q)
           (of_sub (PendID q) tr) (F (PendID q))"
      using F(2) [rule_format, OF q] ne by simp
    then show ?thesis
    proof cases
      case (handled_sent k resp)
      then show ?thesis using refused [of k "payload rng dev (tables s) (PendID q)"] by auto
    next
      case (handled_retry k e)
      then show ?thesis using refused [of k "payload rng dev (tables s) (PendID q)"] by auto
    qed simp_all
  qed
  then have "F i = (\<lambda>r. r)" for i using F(1) by (cases "i \<in> PendID ` set (due_list (tables s) (env_now env k))") auto
  then show ?thesis using F(3) p by simp
qed

section \<open>The time a submission reports\<close>

definition rows_of_event :: "client_tables \<Rightarrow> rowid \<Rightarrow> nat" where
  "rows_of_event d e = max 1 (affected (\<lambda>r. et_event r = e) (event_tags d)) *
     max 1 (affected (\<lambda>n. note_anchor n = e) (event_notes d))"

lemma length_left_join: "length (left_join xs) = max 1 (length xs)"
  by (cases xs) (simp_all add: left_join_def)

lemma distinct_key_filter:
  "distinct (map key xs) \<Longrightarrow> filter (\<lambda>x. key x = k) xs = (case row_at key k xs of None \<Rightarrow> [] | Some r \<Rightarrow> [r])"
proof (induction xs)
  case (Cons x xs)
  show ?case
  proof (cases "key x = k")
    case True
    then have "filter (\<lambda>x. key x = k) xs = []" using Cons.prems by (simp add: filter_empty_conv) (metis image_eqI)
    then show ?thesis using True by (simp add: row_at_def)
  next
    case False
    then show ?thesis using Cons by (simp add: row_at_def)
  qed
qed (simp add: row_at_def)

lemma length_concat_const: "(\<And>x. x \<in> set xs \<Longrightarrow> length (f x) = n) \<Longrightarrow> length (concat (map f xs)) = length xs * n"
  by (induction xs) auto

lemma length_tag_names:
  assumes "distinct (map tag_id (tags d))"
  shows "length (tag_names d e) = max 1 (affected (\<lambda>r. et_event r = e) (event_tags d))"
proof -
  have "length (left_join (filter (\<lambda>t. tag_id t = i) (tags d))) = 1" for i
    by (simp add: length_left_join distinct_key_filter [OF assms] split: option.split)
  then have "length (case x of None \<Rightarrow> [''Untagged''] | Some r \<Rightarrow> map (\<lambda>t. case t of None \<Rightarrow> ''Untagged'' | Some t \<Rightarrow> tag_name t)
           (left_join (filter (\<lambda>t. tag_id t = et_tag r) (tags d)))) = 1" for x
    by (cases x) simp_all
  then show ?thesis
    unfolding tag_names_def by (subst length_concat_const [where n = 1]) (simp_all add: length_left_join affected_def)
qed

lemma length_join_rows:
  assumes "distinct (map tag_id (tags d))"
  shows "length (join_rows d fe) = rows_of_event d (fe_id fe)"
  unfolding join_rows_def
  by (subst length_concat_const [where n = "length (event_notes_of d (fe_id fe))"])
    (simp_all add: length_tag_names [OF assms] rows_of_event_def event_notes_of_def length_left_join affected_def)

definition recorded :: "focus_row \<Rightarrow> int" where
  "recorded fe = (case fe_duration fe of None \<Rightarrow> 0 | Some x \<Rightarrow> x)"

definition linked :: "client_tables \<Rightarrow> rowid \<Rightarrow> focus_row list" where
  "linked d sid = concat (map (\<lambda>(_, e). filter (\<lambda>fe. fe_id fe = e) (focus_events d))
     (filter (\<lambda>(i, _). i = sid) (submission_events d)))"

lemma sum_list_concat_map: "sum_list (map f (concat (map g xs))) = (\<Sum>x \<leftarrow> xs. sum_list (map f (g x)))"
  for f :: "'b \<Rightarrow> int"
  by (induction xs) auto

lemma join_rows_fst: "x \<in> set (join_rows d fe) \<Longrightarrow> fst x = fe"
  by (auto simp: join_rows_def)

lemma sum_list_const: "(\<And>x. x \<in> set xs \<Longrightarrow> f x = c) \<Longrightarrow> sum_list (map f xs) = int (length xs) * c"
  by (induction xs) (auto simp: algebra_simps)

lemma submission_entries_total:
  assumes "distinct (map tag_id (tags d))"
  shows "sum_list (map TeDuration (submission_entries d sid)) =
    (\<Sum>fe \<leftarrow> linked d sid. int (rows_of_event d (fe_id fe)) * recorded fe)"
proof -
  have row: "sum_list (map (\<lambda>x. recorded (fst x)) (join_rows d fe)) = int (rows_of_event d (fe_id fe)) * recorded fe" for fe
    by (subst sum_list_const [where c = "recorded fe"]) (auto dest: join_rows_fst simp: length_join_rows [OF assms])
  have "map TeDuration (submission_entries d sid) =
      map (\<lambda>x. recorded (fst x)) (concat (map (join_rows d) (order_asc fe_started (linked d sid))))"
    by (auto simp: submission_entries_def linked_def recorded_def)
  then have "sum_list (map TeDuration (submission_entries d sid)) =
      (\<Sum>fe \<leftarrow> order_asc fe_started (linked d sid). int (rows_of_event d (fe_id fe)) * recorded fe)"
    by (simp add: sum_list_concat_map row)
  then show ?thesis
    using sum_list_perm [OF mset_order(1) [of fe_started "linked d sid"]] by metis
qed

lemma total_Aggregate:
  assumes "permutes_keys rng"
  shows "sum_list (map TeDuration (Aggregate rng es)) = sum_list (map TeDuration es)"
proof (cases "es = []")
  case False
  let ?ks = "rng (keys_of TeTag es)"
  let ?g = "\<lambda>tag. filter (\<lambda>e. TeTag e = tag) es"
  have dur: "TeDuration (mergeTimesheetEntries k (?g k)) = (\<Sum>e \<leftarrow> ?g k. TeDuration e)" for k
    by (simp add: mergeTimesheetEntries_def Let_def sum_list_sort_key)
  have "sum_list (map TeDuration (Aggregate rng es)) = (\<Sum>k \<leftarrow> ?ks. \<Sum>e \<leftarrow> ?g k. TeDuration e)"
    using False by (simp add: Aggregate_def sum_list_sort_key comp_def dur)
  also have "\<dots> = sum_list (map TeDuration es)"
    using keys_rng [OF assms, of TeTag es] by (intro sum_groups) auto
  finally show ?thesis .
qed (simp add: Aggregate_def)

text \<open>
  The time the payload of a submission reports is the sum over its events of the recorded
  duration times the number of tags (at least one) times the number of notes (at least one) of
  the event: the three-way join counts an event once per tag and note, so an event with two notes
  is reported with twice its time.
\<close>

theorem payload_counts_rows:
  assumes "store_inv (tables s)" "permutes_keys rng"
  shows "sum_list (map TeDuration (SubEntries (payload rng dev (tables s) sid))) =
    (\<Sum>fe \<leftarrow> linked (tables s) sid.
       int (max 1 (affected (\<lambda>r. et_event r = fe_id fe) (event_tags (tables s))) *
            max 1 (affected (\<lambda>n. note_anchor n = fe_id fe) (event_notes (tables s)))) * recorded fe)"
proof -
  have "distinct (map tag_id (tags (tables s)))" using assms(1) by (simp add: store_inv_def store_wf_def)
  then show ?thesis
    using submission_entries_total [of "tables s" sid] total_Aggregate [OF assms(2)]
    by (simp add: payload_def rows_of_event_def)
qed

section \<open>A queue with one submission\<close>

definition queue_store :: client_tables where
  "queue_store = empty_store\<lparr>
     focus_events := [\<lparr>fe_id = 1, fe_app = ''vim'', fe_title = ''a'', fe_started = 100, fe_ended = Some 160,
         fe_duration = Some 60, fe_idle = False, fe_created = 100\<rparr>],
     tags := [\<lparr>tag_id = 1, tag_name = ''A'', tag_color = [], tag_created = 0\<rparr>],
     event_tags := [\<lparr>et_event = 1, et_tag = 1, et_source = Manual, et_cascade_from = None\<rparr>],
     event_notes := [\<lparr>note_id = 1, note_anchor = 1, note_text = ''x'', note_created = 0, note_cascade_applied = False\<rparr>,
       \<lparr>note_id = 2, note_anchor = 1, note_text = ''y'', note_created = 1, note_cascade_applied = False\<rparr>],
     submissions := [new_submission 7 200],
     submission_events := [(7, 1)]\<rparr>"

lemma queue_store_inv: "store_inv queue_store"
  by (simp add: queue_store_def store_inv_defs empty_store_def new_submission_def)

definition accepted :: http where
  "accepted = Response 201 (Some (JObj [(''id'', JStr ''t1''), (''submitted_at'', JStr ''s'')]))"

lemma accepted_response: "SubmitTimesheet accepted = Inr \<lparr>RespID = ''t1'', RespSubmittedAt = ''s''\<rparr>"
  by code_simp

definition accepting :: "TimesheetSubmission env" where
  "accepting = \<lparr>env_now = (\<lambda>_. 300 * second), env_done = (\<lambda>_. False), env_post = (\<lambda>_ _. accepted)\<rparr>"

definition refusing :: "TimesheetSubmission env" where
  "refusing = \<lparr>env_now = (\<lambda>_. 300 * second), env_done = (\<lambda>_. False), env_post = (\<lambda>_ _. Response 401 None)\<rparr>"

definition queue_entries :: "TimesheetEntry list" where
  "queue_entries = [\<lparr>TeTag = ''A'', TeStarted = 100, TeEnded = Some 160, TeDuration = 60, TeNotes = ''x'', TeSummary = []\<rparr>,
     \<lparr>TeTag = ''A'', TeStarted = 100, TeEnded = Some 160, TeDuration = 60, TeNotes = ''y'', TeSummary = []\<rparr>]"

lemma queue_store_entries: "submission_entries queue_store 7 = queue_entries"
  by (simp add: queue_store_def queue_entries_def submission_entries_def join_rows_def tag_names_def
      event_notes_of_def left_join_def order_asc_def empty_store_def)

lemma queue_store_simps: "submissions queue_store = [new_submission 7 200]"
  "pending_rows queue_store = [new_submission 7 200]"
  by (simp_all add: queue_store_def pending_rows_def new_submission_def order_asc_def)

lemma queue_pass_outcomes_witness:
  "\<exists>tr. fst (ProcessPending accepting id ''d'' (healthy queue_store)) = Inr tr \<and>
     list_all2 (outcome accepting id ''d'' queue_store tr) (submissions queue_store)
       (submissions (tables (snd (ProcessPending accepting id ''d'' (healthy queue_store)))))"
  using queue_pass_outcomes [of "healthy queue_store" accepting id "''d''",
      OF _ prod.collapse [symmetric]] queue_store_inv by fastforce

lemma queue_delivers_within_an_hour_witness:
  "\<exists>r'. row_at sub_id 7 (submissions (tables (snd (ProcessPending accepting id ''d'' (healthy queue_store))))) = Some r' \<and>
     sub_status r' = ''confirmed''"
  using queue_delivers_within_an_hour [of "healthy queue_store" accepting "new_submission 7 200" id "''d''"]
  by (simp add: queue_store_inv accepting_def accepted_response queue_store_simps new_submission_def)

lemma refused_stays_due_witness:
  "tables (snd (ProcessPending refusing id ''d'' (healthy queue_store))) = queue_store"
  using refused_stays_due [of "healthy queue_store" refusing id "''d''"]
  by (simp add: queue_store_inv refusing_def queue_store_simps new_submission_def queue_store_entries queue_entries_def)

lemma queue_store_linked: "map fe_id (linked queue_store 7) = [1]" "map recorded (linked queue_store 7) = [60]"
  "affected (\<lambda>r. et_event r = 1) (event_tags queue_store) = 1"
  "affected (\<lambda>n. note_anchor n = 1) (event_notes queue_store) = 2"
  by (simp_all add: linked_def recorded_def affected_def queue_store_def empty_store_def)

lemma payload_counts_rows_witness:
  "sum_list (map TeDuration (SubEntries (payload id ''d'' queue_store 7))) = 120"
proof -
  obtain fe where "linked queue_store 7 = [fe]" "fe_id fe = 1" "recorded fe = 60"
    using queue_store_linked by (cases "linked queue_store 7") auto
  then show ?thesis
    using payload_counts_rows [of "healthy queue_store" id "''d''" 7]
    by (simp add: queue_store_inv permutes_keys_def queue_store_linked)
qed

text \<open>
  The queue delivers at least once, not exactly once: if the server accepts a submission and
  the update of its row then fails, the row is pending as before and the next pass sends the same
  payload again, which the server accepts as a second timesheet.
\<close>

theorem accepted_submission_resent:
  "\<exists>s s1 s2 p resp1 resp2. submissions (tables s) = [new_submission 7 200] \<and>
     ProcessPending accepting id ''d'' s = (Inr [(7, p, resp1)], s1) \<and> tables s1 = tables s \<and>
     ProcessPending accepting id ''d'' s1 = (Inr [(7, p, resp2)], s2) \<and>
     (\<exists>a b. SubmitTimesheet resp1 = Inr a \<and> SubmitTimesheet resp2 = Inr b)"
proof -
  let ?s = "\<lambda>n. \<lparr>tables = queue_store, fault = (\<lambda>n. n = 2), ticks = n\<rparr>"
  let ?p = "payload id ''d'' queue_store 7"
  note D = ProcessPending_def listDueSubmissions_def processOne_def loadSubmissionEntries_def
      bindM_def attempt_def query_def stmt_def sample_def ret_def logged_def updateStatus_def
      queue_store_simps queue_store_entries accepting_def accepted_response
      not_due_def scanPending_def payload_def
  have 1: "ProcessPending accepting id ''d'' (?s 0) = (Inr [(7, ?p, accepted)], ?s 3)"
    by (simp add: D Let_def new_submission_def queue_entries_def)
  have 2: "\<exists>s2. ProcessPending accepting id ''d'' (?s 3) = (Inr [(7, ?p, accepted)], s2)"
    by (simp add: D Let_def new_submission_def queue_entries_def)
  then obtain s2 where 2: "ProcessPending accepting id ''d'' (?s 3) = (Inr [(7, ?p, accepted)], s2)" by blast
  show ?thesis
    by (rule exI [of _ "?s 0"], rule exI [of _ "?s 3"], rule exI [of _ s2], rule exI [of _ ?p],
        rule exI [of _ accepted], rule exI [of _ accepted]) (simp add: 1 2 accepted_response queue_store_simps)
qed

end
