(* ===== verification/Layout.thy ===== *)
theory Layout
  imports Sync_Queue Presence
begin

text \<open>
  Window-layout snapshots of the client (\<^verbatim>\<open>internal/client/layout\<close>): the canonical hash of a set of
  windows, the snapshot store, the capture loop with its lock gate and change detection, pruning,
  and the batch upload with backoff. SHA-256 (in hex) is the argument \<open>sha\<close>; the enumeration of the
  desktop's windows is an input of a tick.
\<close>

section \<open>Windows and their hash\<close>

record Window =
  WinApp :: string
  WinTitle :: string
  WinX :: int
  WinY :: int
  WinW :: int
  WinH :: int

definition window_key :: "Window \<Rightarrow> string \<times> string \<times> int \<times> int \<times> int \<times> int" where
  "window_key w = (WinApp w, WinTitle w, WinX w, WinY w, WinW w, WinH w)"

definition nul :: char where "nul = CHR 0x00"

definition row_end :: char where "row_end = CHR 0x01"

definition window_bytes :: "Window \<Rightarrow> string" where
  "window_bytes w = WinApp w @ [nul] @ WinTitle w @ [nul] @ show_int (WinX w) @ [nul] @
     show_int (WinY w) @ [nul] @ show_int (WinW w) @ [nul] @ show_int (WinH w) @ [row_end]"

definition hash_stream :: "Window list \<Rightarrow> string" where
  "hash_stream ws = concat (map window_bytes (sort_key window_key ws))"

definition HashWindows :: "(string \<Rightarrow> string) \<Rightarrow> Window list \<Rightarrow> string" where
  "HashWindows sha ws = sha (hash_stream ws)"

section \<open>The snapshot store\<close>

text \<open>The JSON of the windows, as the capturer marshals it and \<open>decodeWindows\<close> reads it.\<close>

definition window_json :: "Window \<Rightarrow> json" where
  "window_json w = JObj [(''app_name'', JStr (WinApp w)), (''window_title'', JStr (WinTitle w)),
     (''x'', JNum (WinX w)), (''y'', JNum (WinY w)), (''w'', JNum (WinW w)), (''h'', JNum (WinH w))]"

definition windows_json :: "Window list \<Rightarrow> body" where
  "windows_json ws = Some (JArr (map window_json ws))"

definition read_window :: "json \<Rightarrow> Window option" where
  "read_window v =
     (if decodes [''app_name'', ''window_title''] [''x'', ''y'', ''w'', ''h''] (Some v)
      then Some \<lparr>WinApp = string_field ''app_name'' (Some v), WinTitle = string_field ''window_title'' (Some v),
        WinX = num_field ''x'' (Some v), WinY = num_field ''y'' (Some v),
        WinW = num_field ''w'' (Some v), WinH = num_field ''h'' (Some v)\<rparr>
      else None)"

fun decodeWindows :: "body \<Rightarrow> Window list option" where
  "decodeWindows None = Some []"
| "decodeWindows (Some JNull) = Some []"
| "decodeWindows (Some (JArr vs)) = those (map read_window vs)"
| "decodeWindows (Some v) = None"

record Snapshot =
  SnapID :: rowid
  SnapCapturedAt :: gotime
  SnapWindows :: "Window list"
  SnapHash :: string
  SnapSyncedAt :: "gotime option"
  SnapCreatedAt :: gotime

definition InsertSnapshot :: "gotime \<Rightarrow> gotime \<Rightarrow> body \<Rightarrow> string \<Rightarrow> rowid client" where
  "InsertSnapshot now capturedAt windows hash =
     stmt ''layout store: insert snapshot'' (\<lambda>d.
       let i = next_rowid (map ls_id (layout_snapshots d));
           r = \<lparr>ls_id = i, ls_captured = rfc3339 capturedAt, ls_windows = windows, ls_hash = hash,
                ls_synced = None, ls_retries = 0, ls_last_retry = None, ls_created = rfc3339 now\<rparr>
       in Inr (i, d\<lparr>layout_snapshots := layout_snapshots d @ [r]\<rparr>))"

definition scanSnapshot :: "snapshot_row \<Rightarrow> Snapshot option" where
  "scanSnapshot r = map_option (\<lambda>ws. \<lparr>SnapID = ls_id r, SnapCapturedAt = parse_rfc3339 (ls_captured r),
     SnapWindows = ws, SnapHash = ls_hash r, SnapSyncedAt = map_option parse_rfc3339 (ls_synced r),
     SnapCreatedAt = parse_rfc3339 (ls_created r)\<rparr>) (decodeWindows (ls_windows r))"

definition scan_snapshots :: "string \<Rightarrow> (client_tables \<Rightarrow> snapshot_row list) \<Rightarrow> Snapshot list client" where
  "scan_snapshots ctx rows =
     stmt ctx (\<lambda>d. case those (map scanSnapshot (rows d)) of
         None \<Rightarrow> Inl (EInvalid ''layout store: decode windows'') | Some xs \<Rightarrow> Inr (xs, d))"

definition unsynced :: "client_tables \<Rightarrow> snapshot_row list" where
  "unsynced d = order_asc ls_captured (filter (\<lambda>r. ls_synced r = None) (layout_snapshots d))"

definition ListPending :: "int \<Rightarrow> Snapshot list client" where
  "ListPending limit =
     scan_snapshots ''layout store: list pending''
       (\<lambda>d. if 0 < limit then take (nat limit) (unsynced d) else unsynced d)"

definition synced_row :: "stamp \<Rightarrow> snapshot_row \<Rightarrow> snapshot_row" where
  "synced_row t r = r\<lparr>ls_synced := Some t, ls_last_retry := None\<rparr>"

definition MarkSynced :: "rowid \<Rightarrow> gotime \<Rightarrow> unit client" where
  "MarkSynced i t =
     stmt ''layout store: mark synced'' (\<lambda>d. Inr ((), d\<lparr>layout_snapshots :=
       sql_update (\<lambda>r. ls_id r = i) (synced_row (rfc3339 t)) (layout_snapshots d)\<rparr>))"

definition snap_retry_row :: "int \<Rightarrow> stamp \<Rightarrow> snapshot_row \<Rightarrow> snapshot_row" where
  "snap_retry_row n t r = r\<lparr>ls_retries := n, ls_last_retry := Some t\<rparr>"

definition BumpRetry :: "gotime \<Rightarrow> rowid \<Rightarrow> int \<Rightarrow> unit client" where
  "BumpRetry now i n =
     stmt ''layout store: bump retry'' (\<lambda>d. Inr ((), d\<lparr>layout_snapshots :=
       sql_update (\<lambda>r. ls_id r = i) (snap_retry_row n (rfc3339 now)) (layout_snapshots d)\<rparr>))"

definition ListInRange :: "gotime \<Rightarrow> gotime \<Rightarrow> Snapshot list client" where
  "ListInRange from to =
     scan_snapshots ''layout store: list in range''
       (\<lambda>d. order_asc ls_captured (filter (\<lambda>r. rfc3339 from \<le> ls_captured r \<and> ls_captured r \<le> rfc3339 to)
          (layout_snapshots d)))"

definition Prune :: "gotime \<Rightarrow> gotime \<Rightarrow> nat client" where
  "Prune now retention =
     stmt ''layout store: prune'' (\<lambda>d.
       let old = (\<lambda>r. ls_captured r < rfc3339 (now - retention))
       in Inr (affected old (layout_snapshots d),
               d\<lparr>layout_snapshots := sql_delete old (layout_snapshots d)\<rparr>))"

text \<open>The pruning loop: a run after the warm-up and one per tick; errors are logged.\<close>

definition RunPrune :: "gotime \<Rightarrow> gotime list \<Rightarrow> unit client" where
  "RunPrune retention turns = forM turns (\<lambda>now. logged (Prune now retention))"

section \<open>The capture loop\<close>

record capturer =
  cap_locked :: bool
  cap_lastHash :: string
  cap_stopped :: bool

definition NewCapturer :: capturer where
  "NewCapturer = \<lparr>cap_locked = False, cap_lastHash = [], cap_stopped = False\<rparr>"

definition StopCapturer :: "capturer \<Rightarrow> capturer" where
  "StopCapturer c = c\<lparr>cap_stopped := True\<rparr>"

text \<open>
  One tick: \<open>captured\<close> and \<open>now\<close> are the clock's readings for the row, \<open>fin\<close> says whether the
  context is done, \<open>enum\<close> is what the enumerator answers.
\<close>

definition capture_tick :: "(string \<Rightarrow> string) \<Rightarrow> gotime \<Rightarrow> gotime \<Rightarrow> bool \<Rightarrow> Window list option \<Rightarrow> capturer \<Rightarrow> capturer client" where
  "capture_tick sha captured now fin enum c =
     (if fin \<or> cap_locked c then ret c
      else case enum of
        None \<Rightarrow> ret c
      | Some windows \<Rightarrow>
          let hash = HashWindows sha windows in
          if hash = cap_lastHash c then ret c
          else bindM (attempt (InsertSnapshot now captured (windows_json windows) hash)) (\<lambda>r.
               case r of Inl _ \<Rightarrow> ret c | Inr _ \<Rightarrow> ret (c\<lparr>cap_lastHash := hash\<rparr>)))"

datatype capture_event = CapState State | CapTick gotime gotime bool "Window list option" | CapStop

text \<open>
  The subscriber and the ticker take turns; a stopped capturer takes no more events.
\<close>

fun capture_step :: "(string \<Rightarrow> string) \<Rightarrow> capture_event \<Rightarrow> capturer \<Rightarrow> capturer client" where
  "capture_step sha (CapState st) c = ret (if cap_stopped c then c else c\<lparr>cap_locked := (st = Away)\<rparr>)"
| "capture_step sha (CapTick captured now fin enum) c =
     (if cap_stopped c then ret c else capture_tick sha captured now fin enum c)"
| "capture_step sha CapStop c = ret (StopCapturer c)"

fun capture_run :: "(string \<Rightarrow> string) \<Rightarrow> capture_event list \<Rightarrow> capturer \<Rightarrow> capturer client" where
  "capture_run sha [] c = ret c"
| "capture_run sha (e # es) c = bindM (capture_step sha e c) (capture_run sha es)"

section \<open>The upload\<close>

text \<open>A body that cannot be read is an empty one here, where \<open>Sync_Client.post\<close> fails.\<close>

definition layout_backoffSchedule :: "gotime list" where
  "layout_backoffSchedule = [1 * minute, 5 * minute, 15 * minute, 1 * hour]"

definition layout_backoffFor :: "int \<Rightarrow> gotime" where
  "layout_backoffFor n =
     (if n < int (length layout_backoffSchedule) then layout_backoffSchedule ! nat n else 1 * hour)"

lemma layout_backoff_same: "layout_backoffFor = backoffFor"
  by (simp add: fun_eq_iff layout_backoffFor_def backoffFor_def layout_backoffSchedule_def backoffSchedule_def)

interpretation layout_retry: retry_policy layout_backoffFor
  unfolding layout_backoff_same by (rule submission_retry.retry_policy_axioms)

record pendingRow =
  prow_id :: rowid
  prow_captured :: gotime
  prow_windows :: body
  prow_hash :: string
  prow_retries :: int
  prow_last :: "gotime option"

definition scanPendingRow :: "snapshot_row \<Rightarrow> pendingRow" where
  "scanPendingRow r = \<lparr>prow_id = ls_id r, prow_captured = parse_rfc3339 (ls_captured r),
     prow_windows = ls_windows r, prow_hash = ls_hash r, prow_retries = ls_retries r,
     prow_last = map_option parse_rfc3339 (ls_last_retry r)\<rparr>"

definition due_rows :: "gotime \<Rightarrow> pendingRow list \<Rightarrow> pendingRow list" where
  "due_rows now ps = filter (\<lambda>p. case prow_last p of None \<Rightarrow> True
     | Some l \<Rightarrow> \<not> now < l + layout_backoffFor (prow_retries p)) ps"

definition listDueSnapshots :: "'p env \<Rightarrow> pendingRow list client" where
  "listDueSnapshots env =
     bindM (query ''layout sync: list pending'' (\<lambda>d. map scanPendingRow (unsynced d))) (\<lambda>ps.
     bindM (sample (env_now env)) (\<lambda>now.
     ret (due_rows now ps)))"

record batchPayload =
  BatchDeviceID :: string
  BatchSnapshots :: "(stamp \<times> string \<times> json) list"

text \<open>Marshalling a batch with an empty windows text (not JSON) fails before anything is sent.\<close>

definition batch_of :: "string \<Rightarrow> pendingRow list \<Rightarrow> batchPayload" where
  "batch_of deviceID due = \<lparr>BatchDeviceID = deviceID,
     BatchSnapshots = map (\<lambda>p. (rfc3339 (prow_captured p), prow_hash p, the (prow_windows p))) due\<rparr>"

definition postBatch_reply :: "http \<Rightarrow> sync_error option" where
  "postBatch_reply r =
     (case r of
        NoResponse \<Rightarrow> Some OtherError
      | Response status b \<Rightarrow>
          if status = 200 \<or> status = 201 then None
          else if status = 401 \<or> status = 403 then Some (ClassifyAuthError b status)
          else Some OtherError)"

definition postBatch :: "batchPayload env \<Rightarrow> string \<Rightarrow> pendingRow list \<Rightarrow>
    ((batchPayload \<times> http) list \<times> sync_error option) client" where
  "postBatch env deviceID due =
     (if \<exists>p \<in> set due. prow_windows p = None then ret ([], Some OtherError)
      else bindM (sample (\<lambda>k. env_post env k (batch_of deviceID due))) (\<lambda>reply.
           ret ([(batch_of deviceID due, reply)], postBatch_reply reply)))"

text \<open>Posting one batch and recording the result on its rows.\<close>

definition upload_batch :: "batchPayload env \<Rightarrow> string \<Rightarrow> pendingRow list \<Rightarrow> (batchPayload \<times> http) list client" where
  "upload_batch env deviceID batch =
     bindM (postBatch env deviceID batch) (\<lambda>(tr, res).
     case res of
       Some e \<Rightarrow>
         if permanent e then ret tr
         else bindM (forM batch (\<lambda>p. logged (bindM (sample (env_now env)) (\<lambda>now.
                BumpRetry now (prow_id p) (prow_retries p + 1))))) (\<lambda>_. ret tr)
     | None \<Rightarrow>
         bindM (sample (env_now env)) (\<lambda>now.
         bindM (forM batch (\<lambda>p. logged (MarkSynced (prow_id p) now))) (\<lambda>_. ret tr)))"

definition first_batch :: "int \<Rightarrow> pendingRow list \<Rightarrow> pendingRow list" where
  "first_batch batchSize due =
     (if 0 < batchSize \<and> batchSize < int (length due) then take (nat batchSize) due else due)"

definition LayoutProcessPending :: "batchPayload env \<Rightarrow> string \<Rightarrow> int \<Rightarrow> (batchPayload \<times> http) list client" where
  "LayoutProcessPending env deviceID batchSize =
     bindM (attempt (listDueSnapshots env)) (\<lambda>r.
     case r of
       Inl _ \<Rightarrow> ret []
     | Inr due \<Rightarrow> if due = [] then ret [] else upload_batch env deviceID (first_batch batchSize due))"

section \<open>The hash is canonical\<close>

definition nul_free :: "Window \<Rightarrow> bool" where
  "nul_free w = (nul \<notin> set (WinApp w) \<and> nul \<notin> set (WinTitle w))"

lemma cut_eq: "c \<notin> set a \<Longrightarrow> c \<notin> set b \<Longrightarrow> a @ c # x = b @ c # y \<longleftrightarrow> a = b \<and> x = y"
proof (induction a arbitrary: b)
  case Nil
  then show ?case by (cases b) auto
next
  case (Cons h a)
  then show ?case by (cases b) auto
qed

lemma show_int_clean: "nul \<notin> set (show_int i)" "row_end \<notin> set (show_int i)"
proof -
  have "\<not> is_digit nul" "nul \<noteq> CHR ''-''" "\<not> is_digit row_end" "row_end \<noteq> CHR ''-''"
    by (simp_all add: is_digit_def nul_def row_end_def)
  then show "nul \<notin> set (show_int i)" "row_end \<notin> set (show_int i)"
    using show_int_chars by metis+
qed

lemma window_bytes_inj:
  assumes "nul_free v" "nul_free w" "window_bytes v @ x = window_bytes w @ y"
  shows "v = w \<and> x = y"
proof -
  have "WinApp v = WinApp w \<and> WinTitle v = WinTitle w \<and> show_int (WinX v) = show_int (WinX w) \<and>
      show_int (WinY v) = show_int (WinY w) \<and> show_int (WinW v) = show_int (WinW w) \<and>
      show_int (WinH v) = show_int (WinH w) \<and> x = y"
    using assms by (simp add: window_bytes_def nul_free_def cut_eq show_int_clean)
  then show ?thesis by (cases v; cases w) (auto dest: show_int_inj)
qed

lemma window_bytes_ne: "window_bytes w \<noteq> []"
  by (simp add: window_bytes_def)

lemma concat_bytes_inj:
  "list_all nul_free vs \<Longrightarrow> list_all nul_free ws \<Longrightarrow>
   concat (map window_bytes vs) = concat (map window_bytes ws) \<Longrightarrow> vs = ws"
proof (induction vs arbitrary: ws)
  case Nil
  then show ?case using window_bytes_ne by (cases ws) auto
next
  case Cons': (Cons v vs)
  show ?case
  proof (cases ws)
    case Nil
    then show ?thesis using Cons'.prems(3) window_bytes_ne [of v] by simp
  next
    case (Cons w us)
    have "v = w \<and> concat (map window_bytes vs) = concat (map window_bytes us)"
      using Cons'.prems \<open>ws = w # us\<close> by (intro window_bytes_inj) simp_all
    then show ?thesis using Cons'.IH [of us] Cons'.prems \<open>ws = w # us\<close> by simp
  qed
qed

lemma sort_key_mset:
  assumes "inj k"
  shows "sort_key k xs = sort_key k ys \<longleftrightarrow> mset xs = mset ys"
proof
  assume "mset xs = mset ys"
  then have "mset (map k xs) = mset (map k ys)" by simp
  moreover have "map k (sort_key k zs) = sort (map k zs)" for zs
    by (intro properties_for_sort [symmetric]) simp_all
  ultimately have "map k (sort_key k xs) = map k (sort_key k ys)"
    by (metis mset_sort sorted_sort properties_for_sort)
  then show "sort_key k xs = sort_key k ys" using assms by (simp add: inj_map_eq_map)
next
  assume "sort_key k xs = sort_key k ys"
  then show "mset xs = mset ys" by (metis mset_sort)
qed

lemma inj_window_key: "inj window_key"
  by (auto simp: inj_def window_key_def)

lemma hash_stream_eq:
  assumes "list_all nul_free vs" "list_all nul_free ws"
  shows "hash_stream vs = hash_stream ws \<longleftrightarrow> mset vs = mset ws"
proof -
  have "hash_stream vs = hash_stream ws \<longleftrightarrow> sort_key window_key vs = sort_key window_key ws"
    using assms concat_bytes_inj [of "sort_key window_key vs" "sort_key window_key ws"]
    by (auto simp: hash_stream_def list_all_iff)
  then show ?thesis by (simp add: sort_key_mset [OF inj_window_key])
qed

text \<open>
  C26: The hash is canonical: for windows whose names hold no NUL byte and a digest without
  collisions, two lists of windows have the same hash iff they are the same windows in some order
  (each as often), so the change detection misses no change and sees none that is not there.
\<close>

theorem hash_canonical:
  assumes "inj sha" "list_all nul_free vs" "list_all nul_free ws"
  shows "HashWindows sha vs = HashWindows sha ws \<longleftrightarrow> mset vs = mset ws"
  using hash_stream_eq [OF assms(2,3)] assms(1) by (simp add: HashWindows_def inj_eq)

definition win1 :: Window where
  "win1 = \<lparr>WinApp = ''vim'', WinTitle = ''a'', WinX = 0, WinY = 0, WinW = 10, WinH = 5\<rparr>"

definition win2 :: Window where
  "win2 = \<lparr>WinApp = ''firefox'', WinTitle = ''b'', WinX = 3, WinY = - 1, WinW = 80, WinH = 25\<rparr>"

lemma wins_nul_free: "nul_free win1" "nul_free win2"
  by (simp_all add: nul_free_def win1_def win2_def nul_def)

lemma hash_canonical_witness:
  "HashWindows id [win1, win2] = HashWindows id [win2, win1] \<and> HashWindows id [win1] \<noteq> HashWindows id [win1, win1]"
  using hash_canonical [of id "[win1, win2]" "[win2, win1]"] hash_canonical [of id "[win1]" "[win1, win1]"]
  by (simp add: wins_nul_free add_mset_commute)

text \<open>
  The windows of a snapshot are read back from their column as they were captured.
\<close>

theorem windows_round_trip: "decodeWindows (windows_json ws) = Some ws"
proof -
  have "read_window (window_json w) = Some w" for w
    by (simp add: window_json_def read_window_def decodes_def string_field_def num_field_def
        EqualFold_def ToLower_def lower_char_def)
  then show ?thesis
    by (induction ws) (simp_all add: windows_json_def)
qed

section \<open>The store's invariant\<close>

lemma layout_row_updates [simp]:
  "ls_id (synced_row t r) = ls_id r" "ls_id (snap_retry_row n t r) = ls_id r"
  by (simp_all add: synced_row_def snap_retry_row_def)

interpretation snap_synced: keyed_update ls_id "synced_row t" for t by unfold_locales simp
interpretation snap_bumped: keyed_update ls_id "snap_retry_row n t" for n t by unfold_locales simp

lemma store_inv_snapshots:
  "store_inv d \<Longrightarrow> distinct (map ls_id rows) \<Longrightarrow> store_inv (d\<lparr>layout_snapshots := rows\<rparr>)"
  by (simp add: store_inv_defs)

lemma snapshots_distinct: "store_inv d \<Longrightarrow> distinct (map ls_id (layout_snapshots d))"
  by (simp add: store_inv_def store_wf_def)

lemma keeps_layout [keeps_rules]:
  "keeps store_inv (InsertSnapshot now t b h)" "keeps store_inv (MarkSynced i t)"
  "keeps store_inv (BumpRetry now i n)" "keeps store_inv (Prune now ret')"
  unfolding InsertSnapshot_def MarkSynced_def BumpRetry_def Prune_def
  by (rule keeps_stmt; auto simp: Let_def snap_synced.map_key_update snap_bumped.map_key_update
      snapshots_distinct distinct_map_delete intro!: store_inv_snapshots)+

lemma keeps_layout_loops [keeps_rules]:
  "keeps store_inv (RunPrune retention turns)"
  "keeps store_inv (capture_step sha e c)"
  "keeps store_inv (LayoutProcessPending env dev n)"
proof -
  show "keeps store_inv (RunPrune retention turns)"
    unfolding RunPrune_def by (intro keeps_rules)
  show "keeps store_inv (capture_step sha e c)"
    by (cases e) (auto simp: capture_tick_def Let_def intro!: keeps_rules)
  show "keeps store_inv (LayoutProcessPending env dev n)"
    unfolding LayoutProcessPending_def upload_batch_def listDueSnapshots_def postBatch_def
    by (intro keeps_rules)
qed

lemma keeps_capture_run [keeps_rules]: "keeps store_inv (capture_run sha es c)"
  by (induction es arbitrary: c) (auto intro: keeps_rules)

section \<open>What the capture loop records\<close>

text \<open>
  The specification: the sets of windows that are recorded, given whether the screen is locked,
  whether the capturer is stopped, and the last set recorded.
\<close>

fun spec_capture :: "bool \<Rightarrow> bool \<Rightarrow> Window list option \<Rightarrow> capture_event list \<Rightarrow> (gotime \<times> Window list) list" where
  "spec_capture locked stopped prev [] = []"
| "spec_capture locked stopped prev (CapState st # es) =
     spec_capture (if stopped then locked else st = Away) stopped prev es"
| "spec_capture locked stopped prev (CapStop # es) = spec_capture locked True prev es"
| "spec_capture locked stopped prev (CapTick captured now fin enum # es) =
     (case enum of
        Some ws \<Rightarrow>
          if stopped \<or> fin \<or> locked \<or> (\<exists>v. prev = Some v \<and> mset v = mset ws)
          then spec_capture locked stopped prev es
          else (captured, ws) # spec_capture locked stopped (Some ws) es
      | None \<Rightarrow> spec_capture locked stopped prev es)"

definition remembers :: "(string \<Rightarrow> string) \<Rightarrow> Window list option \<Rightarrow> string \<Rightarrow> bool" where
  "remembers sha prev h =
     (case prev of None \<Rightarrow> h = [] | Some v \<Rightarrow> h = HashWindows sha v \<and> list_all nul_free v)"

fun event_nul_free :: "capture_event \<Rightarrow> bool" where
  "event_nul_free (CapTick captured now fin (Some ws)) = list_all nul_free ws"
| "event_nul_free e = True"

definition captured_row :: "snapshot_row \<Rightarrow> stamp \<times> body" where
  "captured_row r = (ls_captured r, ls_windows r)"

lemma capture_run_spec:
  assumes "inj sha" "\<And>x. sha x \<noteq> []"
  shows "\<forall>e \<in> set es. event_nul_free e \<Longrightarrow> no_fault s \<Longrightarrow>
     remembers sha prev (cap_lastHash c) \<Longrightarrow>
     \<exists>c' s'. capture_run sha es c s = (Inr c', s') \<and>
       map captured_row (layout_snapshots (tables s')) = map captured_row (layout_snapshots (tables s)) @
         map (\<lambda>(t, ws). (rfc3339 t, windows_json ws)) (spec_capture (cap_locked c) (cap_stopped c) prev es)"
proof (induction es arbitrary: s c prev)
  case Nil
  then show ?case by (simp add: ret_def)
next
  case (Cons e es)
  show ?case
  proof (cases e)
    case (CapState st)
    have "capture_run sha (e # es) c s = capture_run sha es (if cap_stopped c then c else c\<lparr>cap_locked := (st = Away)\<rparr>) s"
      by (simp add: CapState bindM_def ret_def)
    then show ?thesis
      using Cons.IH [of s prev "if cap_stopped c then c else c\<lparr>cap_locked := (st = Away)\<rparr>"] Cons.prems
      by (auto simp: CapState split: if_splits)
  next
    case CapStop
    then show ?thesis
      using Cons.IH [of s prev "StopCapturer c"] Cons.prems
      by (simp add: bindM_def ret_def StopCapturer_def)
  next
    case (CapTick captured now fin enum)
    have quiet: ?thesis if "capture_step sha e c s = (Inr c, s)"
      and "spec_capture (cap_locked c) (cap_stopped c) prev (e # es) = spec_capture (cap_locked c) (cap_stopped c) prev es"
      using Cons.IH [of s prev c] Cons.prems that by (simp add: bindM_def)
    show ?thesis
    proof (cases enum)
      case None
      then show ?thesis by (intro quiet) (auto simp: CapTick capture_tick_def ret_def)
    next
      case (Some ws)
      then have nf: "list_all nul_free ws" using Cons.prems(1) CapTick by simp
      have seen: "HashWindows sha ws = cap_lastHash c \<longleftrightarrow> (\<exists>v. prev = Some v \<and> mset v = mset ws)"
      proof (cases prev)
        case None
        then show ?thesis using Cons.prems(3) assms(2) by (simp add: remembers_def HashWindows_def)
      next
        case (Some v)
        then have "cap_lastHash c = HashWindows sha v" "list_all nul_free v"
          using Cons.prems(3) by (simp_all add: remembers_def)
        then show ?thesis using hash_canonical [OF assms(1) nf, of v] Some by auto
      qed
      show ?thesis
      proof (cases "cap_stopped c \<or> fin \<or> cap_locked c \<or> HashWindows sha ws = cap_lastHash c")
        case True
        then show ?thesis
          by (intro quiet) (auto simp: CapTick Some capture_tick_def ret_def Let_def simp flip: seen)
      next
        case False
        define c1 where "c1 = c\<lparr>cap_lastHash := HashWindows sha ws\<rparr>"
        obtain s1 where s1: "capture_step sha e c s = (Inr c1, s1)" "no_fault s1"
          "map captured_row (layout_snapshots (tables s1)) =
             map captured_row (layout_snapshots (tables s)) @ [(rfc3339 captured, windows_json ws)]"
          using False Cons.prems(2)
          by (simp add: CapTick Some capture_tick_def Let_def bindM_def attempt_def InsertSnapshot_def stmt_def
              ret_def c1_def captured_row_def)
        have "remembers sha (Some ws) (cap_lastHash c1)" by (simp add: remembers_def c1_def nf)
        from Cons.IH [OF _ s1(2) this] Cons.prems(1) obtain c' s' where
          "capture_run sha es c1 s1 = (Inr c', s')"
          "map captured_row (layout_snapshots (tables s')) = map captured_row (layout_snapshots (tables s1)) @
             map (\<lambda>(t, ws). (rfc3339 t, windows_json ws)) (spec_capture (cap_locked c1) (cap_stopped c1) (Some ws) es)"
          by auto
        then show ?thesis using s1 False by (simp add: bindM_def CapTick Some c1_def flip: seen)
      qed
    qed
  qed
qed

text \<open>
  C20: When no statement fails, the capture loop records exactly the sets of windows the
  specification says: one per tick that sees another set than the last one recorded, none while
  the screen is locked, after a stop, or where the enumeration fails.
\<close>

theorem capture_records_changes:
  assumes "inj sha" "\<forall>x. sha x \<noteq> []" "\<forall>e \<in> set es. event_nul_free e" "no_fault s"
  shows "map captured_row (layout_snapshots (tables (snd (capture_run sha es NewCapturer s)))) =
     map captured_row (layout_snapshots (tables s)) @
     map (\<lambda>(t, ws). (rfc3339 t, windows_json ws)) (spec_capture False False None es)"
  using capture_run_spec [of sha es s None NewCapturer] assms
  by (auto simp: NewCapturer_def remembers_def)

definition hex_like :: "string \<Rightarrow> string" where "hex_like s = CHR ''h'' # s"

lemma win_neq: "win1 \<noteq> win2" "win2 \<noteq> win1"
  by (simp_all add: win1_def win2_def)

lemma empty_snapshots: "layout_snapshots empty_store = []"
  by (simp add: empty_store_def)

lemma capture_records_changes_witness:
  "map captured_row (layout_snapshots (tables (snd (capture_run hex_like
      [CapTick 0 0 False (Some [win1]), CapTick (60 * second) 0 False (Some [win1]), CapState Away,
       CapTick (120 * second) 0 False (Some [win2]), CapState Tracking, CapTick (180 * second) 0 False (Some [win2])]
      NewCapturer (healthy empty_store))))) = [(0, windows_json [win1]), (180, windows_json [win2])]"
  using capture_records_changes [of hex_like
      "[CapTick 0 0 False (Some [win1]), CapTick (60 * second) 0 False (Some [win1]), CapState Away,
       CapTick (120 * second) 0 False (Some [win2]), CapState Tracking, CapTick (180 * second) 0 False (Some [win2])]"
      "healthy empty_store"]
  by (simp add: hex_like_def inj_def wins_nul_free empty_snapshots rfc3339_def second_def win_neq)

section \<open>What an upload pass does\<close>

text \<open>Updating the rows of a list by key, where each statement may fail on its own.\<close>

definition touched :: "pendingRow list \<Rightarrow> (pendingRow \<Rightarrow> stamp \<Rightarrow> snapshot_row \<Rightarrow> snapshot_row) \<Rightarrow>
    snapshot_row \<Rightarrow> snapshot_row \<Rightarrow> bool" where
  "touched qs f r r' = (r' = r \<or> (\<exists>q \<in> set qs. prow_id q = ls_id r \<and> (\<exists>t. r' = f q t r)))"

definition rows_step :: "pendingRow list \<Rightarrow> (pendingRow \<Rightarrow> stamp \<Rightarrow> snapshot_row \<Rightarrow> snapshot_row) \<Rightarrow>
    client_tables \<Rightarrow> client_tables \<Rightarrow> bool" where
  "rows_step qs f d d' =
     (\<exists>rows. d' = d\<lparr>layout_snapshots := rows\<rparr> \<and> list_all2 (touched qs f) (layout_snapshots d) rows)"

lemma rows_step_refl: "rows_step qs f d d"
  unfolding rows_step_def by (rule exI [of _ "layout_snapshots d"]) (simp add: touched_def list_all2_same)

lemma rows_step_one:
  "rows_step [q] f d (d\<lparr>layout_snapshots := sql_update (\<lambda>r. ls_id r = prow_id q) (f q t) (layout_snapshots d)\<rparr>)"
  unfolding rows_step_def sql_update_def
  by (rule exI, rule conjI, rule refl) (auto simp: touched_def list_all2_map2 list_all2_same)

lemma touched_Cons:
  assumes "touched [q] f r r1" "touched qs f r1 r2" "prow_id q \<notin> prow_id ` set qs" "\<And>q t r. ls_id (f q t r) = ls_id r"
  shows "touched (q # qs) f r r2"
proof (cases "r1 = r")
  case True
  then show ?thesis using assms(2) by (auto simp: touched_def)
next
  case False
  then have id: "prow_id q = ls_id r" "\<exists>t. r1 = f q t r" using assms(1) by (auto simp: touched_def)
  then have "ls_id r1 = prow_id q" using assms(4) by auto
  then have "r2 = r1" using assms(2,3) unfolding touched_def by (metis imageI)
  then show ?thesis using id by (auto simp: touched_def)
qed

lemma rows_step_Cons:
  assumes "rows_step [q] f d d1" "rows_step qs f d1 d2" "prow_id q \<notin> prow_id ` set qs"
    and "\<And>q t r. ls_id (f q t r) = ls_id r"
  shows "rows_step (q # qs) f d d2"
proof -
  obtain xs where xs: "d1 = d\<lparr>layout_snapshots := xs\<rparr>" "list_all2 (touched [q] f) (layout_snapshots d) xs"
    using assms(1) unfolding rows_step_def by blast
  obtain ys where ys: "d2 = d1\<lparr>layout_snapshots := ys\<rparr>" "list_all2 (touched qs f) (layout_snapshots d1) ys"
    using assms(2) unfolding rows_step_def by blast
  have "list_all2 (touched qs f) xs ys" using ys(2) xs(1) by simp
  then have "list_all2 (touched (q # qs) f) (layout_snapshots d) ys"
    using touched_Cons [where q = q and qs = qs and f = f, OF _ _ assms(3,4)] xs(2)
    by (rule list_all2_trans [rotated 2]) assumption+
  moreover have "d2 = d\<lparr>layout_snapshots := ys\<rparr>" using xs(1) ys(1) by simp
  ultimately show ?thesis unfolding rows_step_def by blast
qed

lemma forM_rows_step:
  assumes "\<And>q t r. ls_id (f q t r) = ls_id r"
    and "\<And>q s. q \<in> set qs \<Longrightarrow> wp (g q) (\<lambda>_ s'. rows_step [q] f (tables s) (tables s')) (\<lambda>_ _. False) s"
    and "distinct (map prow_id qs)"
  shows "wp (forM qs g) (\<lambda>_ s'. rows_step qs f (tables s) (tables s')) (\<lambda>_ _. False) s"
  using assms(2,3)
proof (induction qs arbitrary: s)
  case Nil
  then show ?case by (simp add: wp_ret rows_step_refl)
next
  case (Cons q qs)
  have "wp (g q) (\<lambda>_. wp (forM qs g) (\<lambda>_ s'. rows_step (q # qs) f (tables s) (tables s')) (\<lambda>_ _. False))
      (\<lambda>_ _. False) s"
  proof (rule wp_mono [OF Cons.prems(1) [of q s]])
    fix x :: unit and s1 :: "client_tables db"
    assume s1: "rows_step [q] f (tables s) (tables s1)"
    have "wp (forM qs g) (\<lambda>_ s'. rows_step qs f (tables s1) (tables s')) (\<lambda>_ _. False) s1"
      using Cons by simp
    then show "wp (forM qs g) (\<lambda>_ s'. rows_step (q # qs) f (tables s) (tables s')) (\<lambda>_ _. False) s1"
      by (rule wp_mono) (use s1 Cons.prems(2) assms(1) rows_step_Cons in auto)
  qed simp_all
  then show ?case by (simp add: wp_bindM)
qed

lemma bump_step: "wp (logged (bindM (sample (env_now env)) (\<lambda>now. BumpRetry now (prow_id q) (prow_retries q + 1))))
    (\<lambda>_ s'. rows_step [q] (\<lambda>q. snap_retry_row (prow_retries q + 1)) (tables s) (tables s')) (\<lambda>_ _. False) s"
  using rows_step_one [of q "\<lambda>q. snap_retry_row (prow_retries q + 1)"]
  by (simp add: wp_rules BumpRetry_def rows_step_refl)

lemma mark_step: "wp (logged (MarkSynced (prow_id q) now))
    (\<lambda>_ s'. rows_step [q] (\<lambda>_. synced_row) (tables s) (tables s')) (\<lambda>_ _. False) s"
  using rows_step_one [of q "\<lambda>_. synced_row"]
  by (simp add: wp_rules MarkSynced_def rows_step_refl)

definition in_batch :: "pendingRow list \<Rightarrow> batchPayload env \<Rightarrow> client_tables \<Rightarrow> bool" where
  "in_batch qs env d =
     (distinct (map prow_id qs) \<and>
      (\<forall>q \<in> set qs. \<exists>r \<in> set (unsynced d). q = scanPendingRow r \<and>
         (\<exists>k. due_at layout_backoffFor (env_now env k) (ls_retries r) (ls_last_retry r))))"

definition layout_passed :: "batchPayload env \<Rightarrow> string \<Rightarrow> client_tables \<Rightarrow> (batchPayload \<times> http) list \<Rightarrow>
    client_tables \<Rightarrow> bool" where
  "layout_passed env dev d tr d' =
     (tr = [] \<and> d' = d \<or>
      (\<exists>qs. in_batch qs env d \<and>
        (tr = [] \<and> (\<exists>q \<in> set qs. prow_windows q = None) \<and> rows_step qs (\<lambda>q. snap_retry_row (prow_retries q + 1)) d d' \<or>
         (\<exists>reply. tr = [(batch_of dev qs, reply)] \<and> (\<forall>q \<in> set qs. prow_windows q \<noteq> None) \<and>
            (case postBatch_reply reply of
               None \<Rightarrow> rows_step qs (\<lambda>_. synced_row) d d'
             | Some e \<Rightarrow> if permanent e then d' = d
                         else rows_step qs (\<lambda>q. snap_retry_row (prow_retries q + 1)) d d')))))"

lemma scanPendingRow_id [simp]: "prow_id (scanPendingRow r) = ls_id r"
  by (simp add: scanPendingRow_def)

lemma distinct_unsynced: "store_inv d \<Longrightarrow> distinct (map ls_id (unsynced d))"
  unfolding unsynced_def distinct_map_order
  by (simp add: snapshots_distinct distinct_map_filter)

lemma in_batch_due:
  assumes "set qs \<subseteq> set (due_rows (env_now env k) (map scanPendingRow (unsynced d)))" "distinct (map prow_id qs)"
  shows "in_batch qs env d"
  unfolding in_batch_def
proof (intro conjI ballI)
  fix q assume "q \<in> set qs"
  then have "q \<in> set (due_rows (env_now env k) (map scanPendingRow (unsynced d)))" using assms(1) by blast
  then obtain r where r: "r \<in> set (unsynced d)" "q = scanPendingRow r"
    "case prow_last q of None \<Rightarrow> True | Some l \<Rightarrow> \<not> env_now env k < l + layout_backoffFor (prow_retries q)"
    by (auto simp: due_rows_def)
  have "due_at layout_backoffFor (env_now env k) (ls_retries r) (ls_last_retry r)"
    using r(2,3) by (cases "ls_last_retry r") (simp_all add: due_at_def scanPendingRow_def)
  with r show "\<exists>r \<in> set (unsynced d). q = scanPendingRow r \<and>
      (\<exists>k. due_at layout_backoffFor (env_now env k) (ls_retries r) (ls_last_retry r))" by blast
qed (rule assms(2))

lemma post_step:
  assumes "in_batch qs env (tables s)"
  shows "wp (upload_batch env dev qs) (\<lambda>tr s'. layout_passed env dev (tables s) tr (tables s')) (\<lambda>_ _. False) s"
proof -
  have dist: "distinct (map prow_id qs)" using assms by (simp add: in_batch_def)
  have bump: "wp (forM qs (\<lambda>p. logged (bindM (sample (env_now env)) (\<lambda>now.
                      BumpRetry now (prow_id p) (prow_retries p + 1)))))
     (\<lambda>_ s'. rows_step qs (\<lambda>q. snap_retry_row (prow_retries q + 1)) (tables s) (tables s')) (\<lambda>_ _. False) s"
    by (intro forM_rows_step bump_step dist) simp
  have mark: "wp (forM qs (\<lambda>p. logged (MarkSynced (prow_id p) now)))
     (\<lambda>_ s'. rows_step qs (\<lambda>_. synced_row) (tables s) (tables s')) (\<lambda>_ _. False) s" for now
    by (intro forM_rows_step mark_step dist) simp
  show ?thesis
  proof (cases "\<exists>p \<in> set qs. prow_windows p = None")
    case True
    have "wp (forM qs (\<lambda>p. logged (bindM (sample (env_now env)) (\<lambda>now.
                      BumpRetry now (prow_id p) (prow_retries p + 1)))))
       (\<lambda>_ s'. layout_passed env dev (tables s) [] (tables s')) (\<lambda>_ _. False) s"
      by (rule wp_mono [OF bump]) (use True assms in \<open>auto simp: layout_passed_def\<close>)
    then show ?thesis using True by (simp add: upload_batch_def postBatch_def wp_rules)
  next
    case False
    define reply where "reply = env_post env (ticks s) (batch_of dev qs)"
    have all: "\<forall>q \<in> set qs. prow_windows q \<noteq> None" using False by auto
    have post: "postBatch env dev qs = bindM (sample (\<lambda>k. env_post env k (batch_of dev qs))) (\<lambda>reply.
           ret ([(batch_of dev qs, reply)], postBatch_reply reply))"
      unfolding postBatch_def using False by (rule if_not_P)
    show ?thesis
    proof (cases "postBatch_reply reply")
      case None
      have "wp (forM qs (\<lambda>p. logged (MarkSynced (prow_id p) now)))
         (\<lambda>_ s'. layout_passed env dev (tables s) [(batch_of dev qs, reply)] (tables s')) (\<lambda>_ _. False) s" for now
        by (rule wp_mono [OF mark]) (use all None assms in \<open>auto simp: layout_passed_def\<close>)
      then show ?thesis using None by (simp add: upload_batch_def post wp_rules reply_def)
    next
      case (Some e)
      show ?thesis
      proof (cases "permanent e")
        case True
        then have "layout_passed env dev (tables s) [(batch_of dev qs, reply)] (tables s)"
          using all Some assms by (auto simp: layout_passed_def)
        then show ?thesis using Some True by (simp add: upload_batch_def post wp_rules reply_def)
      next
        case temporary: False
        have "wp (forM qs (\<lambda>p. logged (bindM (sample (env_now env)) (\<lambda>now.
                      BumpRetry now (prow_id p) (prow_retries p + 1)))))
           (\<lambda>_ s'. layout_passed env dev (tables s) [(batch_of dev qs, reply)] (tables s')) (\<lambda>_ _. False) s"
          by (rule wp_mono [OF bump]) (use all Some temporary assms in \<open>auto simp: layout_passed_def\<close>)
        then show ?thesis using Some temporary by (simp add: upload_batch_def post wp_rules reply_def)
      qed
    qed
  qed
qed

text \<open>
  Whatever statement fails and whatever the server answers, an upload pass of snapshots
  changes no other table and sends at most one batch, made of unsynced rows that are due, each
  once. The rows of the batch, and no others, may change: to synced if the server accepted the
  batch, to one more retry if it failed for a reason that is not permanent, and not at all for a
  permanent one.
\<close>

theorem layout_pass_outcomes:
  assumes "store_inv (tables s)" "LayoutProcessPending env dev n s = (r, s')"
  shows "\<exists>tr. r = Inr tr \<and> layout_passed env dev (tables s) tr (tables s')"
proof -
  have idle: "layout_passed env dev d [] d" for d by (simp add: layout_passed_def)
  have "wp (LayoutProcessPending env dev n) (\<lambda>tr s'. layout_passed env dev (tables s) tr (tables s')) (\<lambda>_ _. False) s"
  proof (cases "fault s (ticks s)")
    case True
    then show ?thesis by (simp add: LayoutProcessPending_def listDueSnapshots_def wp_rules idle)
  next
    case False
    define due where "due = due_rows (env_now env (Suc (ticks s))) (map scanPendingRow (unsynced (tables s)))"
    have "prow_id \<circ> scanPendingRow = ls_id" by (simp add: fun_eq_iff)
    then have dist: "distinct (map prow_id due)"
      using distinct_unsynced [OF assms(1)] by (simp add: due_def due_rows_def filter_map distinct_map_filter)
    have "distinct (map prow_id (first_batch n due))" "set (first_batch n due) \<subseteq> set due"
      using dist by (auto simp: first_batch_def simp flip: take_map dest: in_set_takeD intro: distinct_take)
    then have "in_batch (first_batch n due) env (tables (s\<lparr>ticks := Suc (ticks s)\<rparr>))"
      using in_batch_due [of "first_batch n due" env "Suc (ticks s)" "tables s"] by (simp add: due_def)
    then show ?thesis
      using False post_step [of "first_batch n due" env "s\<lparr>ticks := Suc (ticks s)\<rparr>" dev]
      by (simp add: LayoutProcessPending_def listDueSnapshots_def wp_rules idle flip: due_def)
  qed
  then show ?thesis using assms(2) by (auto simp: wp_def split: sum.splits)
qed

definition layout_store :: client_tables where
  "layout_store = empty_store\<lparr>layout_snapshots :=
     [\<lparr>ls_id = 1, ls_captured = 0, ls_windows = windows_json [win1], ls_hash = ''h'', ls_synced = None,
       ls_retries = 2, ls_last_retry = Some 10, ls_created = 0\<rparr>]\<rparr>"

definition layout_env :: "batchPayload env" where
  "layout_env = \<lparr>env_now = (\<lambda>_. 4000 * second), env_done = (\<lambda>_. False), env_post = (\<lambda>_ _. Response 201 None)\<rparr>"

lemma layout_pass_outcomes_witness:
  "\<exists>tr. fst (LayoutProcessPending layout_env ''d'' 100 (healthy layout_store)) = Inr tr \<and>
     layout_passed layout_env ''d'' layout_store tr (tables (snd (LayoutProcessPending layout_env ''d'' 100 (healthy layout_store))))"
proof -
  have "store_inv (tables (healthy layout_store))"
    by (simp add: layout_store_def store_inv_defs empty_store_def)
  from layout_pass_outcomes [OF this prod.collapse [symmetric], of layout_env "''d''" 100] show ?thesis by simp
qed

end
