(* ===== verification/Server_Store.thy ===== *)
theory Server_Store
  imports Json
begin

text \<open>
  The server's PostgreSQL store (\<^verbatim>\<open>internal/server/store\<close>): the tables of the migrations, every
  operation on users, API keys, devices, timesheets, reports, the audit log, the settings and the
  layout snapshots, and the invariant of the schema.

  A UUID is a number; a new row gets an unused one. The arguments \<open>now\<close> are the database's
  \<^verbatim>\<open>now()\<close>. A Go time is written to a column with \<open>pg_time\<close>, which drops what is below a
  microsecond. \<^verbatim>\<open>INTEGER\<close> columns hold 32 bits.
\<close>

section \<open>Rows and tables\<close>

type_synonym uuid = int

definition pg_time :: "gotime \<Rightarrow> gotime" where
  "pg_time t = t div 1000 * 1000"

definition pg_int :: "int \<Rightarrow> bool" where
  "pg_int n = (- (2 ^ 31) \<le> n \<and> n < 2 ^ 31)"

record User =
  usr_id :: uuid
  usr_oid :: "string option"
  usr_email :: string
  usr_name :: string
  usr_role :: string
  usr_hash :: "string option"
  usr_force :: bool
  usr_created :: gotime
  usr_updated :: gotime

record APIKey =
  key_id :: uuid
  key_user :: uuid
  key_hash :: string
  key_prefix :: string
  key_last_used :: gotime
  key_expires :: gotime
  key_revoked :: bool
  key_created :: gotime
  key_revoked_at :: "gotime option"

record Device =
  dev_id :: uuid
  dev_user :: uuid
  dev_key :: uuid
  dev_client :: string
  dev_name :: "string option"
  dev_os :: string
  dev_seen :: gotime
  dev_created :: gotime

record Timesheet =
  ts_id :: uuid
  ts_user :: uuid
  ts_device :: uuid
  ts_submitted :: gotime
  ts_created :: gotime

record entry_row =
  en_id :: uuid
  en_timesheet :: uuid
  en_tag :: string
  en_started :: gotime
  en_ended :: gotime
  en_duration :: int
  en_notes :: "string option"
  en_summary :: "string option"

record AuditLogEntry =
  au_id :: uuid
  au_admin :: uuid
  au_action :: string
  au_type :: string
  au_target :: uuid
  au_old :: body
  au_new :: body
  au_created :: gotime

record OrgSettings =
  OrgName :: string
  EntraTenant :: string
  EntraClient :: string
  EntraSecret :: string
  KeyExpiryDays :: int
  SettingsUpdated :: gotime

record LayoutSnapshot =
  ss_id :: uuid
  ss_device :: uuid
  ss_captured :: gotime
  ss_windows :: json
  ss_hash :: string
  ss_tier :: string
  ss_created :: gotime

text \<open>
  The parameters of the OIDC configuration the handlers share (\<^verbatim>\<open>deps.OIDCConfig\<close>): it is a cache of the
  process, kept here next to the tables.
\<close>

record OIDCParams =
  TenantID :: string
  ClientID :: string
  ClientSecret :: string
  RedirectURL :: string

record server_tables =
  users :: "User list"
  api_keys :: "APIKey list"
  devices :: "Device list"
  timesheets :: "Timesheet list"
  ts_entries :: "entry_row list"
  audit_log :: "AuditLogEntry list"
  org_settings :: "OrgSettings option"
  snapshots :: "LayoutSnapshot list"
  layout_migrated :: bool
  oidc_cache :: "OIDCParams option"

type_synonym 'a srv = "(server_tables, 'a) dbm"

text \<open>What the migrations leave in an empty database.\<close>

definition default_settings :: OrgSettings where
  "default_settings = \<lparr>OrgName = ''My Organization'', EntraTenant = [], EntraClient = [], EntraSecret = [],
     KeyExpiryDays = 60, SettingsUpdated = 0\<rparr>"

definition migrated_db :: server_tables where
  "migrated_db = \<lparr>users = [], api_keys = [], devices = [], timesheets = [], ts_entries = [], audit_log = [],
     org_settings = Some default_settings, snapshots = [], layout_migrated = True, oidc_cache = None\<rparr>"

definition valid_role :: "string \<Rightarrow> bool" where
  "valid_role r = (r \<in> {''member'', ''manager'', ''admin''})"

text \<open>\<^verbatim>\<open>SELECT ... WHERE key = ?\<close> for one row, and \<^verbatim>\<open>LIMIT ? OFFSET ?\<close>.\<close>

definition one_row :: "string \<Rightarrow> (server_tables \<Rightarrow> 'r option) \<Rightarrow> 'r srv" where
  "one_row ctx f = stmt ctx (\<lambda>d. case f d of None \<Rightarrow> Inl (ENotFound ''not found'') | Some r \<Rightarrow> Inr (r, d))"

definition window_of :: "int \<Rightarrow> int \<Rightarrow> 'r list \<Rightarrow> 'r list" where
  "window_of limit offset rows = take (nat limit) (drop (nat offset) rows)"

definition limit_or_100 :: "int \<Rightarrow> int" where
  "limit_or_100 n = (if 0 < n then n else 100)"

section \<open>Users\<close>

definition user_ok :: "server_tables \<Rightarrow> User \<Rightarrow> bool" where
  "user_ok d u =
     (usr_email u \<notin> usr_email ` set (users d) \<and> valid_role (usr_role u) \<and>
      (usr_oid u = None \<or> usr_oid u \<notin> usr_oid ` set (users d)))"

definition insert_user :: "string \<Rightarrow> (uuid \<Rightarrow> User) \<Rightarrow> User srv" where
  "insert_user ctx new =
     stmt ctx (\<lambda>d. let u = new (next_rowid (map usr_id (users d)))
       in if user_ok d u then Inr (u, d\<lparr>users := users d @ [u]\<rparr>) else Inl (EConstraint ''users''))"

definition CreateUser :: "gotime \<Rightarrow> string \<Rightarrow> string \<Rightarrow> string \<Rightarrow> User srv" where
  "CreateUser now oid email name =
     insert_user ''creating user'' (\<lambda>i. \<lparr>usr_id = i, usr_oid = Some oid, usr_email = email, usr_name = name,
       usr_role = ''member'', usr_hash = None, usr_force = False, usr_created = now, usr_updated = now\<rparr>)"

definition CreateLocalUser :: "gotime \<Rightarrow> string \<Rightarrow> string \<Rightarrow> string \<Rightarrow> string \<Rightarrow> bool \<Rightarrow> User srv" where
  "CreateLocalUser now email name hash role force =
     insert_user ''creating local user'' (\<lambda>i. \<lparr>usr_id = i, usr_oid = None, usr_email = email, usr_name = name,
       usr_role = role, usr_hash = Some hash, usr_force = force, usr_created = now, usr_updated = now\<rparr>)"

definition GetUserByEntraOID :: "string \<Rightarrow> User srv" where
  "GetUserByEntraOID oid = one_row ''getting user by entra_oid'' (\<lambda>d. row_at usr_oid (Some oid) (users d))"

definition GetUserByID :: "uuid \<Rightarrow> User srv" where
  "GetUserByID i = one_row ''getting user by id'' (\<lambda>d. row_at usr_id i (users d))"

definition GetUserByEmail :: "string \<Rightarrow> User srv" where
  "GetUserByEmail email = one_row ''getting user by email'' (\<lambda>d. row_at usr_email email (users d))"

definition CountUsers :: "nat srv" where
  "CountUsers = query ''counting users'' (\<lambda>d. length (users d))"

text \<open>\<^verbatim>\<open>UPDATE users SET ... WHERE id = ? RETURNING ...\<close>\<close>

definition update_user :: "string \<Rightarrow> uuid \<Rightarrow> (User \<Rightarrow> User) \<Rightarrow> User srv" where
  "update_user ctx i f =
     stmt ctx (\<lambda>d. case row_at usr_id i (users d) of
         None \<Rightarrow> Inl (ENotFound ''not found'')
       | Some u \<Rightarrow> if valid_role (usr_role (f u))
           then Inr (f u, d\<lparr>users := sql_update (\<lambda>r. usr_id r = i) f (users d)\<rparr>)
           else Inl (EConstraint ''chk_user_role''))"

definition set_password :: "gotime \<Rightarrow> string \<Rightarrow> User \<Rightarrow> User" where
  "set_password now hash u = u\<lparr>usr_hash := Some hash, usr_force := False, usr_updated := now\<rparr>"

definition UpdateUserPassword :: "gotime \<Rightarrow> uuid \<Rightarrow> string \<Rightarrow> User srv" where
  "UpdateUserPassword now i hash = update_user ''updating user password'' i (set_password now hash)"

definition set_role :: "gotime \<Rightarrow> string \<Rightarrow> User \<Rightarrow> User" where
  "set_role now role u = u\<lparr>usr_role := role, usr_updated := now\<rparr>"

definition UpdateUserRole :: "gotime \<Rightarrow> uuid \<Rightarrow> string \<Rightarrow> User srv" where
  "UpdateUserRole now i role = update_user ''updating user role'' i (set_role now role)"

definition ListUsers :: "int \<Rightarrow> int \<Rightarrow> User list srv" where
  "ListUsers limit offset =
     query ''listing users'' (\<lambda>d. window_of (limit_or_100 limit) offset (order_asc usr_name (users d)))"

section \<open>API keys\<close>

definition has_user :: "server_tables \<Rightarrow> uuid \<Rightarrow> bool" where
  "has_user d i = (i \<in> usr_id ` set (users d))"

definition has_key :: "server_tables \<Rightarrow> uuid \<Rightarrow> bool" where
  "has_key d i = (i \<in> key_id ` set (api_keys d))"

definition CreateAPIKey :: "gotime \<Rightarrow> uuid \<Rightarrow> string \<Rightarrow> string \<Rightarrow> gotime \<Rightarrow> APIKey srv" where
  "CreateAPIKey now user hash pfx expires =
     stmt ''creating api key'' (\<lambda>d.
       if has_user d user
       then let k = \<lparr>key_id = next_rowid (map key_id (api_keys d)), key_user = user, key_hash = hash,
              key_prefix = pfx, key_last_used = now, key_expires = pg_time expires, key_revoked = False,
              key_created = now, key_revoked_at = None\<rparr>
            in Inr (k, d\<lparr>api_keys := api_keys d @ [k]\<rparr>)
       else Inl (EConstraint ''FOREIGN KEY''))"

definition GetAPIKeyByID :: "uuid \<Rightarrow> APIKey srv" where
  "GetAPIKeyByID i = one_row ''getting api key by id'' (\<lambda>d. row_at key_id i (api_keys d))"

definition ListAPIKeysByUser :: "uuid \<Rightarrow> APIKey list srv" where
  "ListAPIKeysByUser u = query ''listing api keys''
     (\<lambda>d. order_desc key_created (filter (\<lambda>k. key_user k = u) (api_keys d)))"

definition active :: "gotime \<Rightarrow> APIKey \<Rightarrow> bool" where
  "active now k = (\<not> key_revoked k \<and> now < key_expires k)"

definition ListActiveAPIKeysByUser :: "gotime \<Rightarrow> uuid \<Rightarrow> APIKey list srv" where
  "ListActiveAPIKeysByUser now u = query ''listing active api keys''
     (\<lambda>d. order_desc key_created (filter (\<lambda>k. key_user k = u \<and> active now k) (api_keys d)))"

text \<open>\<^verbatim>\<open>UPDATE ... WHERE id = ?\<close> where no row affected is "not found".\<close>

definition update_key :: "string \<Rightarrow> uuid \<Rightarrow> (APIKey \<Rightarrow> APIKey) \<Rightarrow> unit srv" where
  "update_key ctx i f =
     stmt ctx (\<lambda>d. if affected (\<lambda>k. key_id k = i) (api_keys d) = 0 then Inl (ENotFound ''not found'')
       else Inr ((), d\<lparr>api_keys := sql_update (\<lambda>k. key_id k = i) f (api_keys d)\<rparr>))"

definition used_key :: "gotime \<Rightarrow> APIKey \<Rightarrow> APIKey" where
  "used_key now k = k\<lparr>key_last_used := now\<rparr>"

definition UpdateAPIKeyLastUsed :: "gotime \<Rightarrow> uuid \<Rightarrow> unit srv" where
  "UpdateAPIKeyLastUsed now i = update_key ''updating api key last_used'' i (used_key now)"

definition revoked_key :: "gotime \<Rightarrow> APIKey \<Rightarrow> APIKey" where
  "revoked_key now k = k\<lparr>key_revoked := True, key_revoked_at := Some now\<rparr>"

definition RevokeAPIKey :: "gotime \<Rightarrow> uuid \<Rightarrow> unit srv" where
  "RevokeAPIKey now i = update_key ''revoking api key'' i (revoked_key now)"

text \<open>What the middleware gets: a key with the role of its user.\<close>

record APIKeyRecord =
  rec_id :: uuid
  rec_user :: uuid
  rec_hash :: string
  rec_role :: string
  rec_expires :: gotime
  rec_revoked :: bool

definition key_records :: "gotime \<Rightarrow> (APIKey \<Rightarrow> bool) \<Rightarrow> server_tables \<Rightarrow> APIKeyRecord list" where
  "key_records now p d =
     concat (map (\<lambda>k. map (\<lambda>u. \<lparr>rec_id = key_id k, rec_user = key_user k, rec_hash = key_hash k,
          rec_role = usr_role u, rec_expires = key_expires k, rec_revoked = key_revoked k\<rparr>)
        (filter (\<lambda>u. usr_id u = key_user k) (users d)))
       (filter (\<lambda>k. p k \<and> active now k) (api_keys d)))"

definition ListAllActiveAPIKeysWithRoles :: "gotime \<Rightarrow> APIKeyRecord list srv" where
  "ListAllActiveAPIKeysWithRoles now =
     query ''listing active api keys with roles'' (key_records now (\<lambda>_. True))"

text \<open>\<^verbatim>\<open>QueryRow\<close> takes the first row of several, in an order SQL leaves open (table order here).\<close>

definition GetActiveAPIKeyByPrefix :: "gotime \<Rightarrow> string \<Rightarrow> APIKeyRecord srv" where
  "GetActiveAPIKeyByPrefix now pfx =
     one_row ''getting api key by prefix'' (\<lambda>d.
       case key_records now (\<lambda>k. key_prefix k = pfx) d of [] \<Rightarrow> None | r # _ \<Rightarrow> Some r)"

section \<open>Devices\<close>

definition device_key :: "Device \<Rightarrow> string \<times> uuid" where
  "device_key r = (dev_client r, dev_key r)"

definition seen_device :: "gotime \<Rightarrow> Device \<Rightarrow> Device" where
  "seen_device now r = r\<lparr>dev_seen := now\<rparr>"

definition UpsertDevice :: "gotime \<Rightarrow> uuid \<Rightarrow> uuid \<Rightarrow> string \<Rightarrow> string \<Rightarrow> string \<Rightarrow> Device srv" where
  "UpsertDevice now user key client os hostname =
     stmt ''upserting device'' (\<lambda>d.
       case row_at device_key (client, key) (devices d) of
         Some r \<Rightarrow> Inr (seen_device now r,
           d\<lparr>devices := sql_update (\<lambda>r. device_key r = (client, key)) (seen_device now) (devices d)\<rparr>)
       | None \<Rightarrow>
           if has_user d user \<and> has_key d key
           then let r = \<lparr>dev_id = next_rowid (map dev_id (devices d)), dev_user = user, dev_key = key,
                  dev_client = client, dev_name = (if hostname = [] then None else Some hostname),
                  dev_os = os, dev_seen = now, dev_created = now\<rparr>
                in Inr (r, d\<lparr>devices := devices d @ [r]\<rparr>)
           else Inl (EConstraint ''FOREIGN KEY''))"

definition ListDevicesByUser :: "uuid \<Rightarrow> Device list srv" where
  "ListDevicesByUser u = query ''listing devices''
     (\<lambda>d. order_desc dev_seen (filter (\<lambda>r. dev_user r = u) (devices d)))"

definition GetDeviceByID :: "uuid \<Rightarrow> Device srv" where
  "GetDeviceByID i = one_row ''getting device by id'' (\<lambda>d. row_at dev_id i (devices d))"

definition GetDeviceByClientID :: "string \<Rightarrow> uuid \<Rightarrow> Device srv" where
  "GetDeviceByClientID client key =
     one_row ''getting device by client id'' (\<lambda>d. row_at device_key (client, key) (devices d))"

definition name_device :: "string \<Rightarrow> Device \<Rightarrow> Device" where
  "name_device name r = r\<lparr>dev_name := Some name\<rparr>"

definition UpdateDeviceName :: "uuid \<Rightarrow> string \<Rightarrow> Device srv" where
  "UpdateDeviceName i name =
     stmt ''updating device name'' (\<lambda>d. case row_at dev_id i (devices d) of
         None \<Rightarrow> Inl (ENotFound ''not found'')
       | Some r \<Rightarrow> Inr (name_device name r,
           d\<lparr>devices := sql_update (\<lambda>r. dev_id r = i) (name_device name) (devices d)\<rparr>))"

section \<open>Timesheets\<close>

record CreateTimesheetEntryParams =
  ep_tag :: string
  ep_started :: gotime
  ep_ended :: gotime
  ep_duration :: int
  ep_notes :: "string option"
  ep_summary :: "string option"

definition has_device :: "server_tables \<Rightarrow> uuid \<Rightarrow> bool" where
  "has_device d i = (i \<in> dev_id ` set (devices d))"

definition has_timesheet :: "server_tables \<Rightarrow> uuid \<Rightarrow> bool" where
  "has_timesheet d i = (i \<in> ts_id ` set (timesheets d))"

definition insert_timesheet :: "gotime \<Rightarrow> uuid \<Rightarrow> uuid \<Rightarrow> gotime \<Rightarrow> Timesheet srv" where
  "insert_timesheet now user device submitted =
     stmt ''inserting timesheet'' (\<lambda>d.
       if has_user d user \<and> has_device d device
       then let t = \<lparr>ts_id = next_rowid (map ts_id (timesheets d)), ts_user = user, ts_device = device,
              ts_submitted = pg_time submitted, ts_created = now\<rparr>
            in Inr (t, d\<lparr>timesheets := timesheets d @ [t]\<rparr>)
       else Inl (EConstraint ''FOREIGN KEY''))"

definition new_entry :: "uuid \<Rightarrow> uuid \<Rightarrow> CreateTimesheetEntryParams \<Rightarrow> entry_row" where
  "new_entry i ts p = \<lparr>en_id = i, en_timesheet = ts, en_tag = ep_tag p, en_started = pg_time (ep_started p),
     en_ended = pg_time (ep_ended p), en_duration = ep_duration p, en_notes = ep_notes p, en_summary = ep_summary p\<rparr>"

definition insert_entry :: "uuid \<Rightarrow> CreateTimesheetEntryParams \<Rightarrow> unit srv" where
  "insert_entry ts p =
     stmt ''inserting timesheet entry'' (\<lambda>d.
       if \<not> pg_int (ep_duration p) then Inl (EConstraint ''integer out of range'')
       else if has_timesheet d ts
       then Inr ((), d\<lparr>ts_entries := ts_entries d @ [new_entry (next_rowid (map en_id (ts_entries d))) ts p]\<rparr>)
       else Inl (EConstraint ''FOREIGN KEY''))"

definition CreateTimesheet :: "gotime \<Rightarrow> uuid \<Rightarrow> uuid \<Rightarrow> gotime \<Rightarrow> CreateTimesheetEntryParams list \<Rightarrow> Timesheet srv" where
  "CreateTimesheet now user device submitted entries =
     in_tx ''beginning transaction'' ''committing transaction''
       (bindM (insert_timesheet now user device submitted) (\<lambda>ts.
        bindM (forM entries (insert_entry (ts_id ts))) (\<lambda>_. ret ts)))"

definition GetTimesheetByID :: "uuid \<Rightarrow> (Timesheet \<times> entry_row list) srv" where
  "GetTimesheetByID i =
     bindM (one_row ''getting timesheet'' (\<lambda>d. row_at ts_id i (timesheets d))) (\<lambda>t.
     bindM (query ''listing timesheet entries''
       (\<lambda>d. order_asc en_started (filter (\<lambda>e. en_timesheet e = i) (ts_entries d)))) (\<lambda>es.
     ret (t, es)))"

definition ListTimesheetsByUser :: "uuid \<Rightarrow> int \<Rightarrow> int \<Rightarrow> Timesheet list srv" where
  "ListTimesheetsByUser u limit offset =
     query ''listing timesheets by user'' (\<lambda>d. window_of (limit_or_100 limit) offset
       (order_desc ts_submitted (filter (\<lambda>t. ts_user t = u) (timesheets d))))"

record TimesheetFilters =
  FilterUser :: "uuid option"
  FilterFrom :: "gotime option"
  FilterTo :: "gotime option"
  FilterLimit :: int
  FilterOffset :: int

definition opt_le :: "gotime option \<Rightarrow> gotime \<Rightarrow> bool" where
  "opt_le a x = (case a of None \<Rightarrow> True | Some t \<Rightarrow> pg_time t \<le> x)"

definition opt_ge :: "gotime option \<Rightarrow> gotime \<Rightarrow> bool" where
  "opt_ge a x = (case a of None \<Rightarrow> True | Some t \<Rightarrow> x \<le> pg_time t)"

definition opt_eq :: "'a option \<Rightarrow> 'a \<Rightarrow> bool" where
  "opt_eq a x = (case a of None \<Rightarrow> True | Some y \<Rightarrow> x = y)"

definition ListTimesheetsAll :: "TimesheetFilters \<Rightarrow> Timesheet list srv" where
  "ListTimesheetsAll f =
     query ''listing all timesheets'' (\<lambda>d. window_of (limit_or_100 (FilterLimit f)) (FilterOffset f)
       (order_desc ts_submitted (filter (\<lambda>t. opt_eq (FilterUser f) (ts_user t) \<and>
          opt_le (FilterFrom f) (ts_submitted t) \<and> opt_ge (FilterTo f) (ts_submitted t)) (timesheets d))))"

definition DeleteTimesheetEntry :: "uuid \<Rightarrow> unit srv" where
  "DeleteTimesheetEntry i =
     stmt ''deleting timesheet entry'' (\<lambda>d.
       if affected (\<lambda>e. en_id e = i) (ts_entries d) = 0 then Inl (ENotFound ''not found'')
       else Inr ((), d\<lparr>ts_entries := sql_delete (\<lambda>e. en_id e = i) (ts_entries d)\<rparr>))"

record UpdateTimesheetEntryParams =
  up_tag :: "string option"
  up_started :: "gotime option"
  up_ended :: "gotime option"
  up_duration :: "int option"
  up_notes :: "string option"

definition edit_entry :: "UpdateTimesheetEntryParams \<Rightarrow> entry_row \<Rightarrow> entry_row" where
  "edit_entry p e = e\<lparr>
     en_tag := (case up_tag p of None \<Rightarrow> en_tag e | Some x \<Rightarrow> x),
     en_started := (case up_started p of None \<Rightarrow> en_started e | Some x \<Rightarrow> pg_time x),
     en_ended := (case up_ended p of None \<Rightarrow> en_ended e | Some x \<Rightarrow> pg_time x),
     en_duration := (case up_duration p of None \<Rightarrow> en_duration e | Some x \<Rightarrow> x),
     en_notes := (case up_notes p of None \<Rightarrow> en_notes e | Some x \<Rightarrow> Some x)\<rparr>"

definition no_fields :: "UpdateTimesheetEntryParams \<Rightarrow> bool" where
  "no_fields p = (up_tag p = None \<and> up_started p = None \<and> up_ended p = None \<and>
     up_duration p = None \<and> up_notes p = None)"

definition UpdateTimesheetEntry :: "uuid \<Rightarrow> UpdateTimesheetEntryParams \<Rightarrow> entry_row srv" where
  "UpdateTimesheetEntry i p =
     (if no_fields p then throw (EInvalid ''no fields to update'')
      else stmt ''updating timesheet entry'' (\<lambda>d.
        case row_at en_id i (ts_entries d) of
          None \<Rightarrow> Inl (ENotFound ''not found'')
        | Some e \<Rightarrow>
            if pg_int (en_duration (edit_entry p e))
            then Inr (edit_entry p e, d\<lparr>ts_entries := sql_update (\<lambda>e. en_id e = i) (edit_entry p) (ts_entries d)\<rparr>)
            else Inl (EConstraint ''integer out of range'')))"

definition GetTimesheetEntryByID :: "uuid \<Rightarrow> entry_row srv" where
  "GetTimesheetEntryByID i = one_row ''getting timesheet entry'' (\<lambda>d. row_at en_id i (ts_entries d))"

section \<open>The audit log\<close>

record CreateAuditLogParams =
  AuditAdmin :: uuid
  AuditAction :: string
  AuditTarget :: string
  AuditTargetID :: uuid
  AuditOld :: body
  AuditNew :: body

definition CreateAuditLog :: "gotime \<Rightarrow> CreateAuditLogParams \<Rightarrow> AuditLogEntry srv" where
  "CreateAuditLog now p =
     stmt ''creating audit log'' (\<lambda>d.
       if has_user d (AuditAdmin p)
       then let e = \<lparr>au_id = next_rowid (map au_id (audit_log d)), au_admin = AuditAdmin p, au_action = AuditAction p,
              au_type = AuditTarget p, au_target = AuditTargetID p, au_old = AuditOld p, au_new = AuditNew p,
              au_created = now\<rparr>
            in Inr (e, d\<lparr>audit_log := audit_log d @ [e]\<rparr>)
       else Inl (EConstraint ''FOREIGN KEY''))"

record AuditLogFilters =
  af_admin :: "uuid option"
  af_action :: "string option"
  af_type :: "string option"
  af_target :: "uuid option"
  af_limit :: int
  af_offset :: int

definition audit_match :: "AuditLogFilters \<Rightarrow> AuditLogEntry \<Rightarrow> bool" where
  "audit_match f e = (opt_eq (af_admin f) (au_admin e) \<and> opt_eq (af_action f) (au_action e) \<and>
     opt_eq (af_type f) (au_type e) \<and> opt_eq (af_target f) (au_target e))"

definition ListAuditLogs :: "AuditLogFilters \<Rightarrow> AuditLogEntry list srv" where
  "ListAuditLogs f =
     query ''listing audit logs'' (\<lambda>d. window_of (limit_or_100 (af_limit f)) (af_offset f)
       (order_desc au_created (filter (audit_match f) (audit_log d))))"

section \<open>Reports\<close>

record ReportFilters =
  rf_user :: "uuid option"
  rf_from :: "gotime option"
  rf_to :: "gotime option"

record ReportSummaryRow =
  rs_tag :: string
  rs_total :: int
  rs_count :: nat

record ReportExportRow =
  rx_email :: string
  rx_name :: string
  rx_tag :: string
  rx_started :: gotime
  rx_ended :: gotime
  rx_duration :: int
  rx_notes :: "string option"
  rx_summary :: "string option"
  rx_submitted :: gotime

text \<open>The join of the entries with their timesheets, under the filters of a report.\<close>

definition report_match :: "ReportFilters \<Rightarrow> Timesheet \<Rightarrow> entry_row \<Rightarrow> bool" where
  "report_match f t e = (opt_eq (rf_user f) (ts_user t) \<and>
     opt_le (rf_from f) (en_started e) \<and> opt_ge (rf_to f) (en_ended e))"

definition report_rows :: "ReportFilters \<Rightarrow> server_tables \<Rightarrow> (Timesheet \<times> entry_row) list" where
  "report_rows f d =
     [(t, e). e \<leftarrow> ts_entries d, t \<leftarrow> timesheets d, ts_id t = en_timesheet e \<and> report_match f t e]"

text \<open>\<^verbatim>\<open>GROUP BY tag\<close>, in the order the tags first occur.\<close>

definition summarise :: "(Timesheet \<times> entry_row) list \<Rightarrow> ReportSummaryRow list" where
  "summarise rows =
     map (\<lambda>g. \<lparr>rs_tag = g,
            rs_total = sum_list (map (en_duration \<circ> snd) (filter (\<lambda>r. en_tag (snd r) = g) rows)),
            rs_count = length (filter (\<lambda>r. en_tag (snd r) = g) rows)\<rparr>)
       (rev (remdups (rev (map (en_tag \<circ> snd) rows))))"

definition GetReportSummary :: "ReportFilters \<Rightarrow> ReportSummaryRow list srv" where
  "GetReportSummary f =
     query ''querying report summary'' (\<lambda>d. order_desc rs_total (summarise (report_rows f d)))"

definition GetReportExport :: "ReportFilters \<Rightarrow> ReportExportRow list srv" where
  "GetReportExport f =
     query ''querying report export'' (\<lambda>d. order_asc rx_started
       [\<lparr>rx_email = usr_email u, rx_name = usr_name u, rx_tag = en_tag e, rx_started = en_started e,
         rx_ended = en_ended e, rx_duration = en_duration e, rx_notes = en_notes e, rx_summary = en_summary e,
         rx_submitted = ts_submitted t\<rparr>. (t, e) \<leftarrow> report_rows f d, u \<leftarrow> users d, usr_id u = ts_user t])"

section \<open>Settings\<close>

definition GetOrgSettings :: "OrgSettings srv" where
  "GetOrgSettings = one_row ''getting org settings'' org_settings"

record UpdateOrgSettingsParams =
  op_name :: "string option"
  op_tenant :: "string option"
  op_client :: "string option"
  op_secret :: "string option"
  op_days :: "int option"

definition opt_or :: "'a option \<Rightarrow> 'a \<Rightarrow> 'a" where
  "opt_or a x = (case a of None \<Rightarrow> x | Some y \<Rightarrow> y)"

definition merge_settings :: "gotime \<Rightarrow> UpdateOrgSettingsParams \<Rightarrow> OrgSettings \<Rightarrow> OrgSettings" where
  "merge_settings now p o1 = \<lparr>OrgName = opt_or (op_name p) (OrgName o1),
     EntraTenant = opt_or (op_tenant p) (EntraTenant o1), EntraClient = opt_or (op_client p) (EntraClient o1),
     EntraSecret = opt_or (op_secret p) (EntraSecret o1), KeyExpiryDays = opt_or (op_days p) (KeyExpiryDays o1),
     SettingsUpdated = now\<rparr>"

definition put_settings :: "OrgSettings \<Rightarrow> OrgSettings srv" where
  "put_settings o1 = stmt ''upserting org settings'' (\<lambda>d.
     if pg_int (KeyExpiryDays o1) then Inr (o1, d\<lparr>org_settings := Some o1\<rparr>)
     else Inl (EConstraint ''integer out of range''))"

definition UpsertOrgSettings :: "gotime \<Rightarrow> UpdateOrgSettingsParams \<Rightarrow> OrgSettings srv" where
  "UpsertOrgSettings now p =
     bindM (attempt GetOrgSettings) (\<lambda>r. case r of
         Inr o1 \<Rightarrow> put_settings (merge_settings now p o1)
       | Inl (ENotFound x) \<Rightarrow> put_settings (merge_settings now p default_settings)
       | Inl e \<Rightarrow> throw e)"

section \<open>Layout snapshots\<close>

text \<open>Migration 004 may be missing: then a statement on the table fails.\<close>

definition snap_stmt :: "string \<Rightarrow> (server_tables \<Rightarrow> err + ('a \<times> server_tables)) \<Rightarrow> 'a srv" where
  "snap_stmt ctx f =
     stmt ctx (\<lambda>d. if layout_migrated d then f d else Inl (EConstraint ''undefined table''))"

record InsertSnapshotParams =
  ip_device :: uuid
  ip_captured :: gotime
  ip_windows :: json
  ip_hash :: string

record TimelineEntry =
  te_id :: uuid
  te_captured :: gotime
  te_count :: nat

definition snap_key :: "LayoutSnapshot \<Rightarrow> uuid \<times> gotime \<times> string" where
  "snap_key r = (ss_device r, ss_captured r, ss_hash r)"

text \<open>A row that is there already is no error: the caller gets \<open>None\<close>.\<close>

definition SrvInsertSnapshot :: "gotime \<Rightarrow> InsertSnapshotParams \<Rightarrow> LayoutSnapshot option srv" where
  "SrvInsertSnapshot now p =
     snap_stmt ''inserting layout snapshot'' (\<lambda>d.
       let r = \<lparr>ss_id = next_rowid (map ss_id (snapshots d)), ss_device = ip_device p,
             ss_captured = pg_time (ip_captured p), ss_windows = ip_windows p, ss_hash = ip_hash p,
             ss_tier = ''raw'', ss_created = now\<rparr>
       in if snap_key r \<in> snap_key ` set (snapshots d) then Inr (None, d)
          else if has_device d (ip_device p) then Inr (Some r, d\<lparr>snapshots := snapshots d @ [r]\<rparr>)
          else Inl (EConstraint ''FOREIGN KEY''))"

definition GetSnapshotAt :: "uuid \<Rightarrow> gotime \<Rightarrow> LayoutSnapshot srv" where
  "GetSnapshotAt dev t =
     snap_stmt ''getting layout snapshot at'' (\<lambda>d.
       case order_desc ss_captured (filter (\<lambda>r. ss_device r = dev \<and> ss_captured r \<le> pg_time t) (snapshots d)) of
         [] \<Rightarrow> Inl (ENotFound ''not found'') | r # _ \<Rightarrow> Inr (r, d))"

text \<open>\<^verbatim>\<open>jsonb_array_length\<close> fails on anything but an array.\<close>

fun json_array_length :: "json \<Rightarrow> nat option" where
  "json_array_length (JArr xs) = Some (length xs)"
| "json_array_length _ = None"

definition timeline_entry :: "LayoutSnapshot \<Rightarrow> TimelineEntry" where
  "timeline_entry r = \<lparr>te_id = ss_id r, te_captured = ss_captured r,
     te_count = the (json_array_length (ss_windows r))\<rparr>"

definition ListTimestamps :: "uuid \<Rightarrow> gotime \<Rightarrow> gotime \<Rightarrow> int \<Rightarrow> int \<Rightarrow> TimelineEntry list srv" where
  "ListTimestamps dev fr till limit offset =
     snap_stmt ''listing layout snapshots'' (\<lambda>d.
       let rows = window_of limit offset (order_asc ss_captured (filter (\<lambda>r. ss_device r = dev \<and>
             pg_time fr \<le> ss_captured r \<and> ss_captured r \<le> pg_time till) (snapshots d)))
       in if \<forall>r \<in> set rows. json_array_length (ss_windows r) \<noteq> None
          then Inr (map timeline_entry rows, d)
          else Inl (EConstraint ''cannot get array length of a non-array''))"

definition HasLayoutSnapshotsTable :: "bool srv" where
  "HasLayoutSnapshotsTable = query ''checking layout_snapshots table'' layout_migrated"

subsection \<open>Downsampling\<close>

text \<open>
  The buckets, for a session whose time zone is UTC. The statement sees one snapshot of the table:
  the rows it ranks, promotes and deletes are those of its start.
\<close>

definition bucket_1hr :: "gotime \<Rightarrow> gotime" where
  "bucket_1hr t = t div hour * hour"

definition bucket_10min :: "gotime \<Rightarrow> gotime" where
  "bucket_10min t = t div hour * hour + (t mod hour div minute) div 10 * (10 * minute)"

definition in_scope :: "string \<Rightarrow> gotime \<Rightarrow> LayoutSnapshot \<Rightarrow> bool" where
  "in_scope tier cutoff r = (ss_tier r = tier \<and> ss_captured r < cutoff)"

text \<open>\<^verbatim>\<open>row_number() > 1\<close>: an earlier row of the same device and bucket is in scope too.\<close>

definition ranks_before :: "LayoutSnapshot \<Rightarrow> LayoutSnapshot \<Rightarrow> bool" where
  "ranks_before a b = (ss_captured a < ss_captured b \<or> ss_captured a = ss_captured b \<and> ss_id a < ss_id b)"

definition loser :: "(gotime \<Rightarrow> gotime) \<Rightarrow> string \<Rightarrow> gotime \<Rightarrow> LayoutSnapshot list \<Rightarrow> LayoutSnapshot \<Rightarrow> bool" where
  "loser bucket tier cutoff rows r =
     (in_scope tier cutoff r \<and>
      (\<exists>q \<in> set rows. in_scope tier cutoff q \<and> ss_device q = ss_device r \<and>
         bucket (ss_captured q) = bucket (ss_captured r) \<and> ranks_before q r))"

definition promote :: "string \<Rightarrow> LayoutSnapshot \<Rightarrow> LayoutSnapshot" where
  "promote tier r = r\<lparr>ss_tier := tier\<rparr>"

definition downsample :: "(gotime \<Rightarrow> gotime) \<Rightarrow> string \<Rightarrow> gotime \<Rightarrow> string \<Rightarrow> LayoutSnapshot list \<Rightarrow> LayoutSnapshot list" where
  "downsample bucket tier cutoff next_tier rows =
     sql_update (in_scope tier cutoff) (promote next_tier)
       (sql_delete (loser bucket tier cutoff rows) rows)"

definition downsample_tx :: "string \<Rightarrow> (gotime \<Rightarrow> gotime) \<Rightarrow> string \<Rightarrow> gotime \<Rightarrow> string \<Rightarrow> nat srv" where
  "downsample_tx ctx bucket tier cutoff next_tier =
     in_tx ''begin downsample'' ''commit downsample''
       (snap_stmt ctx (\<lambda>d. Inr (affected (loser bucket tier cutoff (snapshots d)) (snapshots d),
          d\<lparr>snapshots := downsample bucket tier cutoff next_tier (snapshots d)\<rparr>)))"

definition DownsampleTo10Min :: "gotime \<Rightarrow> nat srv" where
  "DownsampleTo10Min now =
     downsample_tx ''downsample 10min'' bucket_10min ''raw'' (pg_time now - 7 * (24 * hour)) ''10min''"

definition DownsampleTo1Hr :: "gotime \<Rightarrow> nat srv" where
  "DownsampleTo1Hr now =
     downsample_tx ''downsample 1hr'' bucket_1hr ''10min'' (pg_time now - 37 * (24 * hour)) ''1hr''"

end
