(* ===== verification/Server_Schema.thy ===== *)
theory Server_Schema
  imports Server_Store "HOL-Library.Product_Lexorder"
begin

text \<open>
  The invariant of the server's schema (keys, foreign keys, checks) and that every operation of the
  store keeps it, whichever of its statements fail; what downsampling does to the snapshots.
\<close>

section \<open>The invariant\<close>

definition users_inv :: "server_tables \<Rightarrow> bool" where
  "users_inv d \<longleftrightarrow> distinct (map usr_id (users d)) \<and> distinct (map usr_email (users d)) \<and>
     distinct (filter (\<lambda>x. x \<noteq> None) (map usr_oid (users d))) \<and> (\<forall>u \<in> set (users d). valid_role (usr_role u))"

definition keys_inv :: "server_tables \<Rightarrow> bool" where
  "keys_inv d \<longleftrightarrow> distinct (map key_id (api_keys d)) \<and> set (map key_user (api_keys d)) \<subseteq> set (map usr_id (users d))"

definition devices_inv :: "server_tables \<Rightarrow> bool" where
  "devices_inv d \<longleftrightarrow> distinct (map dev_id (devices d)) \<and> distinct (map device_key (devices d)) \<and>
     set (map dev_user (devices d)) \<subseteq> set (map usr_id (users d)) \<and>
     set (map dev_key (devices d)) \<subseteq> set (map key_id (api_keys d))"

definition timesheets_inv :: "server_tables \<Rightarrow> bool" where
  "timesheets_inv d \<longleftrightarrow> distinct (map ts_id (timesheets d)) \<and>
     set (map ts_user (timesheets d)) \<subseteq> set (map usr_id (users d)) \<and>
     set (map ts_device (timesheets d)) \<subseteq> set (map dev_id (devices d))"

definition entries_inv :: "server_tables \<Rightarrow> bool" where
  "entries_inv d \<longleftrightarrow> distinct (map en_id (ts_entries d)) \<and>
     set (map en_timesheet (ts_entries d)) \<subseteq> set (map ts_id (timesheets d)) \<and>
     (\<forall>e \<in> set (ts_entries d). pg_int (en_duration e))"

definition audit_inv :: "server_tables \<Rightarrow> bool" where
  "audit_inv d \<longleftrightarrow> distinct (map au_id (audit_log d)) \<and>
     set (map au_admin (audit_log d)) \<subseteq> set (map usr_id (users d))"

definition valid_tier :: "string \<Rightarrow> bool" where
  "valid_tier t = (t \<in> {''raw'', ''10min'', ''1hr''})"

definition snapshots_inv :: "server_tables \<Rightarrow> bool" where
  "snapshots_inv d \<longleftrightarrow> distinct (map ss_id (snapshots d)) \<and> distinct (map snap_key (snapshots d)) \<and>
     set (map ss_device (snapshots d)) \<subseteq> set (map dev_id (devices d)) \<and>
     (\<forall>r \<in> set (snapshots d). valid_tier (ss_tier r))"

definition srv_inv :: "server_tables \<Rightarrow> bool" where
  "srv_inv d \<longleftrightarrow> users_inv d \<and> keys_inv d \<and> devices_inv d \<and> timesheets_inv d \<and> entries_inv d \<and>
     audit_inv d \<and> snapshots_inv d"

lemmas srv_inv_defs = srv_inv_def users_inv_def keys_inv_def devices_inv_def timesheets_inv_def
  entries_inv_def audit_inv_def snapshots_inv_def

lemma migrated_inv: "srv_inv migrated_db"
  by (simp add: srv_inv_defs migrated_db_def)

section \<open>Updates that leave a column alone\<close>

lemma map_sql_update:
  assumes "\<And>r. k (f r) = k r"
  shows "map k (sql_update p f rows) = map k rows"
  by (rule keyed_update.map_key_update) (unfold_locales, rule assms)

interpretation role_row: keyed_update usr_id "set_role now role"
  by unfold_locales (simp add: set_role_def)

interpretation password_row: keyed_update usr_id "set_password now hash"
  by unfold_locales (simp add: set_password_def)

interpretation used_row: keyed_update key_id "used_key now"
  by unfold_locales (simp add: used_key_def)

interpretation revoked_row: keyed_update key_id "revoked_key now"
  by unfold_locales (simp add: revoked_key_def)

interpretation seen_row: keyed_update device_key "seen_device now"
  by unfold_locales (simp add: seen_device_def device_key_def)

interpretation named_row: keyed_update dev_id "name_device name"
  by unfold_locales (simp add: name_device_def)

interpretation edited_row: keyed_update en_id "edit_entry p"
  by unfold_locales (simp add: edit_entry_def)

interpretation promoted_row: keyed_update snap_key "promote tier"
  by unfold_locales (simp add: promote_def snap_key_def)

text \<open>A row that is updated in place keeps every column the update does not name.\<close>

lemma user_cols:
  "map usr_id (sql_update p (set_role now role) rows) = map usr_id rows"
  "map usr_email (sql_update p (set_role now role) rows) = map usr_email rows"
  "map usr_oid (sql_update p (set_role now role) rows) = map usr_oid rows"
  "map usr_id (sql_update p (set_password now hash) rows) = map usr_id rows"
  "map usr_email (sql_update p (set_password now hash) rows) = map usr_email rows"
  "map usr_oid (sql_update p (set_password now hash) rows) = map usr_oid rows"
  "map usr_role (sql_update p (set_password now hash) rows) = map usr_role rows"
  by (rule map_sql_update, simp add: set_role_def set_password_def)+

lemma key_cols:
  "map key_id (sql_update p (used_key now) rows) = map key_id rows"
  "map key_user (sql_update p (used_key now) rows) = map key_user rows"
  "map key_id (sql_update p (revoked_key now) rows) = map key_id rows"
  "map key_user (sql_update p (revoked_key now) rows) = map key_user rows"
  by (rule map_sql_update, simp add: used_key_def revoked_key_def)+

lemma device_cols:
  "map dev_id (sql_update p (seen_device now) rows) = map dev_id rows"
  "map device_key (sql_update p (seen_device now) rows) = map device_key rows"
  "map dev_user (sql_update p (seen_device now) rows) = map dev_user rows"
  "map dev_key (sql_update p (seen_device now) rows) = map dev_key rows"
  "map dev_id (sql_update p (name_device name) rows) = map dev_id rows"
  "map device_key (sql_update p (name_device name) rows) = map device_key rows"
  "map dev_user (sql_update p (name_device name) rows) = map dev_user rows"
  "map dev_key (sql_update p (name_device name) rows) = map dev_key rows"
  by (rule map_sql_update, simp add: seen_device_def name_device_def device_key_def)+

lemma entry_cols:
  "map en_id (sql_update p (edit_entry q) rows) = map en_id rows"
  "map en_timesheet (sql_update p (edit_entry q) rows) = map en_timesheet rows"
  by (rule map_sql_update, simp add: edit_entry_def)+

lemma snapshot_cols:
  "map ss_id (sql_update p (promote tier) rows) = map ss_id rows"
  "map snap_key (sql_update p (promote tier) rows) = map snap_key rows"
  "map ss_device (sql_update p (promote tier) rows) = map ss_device rows"
  by (rule map_sql_update, simp add: promote_def snap_key_def)+

lemmas device_sets = device_cols [THEN arg_cong [where f = set], unfolded set_map]

lemmas cols = user_cols key_cols device_cols entry_cols snapshot_cols

section \<open>Every operation keeps the invariant\<close>

lemma keeps_snap_stmt:
  "(\<And>d x d'. I d \<Longrightarrow> f d = Inr (x, d') \<Longrightarrow> I d') \<Longrightarrow> keeps I (snap_stmt ctx f)"
  unfolding snap_stmt_def by (rule keeps_stmt) (auto split: if_splits)

lemma keeps_one_row [keeps_rules]: "keeps I (one_row ctx f)"
  unfolding one_row_def by (rule keeps_stmt) (auto split: option.splits)

text \<open>An operation writes one table: the invariant of that table is enough, and that no key it offers goes.\<close>

lemma srv_inv_users:
  "srv_inv d \<Longrightarrow> (users_inv d \<Longrightarrow> users_inv (d\<lparr>users := us\<rparr>)) \<Longrightarrow> set (map usr_id (users d)) \<subseteq> set (map usr_id us) \<Longrightarrow>
   srv_inv (d\<lparr>users := us\<rparr>)"
  unfolding srv_inv_defs by (simp del: set_map) blast

lemma srv_inv_keys:
  "srv_inv d \<Longrightarrow> (keys_inv d \<Longrightarrow> keys_inv (d\<lparr>api_keys := ks\<rparr>)) \<Longrightarrow> set (map key_id (api_keys d)) \<subseteq> set (map key_id ks) \<Longrightarrow>
   srv_inv (d\<lparr>api_keys := ks\<rparr>)"
  unfolding srv_inv_defs by (simp del: set_map) blast

lemma srv_inv_devices:
  "srv_inv d \<Longrightarrow> (devices_inv d \<Longrightarrow> devices_inv (d\<lparr>devices := ds\<rparr>)) \<Longrightarrow> set (map dev_id (devices d)) \<subseteq> set (map dev_id ds) \<Longrightarrow>
   srv_inv (d\<lparr>devices := ds\<rparr>)"
  unfolding srv_inv_defs by (simp del: set_map) blast

lemma srv_inv_timesheets:
  "srv_inv d \<Longrightarrow> (timesheets_inv d \<Longrightarrow> timesheets_inv (d\<lparr>timesheets := ts\<rparr>)) \<Longrightarrow> set (map ts_id (timesheets d)) \<subseteq> set (map ts_id ts) \<Longrightarrow>
   srv_inv (d\<lparr>timesheets := ts\<rparr>)"
  unfolding srv_inv_defs by (simp del: set_map) blast

lemma srv_inv_leaves:
  "srv_inv d \<Longrightarrow> (entries_inv d \<Longrightarrow> entries_inv (d\<lparr>ts_entries := es\<rparr>)) \<Longrightarrow> srv_inv (d\<lparr>ts_entries := es\<rparr>)"
  "srv_inv d \<Longrightarrow> (audit_inv d \<Longrightarrow> audit_inv (d\<lparr>audit_log := as\<rparr>)) \<Longrightarrow> srv_inv (d\<lparr>audit_log := as\<rparr>)"
  "srv_inv d \<Longrightarrow> (snapshots_inv d \<Longrightarrow> snapshots_inv (d\<lparr>snapshots := ss\<rparr>)) \<Longrightarrow> srv_inv (d\<lparr>snapshots := ss\<rparr>)"
  "srv_inv d \<Longrightarrow> srv_inv (d\<lparr>org_settings := o1\<rparr>)"
  unfolding srv_inv_defs by (simp_all del: set_map)

lemma srv_invD:
  assumes "srv_inv d"
  shows "users_inv d" "keys_inv d" "devices_inv d" "timesheets_inv d" "entries_inv d" "audit_inv d" "snapshots_inv d"
  using assms by (simp_all add: srv_inv_def)

lemma keeps_insert_user:
  assumes "\<And>i. usr_id (new i) = i"
  shows "keeps srv_inv (insert_user ctx new)"
  unfolding insert_user_def
proof (rule keeps_stmt)
  fix d x d'
  assume "srv_inv d" and "(let u = new (next_rowid (map usr_id (users d)))
       in if user_ok d u then Inr (u, d\<lparr>users := users d @ [u]\<rparr>) else Inl (EConstraint ''users'')) = Inr (x, d')"
  then show "srv_inv d'"
    using assms by (auto simp: Let_def user_ok_def users_inv_def image_iff split: if_splits intro!: srv_inv_users)
qed

lemma keeps_update_user:
  assumes "\<And>u. usr_id (f u) = usr_id u" "\<And>u. usr_email (f u) = usr_email u" "\<And>u. usr_oid (f u) = usr_oid u"
  shows "keeps srv_inv (update_user ctx i f)"
  unfolding update_user_def
proof (rule keeps_stmt)
  fix d x d'
  assume inv: "srv_inv d"
    and ok: "(case row_at usr_id i (users d) of None \<Rightarrow> Inl (ENotFound ''not found'')
       | Some u \<Rightarrow> if valid_role (usr_role (f u))
           then Inr (f u, d\<lparr>users := sql_update (\<lambda>r. usr_id r = i) f (users d)\<rparr>)
           else Inl (EConstraint ''chk_user_role'')) = Inr (x, d')"
  from ok obtain u where u: "row_at usr_id i (users d) = Some u" and r: "valid_role (usr_role (f u))"
    and d': "d' = d\<lparr>users := sql_update (\<lambda>r. usr_id r = i) f (users d)\<rparr>"
    by (auto split: option.splits if_splits)
  have "\<forall>v \<in> set (sql_update (\<lambda>r. usr_id r = i) f (users d)). valid_role (usr_role v)"
  proof -
    have "f v = f u" if "v \<in> set (users d)" "usr_id v = i" for v
      using that inv u row_at_distinct [of usr_id "users d" v] by (simp add: srv_inv_defs)
    then show ?thesis
      using inv r by (auto simp: srv_inv_defs set_sql_update)
  qed
  then show "srv_inv d'"
    using inv by (simp add: srv_inv_defs d' map_sql_update assms del: set_map)
qed

lemma keeps_update_key:
  "(\<And>r. key_id (f r) = key_id r) \<Longrightarrow> (\<And>r. key_user (f r) = key_user r) \<Longrightarrow> keeps srv_inv (update_key ctx i f)"
  unfolding update_key_def
  by (rule keeps_stmt) (auto simp: srv_inv_defs map_sql_update simp del: set_map split: if_splits)

lemma keeps_accounts [keeps_rules]:
  "keeps srv_inv (CreateUser now oid email name)"
  "keeps srv_inv (CreateLocalUser now email name hash role force)"
  "keeps srv_inv (UpdateUserPassword now i hash)"
  "keeps srv_inv (UpdateUserRole now i role)"
  by (simp_all add: CreateUser_def CreateLocalUser_def UpdateUserPassword_def UpdateUserRole_def
      keeps_insert_user keeps_update_user set_password_def set_role_def)

lemma keeps_keys [keeps_rules]:
  "keeps srv_inv (UpdateAPIKeyLastUsed now i)"
  "keeps srv_inv (RevokeAPIKey now i)"
  by (simp_all add: UpdateAPIKeyLastUsed_def RevokeAPIKey_def keeps_update_key used_key_def revoked_key_def)

lemma keeps_CreateAPIKey [keeps_rules]: "keeps srv_inv (CreateAPIKey now user hash pfx expires)"
  unfolding CreateAPIKey_def
  by (rule keeps_stmt)
    (auto simp: has_user_def keys_inv_def Let_def split: if_splits intro!: srv_inv_keys)

lemma device_key_new [simp]:
  "device_key \<lparr>dev_id = i, dev_user = u, dev_key = k, dev_client = c, dev_name = n, dev_os = os,
     dev_seen = t, dev_created = t'\<rparr> = (c, k)"
  by (simp add: device_key_def)

lemma keeps_UpsertDevice [keeps_rules]: "keeps srv_inv (UpsertDevice now user key client os name)"
  unfolding UpsertDevice_def
  by (rule keeps_stmt)
    (auto simp: has_user_def has_key_def Let_def devices_inv_def row_at_None device_cols device_sets split: if_splits option.splits intro!: srv_inv_devices)

lemma keeps_UpdateDeviceName [keeps_rules]: "keeps srv_inv (UpdateDeviceName i name)"
  unfolding UpdateDeviceName_def
  by (rule keeps_stmt)
    (auto simp: devices_inv_def device_cols simp del: set_map split: option.splits
      intro!: srv_inv_devices)

lemma keeps_insert_timesheet [keeps_rules]: "keeps srv_inv (insert_timesheet now user device submitted)"
  unfolding insert_timesheet_def
  by (rule keeps_stmt)
    (auto simp: has_user_def has_device_def timesheets_inv_def Let_def split: if_splits
      intro!: srv_inv_timesheets)

lemma keeps_insert_entry [keeps_rules]: "keeps srv_inv (insert_entry ts p)"
  unfolding insert_entry_def
  by (rule keeps_stmt)
    (auto simp: has_timesheet_def new_entry_def entries_inv_def split: if_splits
      intro!: srv_inv_leaves(1))

lemma keeps_CreateTimesheet [keeps_rules]: "keeps srv_inv (CreateTimesheet now user device submitted es)"
  unfolding CreateTimesheet_def by (intro keeps_rules)

lemma keeps_DeleteTimesheetEntry [keeps_rules]: "keeps srv_inv (DeleteTimesheetEntry i)"
  unfolding DeleteTimesheetEntry_def
  by (rule keeps_stmt)
    (auto simp: entries_inv_def image_subset_iff set_sql_delete distinct_map_delete split: if_splits
      intro!: srv_inv_leaves(1))

lemma keeps_UpdateTimesheetEntry [keeps_rules]: "keeps srv_inv (UpdateTimesheetEntry i p)"
  unfolding UpdateTimesheetEntry_def
proof (intro keeps_if keeps_throw keeps_stmt)
  fix d x d'
  assume inv: "srv_inv d"
    and ok: "(case row_at en_id i (ts_entries d) of None \<Rightarrow> Inl (ENotFound ''not found'')
        | Some e \<Rightarrow> if pg_int (en_duration (edit_entry p e))
            then Inr (edit_entry p e, d\<lparr>ts_entries := sql_update (\<lambda>e. en_id e = i) (edit_entry p) (ts_entries d)\<rparr>)
            else Inl (EConstraint ''integer out of range'')) = Inr (x, d')"
  from ok obtain e where e: "row_at en_id i (ts_entries d) = Some e" and r: "pg_int (en_duration (edit_entry p e))"
    and d': "d' = d\<lparr>ts_entries := sql_update (\<lambda>e. en_id e = i) (edit_entry p) (ts_entries d)\<rparr>"
    by (auto split: option.splits if_splits)
  have "v = e" if "v \<in> set (ts_entries d)" "en_id v = i" for v
    using that inv e row_at_distinct [of en_id "ts_entries d" v] by (simp add: srv_inv_defs)
  then have "\<forall>v \<in> set (sql_update (\<lambda>e. en_id e = i) (edit_entry p) (ts_entries d)). pg_int (en_duration v)"
    using inv r by (auto simp: srv_inv_defs set_sql_update)
  then show "srv_inv d'"
    using inv by (simp add: srv_inv_defs d' cols del: set_map)
qed

lemma keeps_CreateAuditLog [keeps_rules]: "keeps srv_inv (CreateAuditLog now p)"
  unfolding CreateAuditLog_def
  by (rule keeps_stmt)
    (auto simp: has_user_def audit_inv_def Let_def split: if_splits intro!: srv_inv_leaves(2))

lemma keeps_put_settings [keeps_rules]: "keeps srv_inv (put_settings o1)"
  unfolding put_settings_def by (rule keeps_stmt) (auto split: if_splits intro!: srv_inv_leaves(4))

lemma keeps_UpsertOrgSettings [keeps_rules]: "keeps srv_inv (UpsertOrgSettings now p)"
  unfolding UpsertOrgSettings_def GetOrgSettings_def
  by (intro keeps_rules) (auto split: err.split intro: keeps_rules)

lemma keeps_SrvInsertSnapshot [keeps_rules]: "keeps srv_inv (SrvInsertSnapshot now p)"
  unfolding SrvInsertSnapshot_def
  by (rule keeps_snap_stmt)
    (auto simp: has_device_def snap_key_def valid_tier_def snapshots_inv_def Let_def split: if_splits
      intro!: srv_inv_leaves(3))

lemma keeps_downsample_tx:
  assumes "valid_tier next_tier"
  shows "keeps srv_inv (downsample_tx ctx bucket tier cutoff next_tier)"
  unfolding downsample_tx_def
proof (intro keeps_in_tx keeps_snap_stmt)
  fix d x d'
  assume "srv_inv d" and "Inr (affected (loser bucket tier cutoff (snapshots d)) (snapshots d),
          d\<lparr>snapshots := downsample bucket tier cutoff next_tier (snapshots d)\<rparr>) = (Inr (x, d') :: err + _)"
  then show "srv_inv d'"
    using assms by (auto simp: snapshots_inv_def image_subset_iff downsample_def snapshot_cols distinct_map_delete set_sql_update
        set_sql_delete promote_def intro!: srv_inv_leaves(3))
qed

lemma keeps_downsampling [keeps_rules]:
  "keeps srv_inv (DownsampleTo10Min now)" "keeps srv_inv (DownsampleTo1Hr now)"
  by (simp_all add: DownsampleTo10Min_def DownsampleTo1Hr_def keeps_downsample_tx valid_tier_def)

section \<open>What downsampling does\<close>

lemma ten_minutes:
  fixes x m :: int
  shows "x div 60 * (m * 60) + x mod 60 div 10 * (10 * m) = x div 10 * (10 * m)"
proof -
  have "x div 10 = x div 60 * 6 + x mod 60 div 10"
  proof -
    have "x div 60 = x div 10 div 6" using zdiv_zmult2_eq [of 6 x 10] by simp
    moreover have "x mod 60 div 10 = x div 10 mod 6" using zmod_zmult2_eq [of 6 x 10] by simp
    ultimately show ?thesis by simp
  qed
  then have "x div 10 * (10 * m) = (x div 60 * 6) * (10 * m) + x mod 60 div 10 * (10 * m)"
    by (simp only: distrib_right)
  also have "(x div 60 * 6) * (10 * m) = x div 60 * (m * 60)" by (simp add: ac_simps)
  finally show ?thesis by simp
qed

lemma bucket_10min_floor: "bucket_10min t = t div (10 * minute) * (10 * minute)"
proof -
  have m: "0 < minute" by (simp add: minute_def second_def)
  have h: "hour = minute * 60" by (simp add: hour_def)
  have "t mod hour div minute = t div minute mod 60"
    using m zmod_zmult2_eq [of 60 t minute] by (simp add: h)
  moreover have "t div hour = t div minute div 60"
    using zdiv_zmult2_eq [of 60 t minute] by (simp add: h)
  moreover have "t div (10 * minute) = t div minute div 10"
    using zdiv_zmult2_eq [of 10 t minute] by (simp add: mult.commute)
  ultimately show ?thesis
    using ten_minutes [of "t div minute" minute] by (simp only: bucket_10min_def h)
qed

definition same_bucket :: "(gotime \<Rightarrow> gotime) \<Rightarrow> LayoutSnapshot \<Rightarrow> LayoutSnapshot \<Rightarrow> bool" where
  "same_bucket bucket q r \<longleftrightarrow> ss_device q = ss_device r \<and> bucket (ss_captured q) = bucket (ss_captured r)"

lemma loser_iff:
  "loser bucket tier cutoff rows r \<longleftrightarrow> in_scope tier cutoff r \<and>
     (\<exists>q \<in> set rows. in_scope tier cutoff q \<and> same_bucket bucket q r \<and> ranks_before q r)"
  by (auto simp: loser_def same_bucket_def)

lemma set_downsample:
  "set (downsample bucket tier cutoff next_tier rows) =
     promote next_tier ` {r \<in> set rows. in_scope tier cutoff r \<and> \<not> loser bucket tier cutoff rows r} \<union>
     {r \<in> set rows. \<not> in_scope tier cutoff r}"
  by (auto simp: downsample_def set_sql_update set_sql_delete loser_def)

text \<open>The first row of a bucket, by capture time and then id.\<close>

lemma first_of_bucket:
  assumes dist: "distinct (map ss_id rows)" and q: "q \<in> set rows" "in_scope tier cutoff q"
  shows "\<exists>!r. r \<in> set rows \<and> in_scope tier cutoff r \<and> same_bucket bucket q r \<and> \<not> loser bucket tier cutoff rows r"
proof -
  define S where "S = {r \<in> set rows. in_scope tier cutoff r \<and> same_bucket bucket q r}"
  define key :: "LayoutSnapshot \<Rightarrow> int \<times> int" where "key = (\<lambda>r. (ss_captured r, ss_id r))"
  have lt: "ranks_before a b \<longleftrightarrow> key a < key b" for a b
    by (auto simp: ranks_before_def key_def)
  have fin: "finite S" and ne: "S \<noteq> {}" using q by (auto simp: S_def same_bucket_def)
  have inj: "a = b" if "a \<in> S" "b \<in> S" "key a = key b" for a b
    using that dist by (auto simp: S_def key_def distinct_map inj_on_def)
  obtain m where m: "m \<in> S" "key m = Min (key ` S)"
    using Min_in [of "key ` S"] fin ne by fastforce
  have first: "\<not> loser bucket tier cutoff rows r \<longleftrightarrow> (\<forall>p \<in> S. \<not> key p < key r)" if "r \<in> S" for r
    using that by (auto simp: loser_iff S_def lt same_bucket_def)
  have "\<not> loser bucket tier cutoff rows m"
    using first [OF m(1)] m(2) fin by (auto simp: not_less)
  moreover have "r = m" if "r \<in> S" "\<not> loser bucket tier cutoff rows r" for r
  proof (rule inj [OF that(1) m(1)])
    have "key r \<le> key m" using first [OF that(1)] that(2) m(1) by (auto simp: not_less)
    moreover have "key m \<le> key r" using m(2) fin that(1) by simp
    ultimately show "key r = key m" by simp
  qed
  ultimately show ?thesis using m(1) by (auto simp: S_def)
qed

lemma downsample_one:
  assumes dist: "distinct (map ss_id rows)" and q: "q \<in> set rows" "in_scope tier cutoff q"
  shows "\<exists>!r. r \<in> set rows \<and> in_scope tier cutoff r \<and> same_bucket bucket q r \<and>
           promote next_tier r \<in> set (downsample bucket tier cutoff next_tier rows)"
proof -
  have "promote next_tier r \<in> set (downsample bucket tier cutoff next_tier rows) \<longleftrightarrow>
      \<not> loser bucket tier cutoff rows r" if r: "r \<in> set rows" "in_scope tier cutoff r" for r
  proof
    have same: "p = r" if "p \<in> set rows" "ss_id p = ss_id r" for p
      using that r(1) dist by (auto simp: distinct_map inj_on_def)
    assume "promote next_tier r \<in> set (downsample bucket tier cutoff next_tier rows)"
    then consider p where "p \<in> set rows" "promote next_tier r = promote next_tier p" "\<not> loser bucket tier cutoff rows p"
      | "promote next_tier r \<in> set rows" "\<not> in_scope tier cutoff (promote next_tier r)"
      by (auto simp: set_downsample)
    then show "\<not> loser bucket tier cutoff rows r"
    proof cases
      case 1
      then have "ss_id p = ss_id r"
        by (metis LayoutSnapshot.select_convs(1) LayoutSnapshot.surjective LayoutSnapshot.update_convs(6) promote_def)
      then show ?thesis using 1 same by blast
    next
      case 2
      then have "promote next_tier r = r" using same by (simp add: promote_def)
      then show ?thesis using 2 r(2) by simp
    qed
  next
    assume "\<not> loser bucket tier cutoff rows r"
    then show "promote next_tier r \<in> set (downsample bucket tier cutoff next_tier rows)"
      using r by (auto simp: set_downsample)
  qed
  then show ?thesis using first_of_bucket [OF dist q, of bucket] by (smt (verit, best))
qed

lemma downsample_tx_ok:
  assumes "downsample_tx ctx bucket tier cutoff next_tier s = (Inr n, s')"
  shows "tables s' = (tables s)\<lparr>snapshots := downsample bucket tier cutoff next_tier (snapshots (tables s))\<rparr>"
  using assms by (auto simp: downsample_tx_def in_tx_def snap_stmt_def stmt_def Let_def split: if_splits)

lemma downsample_tx_healthy:
  assumes "no_fault s" and "layout_migrated (tables s)"
  shows "tables (snd (downsample_tx ctx bucket tier cutoff next_tier s)) =
    (tables s)\<lparr>snapshots := downsample bucket tier cutoff next_tier (snapshots (tables s))\<rparr>"
    and "no_fault (snd (downsample_tx ctx bucket tier cutoff next_tier s))"
  using assms by (simp_all add: downsample_tx_def in_tx_def snap_stmt_def stmt_def Let_def)

text \<open>A database with two users, a key and a device, for the witnesses.\<close>

definition some_device :: Device where
  "some_device = \<lparr>dev_id = 1, dev_user = 2, dev_key = 1, dev_client = ''laptop'', dev_name = None, dev_os = ''linux'',
     dev_seen = 0, dev_created = 0\<rparr>"

definition some_db :: "LayoutSnapshot list \<Rightarrow> server_tables" where
  "some_db ss = migrated_db\<lparr>
     users := [\<lparr>usr_id = 1, usr_oid = None, usr_email = ''a'', usr_name = ''A'', usr_role = ''admin'',
         usr_hash = Some ''x'', usr_force = False, usr_created = 0, usr_updated = 0\<rparr>,
       \<lparr>usr_id = 2, usr_oid = Some ''o'', usr_email = ''b'', usr_name = ''B'', usr_role = ''member'',
         usr_hash = None, usr_force = False, usr_created = 0, usr_updated = 0\<rparr>],
     api_keys := [\<lparr>key_id = 1, key_user = 2, key_hash = ''#tsk_1'', key_prefix = ''tsk_1'', key_last_used = 0,
         key_expires = 5000000000, key_revoked = False, key_created = 0, key_revoked_at = None\<rparr>],
     devices := [some_device], snapshots := ss\<rparr>"

definition some_snapshot :: "uuid \<Rightarrow> gotime \<Rightarrow> LayoutSnapshot" where
  "some_snapshot i t = \<lparr>ss_id = i, ss_device = 1, ss_captured = t, ss_windows = JArr [], ss_hash = ''h'',
     ss_tier = ''raw'', ss_created = t\<rparr>"

lemma some_db_simps [simp]: "snapshots (some_db ss) = ss" "layout_migrated (some_db ss) = True" "devices (some_db ss) = [some_device]"
  by (simp_all add: some_db_def migrated_db_def)

lemma some_db_inv: "snapshots_inv (some_db ss) \<Longrightarrow> srv_inv (some_db ss)"
  unfolding srv_inv_def
  by (simp add: users_inv_def keys_inv_def devices_inv_def timesheets_inv_def entries_inv_def audit_inv_def
      some_db_def migrated_db_def valid_role_def some_device_def)



text \<open>
  The cutoff is not on a boundary of the buckets. Two snapshots of one bucket with the cutoff of a
  sweep between them are both kept: each is the only one in scope at its sweep, so a 10-minute
  bucket can end up with two representatives.
\<close>

theorem straddled_bucket_two_representatives:
  assumes "same_bucket bucket_10min a b" and "ss_tier a = ''raw''" and "ss_tier b = ''raw''"
    and "ss_captured a < pg_time now - 7 * (24 * hour)" and "pg_time now - 7 * (24 * hour) \<le> ss_captured b"
    and "ss_captured b < pg_time later - 7 * (24 * hour)"
    and "no_fault s" and "layout_migrated (tables s)" and "snapshots (tables s) = [a, b]"
  shows "snapshots (tables (snd (DownsampleTo10Min later (snd (DownsampleTo10Min now s))))) =
           [promote ''10min'' a, promote ''10min'' b]"
proof -
  let ?c = "pg_time now - 7 * (24 * hour)" and ?c' = "pg_time later - 7 * (24 * hour)"
  have one: "downsample bucket_10min ''raw'' ?c ''10min'' [a, b] = [promote ''10min'' a, b]"
    using assms(1-6) by (simp add: downsample_def sql_delete_def sql_update_def loser_def in_scope_def ranks_before_def)
  have two: "downsample bucket_10min ''raw'' ?c' ''10min'' [promote ''10min'' a, b] = [promote ''10min'' a, promote ''10min'' b]"
    using assms(1-6) by (simp add: downsample_def sql_delete_def sql_update_def loser_def in_scope_def ranks_before_def promote_def)
  show ?thesis
    using assms(7-9) one two by (simp add: DownsampleTo10Min_def downsample_tx_healthy)
qed

lemma straddled_bucket_two_representatives_witness:
  "snapshots (tables (snd (DownsampleTo10Min (8 * (24 * hour) + hour) (snd (DownsampleTo10Min (7 * (24 * hour) + 3 * minute)
     (healthy (some_db [some_snapshot 1 minute, some_snapshot 2 (5 * minute)]))))))) =
   [promote ''10min'' (some_snapshot 1 minute), promote ''10min'' (some_snapshot 2 (5 * minute))]"
  by (rule straddled_bucket_two_representatives)
    (simp_all add: same_bucket_def some_snapshot_def bucket_10min_def pg_time_def hour_def minute_def second_def
      some_db_def migrated_db_def)

end
