(* ===== verification/Go_Time.thy ===== *)
theory Go_Time
  imports Go_Strings
begin

text \<open>
  The texts of times the two programs exchange: \<^verbatim>\<open>time.Format\<close> and \<^verbatim>\<open>time.Parse\<close> for
  \<^verbatim>\<open>time.RFC3339\<close>, in UTC, over the proleptic Gregorian calendar, and that a text that was
  formatted is read as the same second.
\<close>

section \<open>The calendar\<close>

text \<open>Days are counted from the first of January of the year 0.\<close>

definition is_leap :: "int \<Rightarrow> bool" where
  "is_leap y = (y mod 4 = 0 \<and> (y mod 100 \<noteq> 0 \<or> y mod 400 = 0))"

definition multiples_below :: "int \<Rightarrow> int \<Rightarrow> int" where
  "multiples_below k y = (y + (k - 1)) div k"

definition days_before_year :: "int \<Rightarrow> int" where
  "days_before_year y = 365 * y + multiples_below 4 y - multiples_below 100 y + multiples_below 400 y"

definition month_starts :: "int list" where
  "month_starts = [0, 31, 59, 90, 120, 151, 181, 212, 243, 273, 304, 334, 365]"

definition days_before_month :: "int \<Rightarrow> nat \<Rightarrow> int" where
  "days_before_month y m = month_starts ! (m - 1) + (if 2 < m \<and> is_leap y then 1 else 0)"

definition days_in :: "int \<Rightarrow> nat \<Rightarrow> int" where
  "days_in y m = days_before_month y (m + 1) - days_before_month y m"

definition first_nat :: "(nat \<Rightarrow> bool) \<Rightarrow> nat \<Rightarrow> nat \<Rightarrow> nat" where
  "first_nat P a b = (case find P [a..<b] of None \<Rightarrow> b | Some x \<Rightarrow> x)"

text \<open>Year, month and day of a day: within the 400-year cycle, the last year that has begun.\<close>

definition year_of :: "int \<Rightarrow> int" where
  "year_of n = 400 * (n div 146097) + int (first_nat (\<lambda>y. n mod 146097 < days_before_year (int y + 1)) 0 399)"

definition month_of :: "int \<Rightarrow> nat" where
  "month_of n = first_nat (\<lambda>m. n - days_before_year (year_of n) < days_before_month (year_of n) (m + 1)) 1 12"

definition day_of :: "int \<Rightarrow> int" where
  "day_of n = n - days_before_year (year_of n) - days_before_month (year_of n) (month_of n) + 1"

lemma first_nat_less:
  assumes "a \<le> b" "x < first_nat P a b" "a \<le> x"
  shows "\<not> P x"
proof (cases "find P [a..<b]")
  case None
  then have "x < b" using assms(2) unfolding first_nat_def by simp
  moreover have "\<forall>x \<in> set [a..<b]. \<not> P x" using None by (simp add: find_None_iff)
  ultimately show ?thesis using assms(3) by simp
next
  case (Some y)
  then obtain i where i: "i < length [a..<b]" "y = [a..<b] ! i" "\<forall>j<i. \<not> P ([a..<b] ! j)"
    by (auto simp: find_Some_iff)
  then have "y = a + i" by simp
  moreover have "x < y" using assms Some by (simp add: first_nat_def)
  ultimately have "x - a < i" using assms(3) by simp
  then have "\<not> P ([a..<b] ! (x - a))" using i(3) by blast
  then show ?thesis using i(1) \<open>x - a < i\<close> assms(3) by simp
qed

lemma first_nat_holds: "P b \<Longrightarrow> P (first_nat P a b)"
  by (auto simp: first_nat_def find_Some_iff split: option.splits)

lemma first_nat_bounds: "a \<le> b \<Longrightarrow> a \<le> first_nat P a b \<and> first_nat P a b \<le> b"
  by (auto simp: first_nat_def find_Some_iff split: option.splits)

lemma multiples_below_cycle:
  assumes "0 < k"
  shows "multiples_below k (y + k * q) = multiples_below k y + q"
proof -
  have "y + k * q + (k - 1) = (y + (k - 1)) + k * q" by simp
  then show ?thesis
    using assms div_mult_self2 [of k "y + (k - 1)" q] by (simp only: multiples_below_def)
qed

lemma days_before_year_cycle: "days_before_year (400 * q + y) = 146097 * q + days_before_year y"
proof -
  have "multiples_below 4 (400 * q + y) = multiples_below 4 y + 100 * q"
    using multiples_below_cycle [of 4 y "100 * q"] by (simp add: add.commute)
  moreover have "multiples_below 100 (400 * q + y) = multiples_below 100 y + 4 * q"
    using multiples_below_cycle [of 100 y "4 * q"] by (simp add: add.commute)
  moreover have "multiples_below 400 (400 * q + y) = multiples_below 400 y + q"
    using multiples_below_cycle [of 400 y q] by (simp add: add.commute)
  ultimately show ?thesis by (simp add: days_before_year_def)
qed

lemma multiples_below_next:
  assumes "0 < k"
  shows "multiples_below k (y + 1) = multiples_below k y + (if y mod k = 0 then 1 else 0)"
proof -
  have y: "y = k * (y div k) + y mod k" by simp
  have r: "0 \<le> y mod k" "y mod k < k" using assms by simp_all
  have "(y + k) div k = y div k + 1" using assms div_add_self2 [of k y] by simp
  moreover have "(y + (k - 1)) div k = y div k + (if y mod k = 0 then 0 else 1)"
  proof -
    have "(y + (k - 1)) div k = y div k + (y mod k + (k - 1)) div k"
      using assms by (subst y) (simp only: add.assoc div_mult_self4 [OF less_imp_neq [OF assms, symmetric]])
    moreover have "(y mod k + (k - 1)) div k = (if y mod k = 0 then 0 else 1)"
    proof (cases "y mod k = 0")
      case True
      then show ?thesis using assms by (simp add: div_pos_pos_trivial)
    next
      case False
      then have "1 * k \<le> y mod k + (k - 1)" "y mod k + (k - 1) < 2 * k" using r by linarith+
      then have "(y mod k + (k - 1)) div k = 1"
        by (intro int_div_pos_eq [where r = "y mod k - 1"]) (use r False in auto)
      then show ?thesis using False by simp
    qed
    ultimately show ?thesis by simp
  qed
  ultimately show ?thesis by (simp add: multiples_below_def)
qed

lemma leap_count:
  "(c \<Longrightarrow> b) \<Longrightarrow> (b \<Longrightarrow> a) \<Longrightarrow>
   (if a then 1 else 0) - (if b then 1 else 0) + (if c then 1 else 0) = (if a \<and> (\<not> b \<or> c) then 1 else 0 :: int)"
  by (cases a; cases b; cases c) simp_all

lemma days_before_year_next: "days_before_year (y + 1) = days_before_year y + (if is_leap y then 366 else 365)"
proof -
  have "y mod 100 mod 4 = y mod 4" "y mod 400 mod 100 = y mod 100"
    by (rule mod_mod_cancel, simp)+
  then have "y mod 100 = 0 \<Longrightarrow> y mod 4 = 0" "y mod 400 = 0 \<Longrightarrow> y mod 100 = 0" by auto
  then have "(if y mod 4 = 0 then 1 else 0) - (if y mod 100 = 0 then 1 else 0) + (if y mod 400 = 0 then 1 else 0) =
      (if is_leap y then 1 else 0 :: int)"
    unfolding is_leap_def by (intro leap_count) auto
  moreover have "days_before_year (y + 1) = days_before_year y + 365 + ((if y mod 4 = 0 then 1 else 0) -
      (if y mod 100 = 0 then 1 else 0) + (if y mod 400 = 0 then 1 else 0))"
    unfolding days_before_year_def multiples_below_next [of 4, OF zero_less_numeral]
      multiples_below_next [of 100, OF zero_less_numeral] multiples_below_next [of 400, OF zero_less_numeral]
    by (simp only: algebra_simps)
  ultimately show ?thesis by simp
qed

lemma year_of_bounds: "days_before_year (year_of n) \<le> n \<and> n < days_before_year (year_of n + 1)"
proof -
  define q r where "q = n div 146097" and "r = n mod 146097"
  have n: "n = 146097 * q + r" and r: "0 \<le> r" "r < 146097" by (simp_all add: q_def r_def)
  define P where "P = (\<lambda>y. r < days_before_year (int y + 1))"
  define k where "k = first_nat P 0 399"
  have y: "year_of n = 400 * q + int k" by (simp add: year_of_def q_def r_def k_def P_def)
  have "P 399" using r by (simp add: P_def days_before_year_def multiples_below_def)
  then have hi: "P k" unfolding k_def by (rule first_nat_holds)
  have lo: "days_before_year (int k) \<le> r"
  proof (cases k)
    case 0
    then show ?thesis using r by (simp add: days_before_year_def multiples_below_def)
  next
    case (Suc j)
    then have "\<not> P j" using first_nat_less [of 0 399 j P] by (simp add: k_def)
    then show ?thesis using Suc by (simp add: P_def add.commute)
  qed
  show ?thesis
    using lo hi [unfolded P_def] n days_before_year_cycle [of q "int k"] days_before_year_cycle [of q "int k + 1"]
    unfolding y add.assoc by linarith
qed

lemma days_before_month_step: "1 \<le> m \<Longrightarrow> m \<le> 12 \<Longrightarrow> days_before_month y m < days_before_month y (m + 1)"
proof -
  assume "1 \<le> m" "m \<le> 12"
  then have "m = 1 \<or> m = 2 \<or> m = 3 \<or> m = 4 \<or> m = 5 \<or> m = 6 \<or> m = 7 \<or> m = 8 \<or> m = 9 \<or> m = 10 \<or> m = 11 \<or> m = 12"
    by presburger
  then show ?thesis by (elim disjE) (simp_all add: days_before_month_def month_starts_def)
qed

text \<open>The date of a day: its month is one of the twelve and has that day, and it is the day itself.\<close>

lemma date_ok:
  shows "1 \<le> month_of n" and "month_of n \<le> 12" and "1 \<le> day_of n" and "day_of n \<le> days_in (year_of n) (month_of n)"
    and "days_before_year (year_of n) + days_before_month (year_of n) (month_of n) + (day_of n - 1) = n"
proof -
  define y where "y = year_of n"
  define d where "d = n - days_before_year y"
  have d: "0 \<le> d" "d < (if is_leap y then 366 else 365)"
    unfolding d_def using year_of_bounds [of n, folded y_def] days_before_year_next [of y] by linarith+
  define P where "P = (\<lambda>m. d < days_before_month y (m + 1))"
  have m: "month_of n = first_nat P 1 12" by (simp add: month_of_def P_def d_def y_def)
  have "P 12" using d(2) by (cases "is_leap y") (simp_all add: P_def days_before_month_def month_starts_def)
  then have hi: "P (month_of n)" unfolding m by (rule first_nat_holds)
  show b: "1 \<le> month_of n" "month_of n \<le> 12" using first_nat_bounds [of 1 12 P] by (simp_all add: m)
  have lo: "days_before_month y (month_of n) \<le> d"
  proof (cases "month_of n = 1")
    case True
    then show ?thesis using d(1) by (simp add: days_before_month_def month_starts_def)
  next
    case False
    then have "\<not> P (month_of n - 1)" using b first_nat_less [of 1 12 "month_of n - 1" P] by (simp add: m)
    then show ?thesis using b False by (simp add: P_def)
  qed
  show "1 \<le> day_of n" using lo by (simp add: day_of_def d_def y_def)
  show "day_of n \<le> days_in (year_of n) (month_of n)" using hi by (simp add: day_of_def days_in_def P_def d_def y_def)
  show "days_before_year (year_of n) + days_before_month (year_of n) (month_of n) + (day_of n - 1) = n"
    by (simp add: day_of_def)
qed

section \<open>Formatting\<close>

definition pad :: "nat \<Rightarrow> nat \<Rightarrow> string" where
  "pad w n = replicate (w - length (show_nat n)) (CHR ''0'') @ show_nat n"

definition year_text :: "int \<Rightarrow> string" where
  "year_text y = (if y < 0 then CHR ''-'' # pad 4 (nat (- y)) else pad 4 (nat y))"

definition unix_epoch :: int where
  "unix_epoch = 719528"

definition date_text :: "int \<Rightarrow> string" where
  "date_text n = year_text (year_of n) @ ''-'' @ pad 2 (month_of n) @ ''-'' @ pad 2 (nat (day_of n))"

text \<open>The second of a day, in \<^verbatim>\<open>15:04:05\<close>.\<close>

definition clock_text :: "int \<Rightarrow> string" where
  "clock_text s = pad 2 (nat (s div 3600)) @ '':'' @ pad 2 (nat (s div 60 mod 60)) @ '':'' @ pad 2 (nat (s mod 60))"

definition rfc3339_text :: "stamp \<Rightarrow> string" where
  "rfc3339_text s = date_text (s div 86400 + unix_epoch) @ ''T'' @ clock_text (s mod 86400) @ ''Z''"

definition format_rfc3339 :: "gotime \<Rightarrow> string" where
  "format_rfc3339 t = rfc3339_text (rfc3339 t)"

text \<open>\<^verbatim>\<open>RFC3339Nano\<close>, in which \<^verbatim>\<open>encoding/json\<close> writes a time: a fraction without trailing zeros.\<close>

definition nine_digits :: "int \<Rightarrow> string" where
  "nine_digits ns = map (\<lambda>k. digit (nat (ns div 10 ^ k mod 10))) [8, 7, 6, 5, 4, 3, 2, 1, 0]"

definition fraction_text :: "int \<Rightarrow> string" where
  "fraction_text ns =
     (if ns = 0 then [] else CHR ''.'' # rev (dropWhile (\<lambda>c. c = CHR ''0'') (rev (nine_digits ns))))"

definition time_json :: "gotime \<Rightarrow> string" where
  "time_json t = (let s = rfc3339 t in date_text (s div 86400 + unix_epoch) @ ''T'' @ clock_text (s mod 86400) @
     fraction_text (t mod second) @ ''Z'')"

section \<open>Parsing\<close>

definition fixed_num :: "nat \<Rightarrow> string \<Rightarrow> (nat \<times> string) option" where
  "fixed_num k s =
     (if k \<le> length s \<and> list_all is_digit (take k s) then Some (read_nat 0 (take k s), drop k s) else None)"

text \<open>The hour may have one digit.\<close>

fun hour_num :: "string \<Rightarrow> (nat \<times> string) option" where
  "hour_num (a # b # s) =
     (if is_digit a then if is_digit b then Some (read_nat 0 [a, b], s) else Some (read_nat 0 [a], b # s) else None)"
| "hour_num s = None"

fun lit :: "char \<Rightarrow> string \<Rightarrow> string option" where
  "lit c (d # s) = (if c = d then Some s else None)"
| "lit c [] = None"

definition scale9 :: "string \<Rightarrow> int" where
  "scale9 ds = int (read_nat 0 (take 9 ds)) * 10 ^ (9 - min 9 (length ds))"

fun fraction :: "string \<Rightarrow> int \<times> string" where
  "fraction (c # d # s) =
     (if (c = CHR ''.'' \<or> c = CHR '','') \<and> is_digit d
      then (scale9 (takeWhile is_digit (d # s)), dropWhile is_digit (d # s)) else (0, c # d # s))"
| "fraction s = (0, s)"

text \<open>The offset in seconds: \<^verbatim>\<open>Z\<close>, or a sign, hours (up to 24) and minutes (up to 60).\<close>

definition zone :: "string \<Rightarrow> int option" where
  "zone s =
     (case s of [] \<Rightarrow> None
      | c # r \<Rightarrow>
          if c = CHR ''Z'' then (if r = [] then Some 0 else None)
          else Option.bind (fixed_num 2 r) (\<lambda>(h, r).
               Option.bind (lit (CHR '':'') r) (\<lambda>r.
               Option.bind (fixed_num 2 r) (\<lambda>(mi, r).
               if r = [] \<and> h \<le> 24 \<and> mi \<le> 60
               then (if c = CHR ''+'' then Some ((int h * 60 + int mi) * 60)
                     else if c = CHR ''-'' then Some (- ((int h * 60 + int mi) * 60)) else None)
               else None))))"

definition time_Parse :: "string \<Rightarrow> gotime option" where
  "time_Parse s =
     Option.bind (fixed_num 4 s) (\<lambda>(y, s).
     Option.bind (lit (CHR ''-'') s) (\<lambda>s.
     Option.bind (fixed_num 2 s) (\<lambda>(mo, s).
     Option.bind (lit (CHR ''-'') s) (\<lambda>s.
     Option.bind (fixed_num 2 s) (\<lambda>(d, s).
     Option.bind (lit (CHR ''T'') s) (\<lambda>s.
     Option.bind (hour_num s) (\<lambda>(h, s).
     Option.bind (lit (CHR '':'') s) (\<lambda>s.
     Option.bind (fixed_num 2 s) (\<lambda>(mi, s).
     Option.bind (lit (CHR '':'') s) (\<lambda>s.
     Option.bind (fixed_num 2 s) (\<lambda>(sec, s).
     case fraction s of (ns, s) \<Rightarrow>
     Option.bind (zone s) (\<lambda>off.
     if 1 \<le> mo \<and> mo \<le> 12 \<and> 1 \<le> d \<and> int d \<le> days_in (int y) mo \<and> h < 24 \<and> mi < 60 \<and> sec < 60
     then Some (((days_before_year (int y) + days_before_month (int y) mo + (int d - 1) - unix_epoch) * 86400 +
                 int h * 3600 + int mi * 60 + int sec - off) * second + ns)
     else None))))))))))))"

section \<open>What is formatted is read back\<close>

lemma length_show_nat: "n < 10 ^ k \<Longrightarrow> 0 < k \<Longrightarrow> length (show_nat n) \<le> k"
proof (induction k arbitrary: n)
  case (Suc k)
  show ?case
  proof (cases "n < 10")
    case False
    then have "0 < k" using Suc.prems by (cases k) auto
    moreover have "n div 10 < 10 ^ k" using Suc.prems(1) by (simp add: less_mult_imp_div_less mult.commute)
    ultimately show ?thesis using Suc.IH [of "n div 10"] False by (simp add: show_nat.simps [of n])
  qed (simp add: show_nat.simps [of n])
qed simp

lemma read_nat_zeros: "read_nat 0 (replicate j (CHR ''0'') @ s) = read_nat 0 s"
  by (induction j) auto

lemma pad_props:
  assumes "n < 10 ^ k" "0 < k"
  shows "length (pad k n) = k" and "list_all is_digit (pad k n)" and "read_nat 0 (pad k n) = n"
proof -
  show "length (pad k n) = k" using length_show_nat [OF assms] by (simp add: pad_def)
  have "is_digit (CHR ''0'')" by code_simp
  then show "list_all is_digit (pad k n)" by (auto simp: pad_def list_all_iff dest: show_nat_digits)
  show "read_nat 0 (pad k n) = n" by (simp add: pad_def read_nat_zeros read_show_nat)
qed

lemma fixed_num_pad [simp]: "n < 10 ^ k \<Longrightarrow> 0 < k \<Longrightarrow> fixed_num k (pad k n @ s) = Some (n, s)"
  by (simp add: fixed_num_def pad_props)

lemma hour_num_pad [simp]:
  assumes "n < 24"
  shows "hour_num (pad 2 n @ s) = Some (n, s)"
proof -
  have "n < 10 ^ 2" using assms by simp
  note p = pad_props [OF this zero_less_numeral]
  from p(1) obtain a b where "pad 2 n = [a, b]"
    by (auto simp: numeral_2_eq_2 length_Suc_conv)
  then show ?thesis using p by simp
qed

lemma time_Parse_pads:
  assumes "y < 10000" "mo < 100" "d < 100" "h < 24" "mi < 100" "sec < 100"
  shows "time_Parse (pad 4 y @ ''-'' @ pad 2 mo @ ''-'' @ pad 2 d @ ''T'' @ pad 2 h @ '':'' @ pad 2 mi @ '':'' @
      pad 2 sec @ ''Z'') =
    (if 1 \<le> mo \<and> mo \<le> 12 \<and> 1 \<le> d \<and> int d \<le> days_in (int y) mo \<and> mi < 60 \<and> sec < 60
     then Some (((days_before_year (int y) + days_before_month (int y) mo + (int d - 1) - unix_epoch) * 86400 +
                 int h * 3600 + int mi * 60 + int sec) * second)
     else None)"
proof -
  have "fixed_num 4 (pad 4 y @ s) = Some (y, s)" "fixed_num 2 (pad 2 mo @ s) = Some (mo, s)"
    "fixed_num 2 (pad 2 d @ s) = Some (d, s)" "hour_num (pad 2 h @ s) = Some (h, s)"
    "fixed_num 2 (pad 2 mi @ s) = Some (mi, s)" "fixed_num 2 (pad 2 sec @ s) = Some (sec, s)"
    "fraction ''Z'' = (0, ''Z'')" "zone ''Z'' = Some 0" for s
    using assms by (simp_all add: zone_def)
  then show ?thesis using assms(4) by (simp add: time_Parse_def del: fraction.simps)
qed

definition rfc3339_years :: "stamp \<Rightarrow> bool" where
  "rfc3339_years s \<longleftrightarrow> - 62167219200 \<le> s \<and> s < 253402300800"

lemma year_of_range:
  assumes "0 \<le> n" "n < 3652425"
  shows "0 \<le> year_of n" and "year_of n < 10000"
proof -
  have "0 \<le> n div 146097" "n div 146097 \<le> 24" using assms by (simp_all add: pos_imp_zdiv_nonneg_iff)
  moreover have "first_nat P 0 399 \<le> 399" for P using first_nat_bounds [of 0 399 P] by simp
  then have "int (first_nat P 0 399) \<le> 399" for P using of_nat_le_iff [of "first_nat P 0 399" 399] by simp
  ultimately show "0 \<le> year_of n" "year_of n < 10000"
    unfolding year_of_def by (smt (verit) of_nat_0_le_iff)+
qed

text \<open>A time of the years 0 to 9999 is read as the second it was formatted from.\<close>

theorem parse_formatted_time:
  assumes "rfc3339_years s"
  shows "time_Parse (rfc3339_text s) = Some (s * second)"
proof -
  define n where "n = s div 86400 + unix_epoch"
  define c where "c = s mod 86400"
  have n: "0 \<le> n" "n < 3652425" using assms by (simp_all add: n_def rfc3339_years_def unix_epoch_def) linarith+
  have c: "0 \<le> c" "c < 86400" by (simp_all add: c_def)
  note y = year_of_range [OF n]
  note d = date_ok [of n]
  have din: "days_in (year_of n) (month_of n) \<le> 31" if "1 \<le> month_of n" "month_of n \<le> 12"
  proof -
    have "month_of n = 1 \<or> month_of n = 2 \<or> month_of n = 3 \<or> month_of n = 4 \<or> month_of n = 5 \<or> month_of n = 6 \<or>
        month_of n = 7 \<or> month_of n = 8 \<or> month_of n = 9 \<or> month_of n = 10 \<or> month_of n = 11 \<or> month_of n = 12"
      using that by presburger
    then show ?thesis by (elim disjE) (simp_all add: days_in_def days_before_month_def month_starts_def)
  qed
  have d31: "day_of n \<le> 31" using din d(1,2,4) by simp
  have h: "nat (c div 3600) < 24" "nat (c div 60 mod 60) < 60" "nat (c mod 60) < 60"
    using c by (simp_all add: nat_less_iff) 
  have year: "year_text (year_of n) = pad 4 (nat (year_of n))" using y by (simp add: year_text_def)
  have "c div 3600 * 3600 + c div 60 mod 60 * 60 + c mod 60 = c"
  proof -
    have "c div 3600 = c div 60 div 60" using zdiv_zmult2_eq [of 60 c 60] by simp
    moreover have "c div 60 div 60 * 60 + c div 60 mod 60 = c div 60" by simp
    ultimately have "c div 3600 * 3600 + c div 60 mod 60 * 60 = c div 60 * 60" by linarith
    then show ?thesis by simp
  qed
  moreover have "s = (n - unix_epoch) * 86400 + c" by (simp add: n_def c_def)
  ultimately have total: "(days_before_year (year_of n) + days_before_month (year_of n) (month_of n) + (day_of n - 1) - unix_epoch) * 86400 +
      c div 3600 * 3600 + c div 60 mod 60 * 60 + c mod 60 = s"
    using d(5) by simp
  have pos: "0 \<le> c div 3600" "0 \<le> c div 60 mod 60" "0 \<le> c mod 60" using c by (simp_all add: pos_imp_zdiv_nonneg_iff)
  have nums: "int (nat (year_of n)) = year_of n" "int (nat (day_of n)) = day_of n"
    "int (nat (c div 3600)) = c div 3600" "int (nat (c div 60 mod 60)) = c div 60 mod 60"
    "int (nat (c mod 60)) = c mod 60"
    using y d(3) pos by simp_all
  have lt100: "\<And>a :: nat. a < 60 \<Longrightarrow> a < 100" "\<And>a :: nat. a \<le> 12 \<Longrightarrow> a < 100" by simp_all
  have lims: "nat (year_of n) < 10000" "month_of n < 100" "nat (day_of n) < 100"
    using y(1,2) lt100(2) [OF d(2)] d31 d(3) by simp_all
  note lims = this h(1) lt100(1) [OF h(2)] lt100(1) [OF h(3)]
  have valid: "1 \<le> month_of n \<and> month_of n \<le> 12 \<and> 1 \<le> nat (day_of n) \<and>
      day_of n \<le> days_in (year_of n) (month_of n) \<and> nat (c div 60 mod 60) < 60 \<and> nat (c mod 60) < 60"
    using d(1-4) h(2,3) by simp
  have "rfc3339_text s = pad 4 (nat (year_of n)) @ ''-'' @ pad 2 (month_of n) @ ''-'' @ pad 2 (nat (day_of n)) @ ''T'' @
      pad 2 (nat (c div 3600)) @ '':'' @ pad 2 (nat (c div 60 mod 60)) @ '':'' @ pad 2 (nat (c mod 60)) @ ''Z''"
    unfolding rfc3339_text_def n_def [symmetric] c_def [symmetric] date_text_def clock_text_def year append_assoc ..
  then show ?thesis
    by (simp only: time_Parse_pads [OF lims] nums valid total simp_thms if_True)
qed

lemma parse_formatted_time_witness: "time_Parse (rfc3339_text 1709210096) = Some (1709210096 * second)"
  by (rule parse_formatted_time) (simp add: rfc3339_years_def)

lemma time_Parse_Nil [simp]: "time_Parse [] = None"
  by (simp add: time_Parse_def fixed_num_def)

end
