(* ===== verification/Server_Auth.thy ===== *)
theory Server_Auth
  imports Server_Schema Go_Time
begin

text \<open>
  What the server's handlers share (\<^verbatim>\<open>internal/server/api/respond.go\<close>) and its authentication
  (\<^verbatim>\<open>internal/server/auth\<close>, \<^verbatim>\<open>internal/shared/apikey\<close>).

  Third-party code is the argument \<open>lib\<close>: bcrypt, the JWT library, UUID texts, the identity
  provider behind OIDC and the router. A handler is a database program that answers a reply; it never fails.
\<close>

section \<open>Requests and replies\<close>

text \<open>The claims of a token, with the library's times in whole seconds.\<close>

record JWTClaims =
  cl_user :: uuid
  cl_email :: string
  cl_role :: string
  cl_issued :: stamp
  cl_expires :: stamp

text \<open>
  \<open>JwtParse\<close> reads a token: whether its signing method is an HMAC, and what verifying it with a
  secret at a time answers. \<open>OidcExchange\<close> answers an error, a token without \<^verbatim>\<open>id_token\<close>, or one with it. \<open>Hours\<close> is the text of seconds
  as hours with one decimal, whose floating-point rounding is not modelled. \<open>Route\<close> is the router: of
  the methods and patterns in the order they are registered, the position of the one that serves a
  method and path, with the text that stands for \<^verbatim>\<open>{id}\<close>.
\<close>

record lib =
  UuidString :: "uuid \<Rightarrow> string"
  UuidParse :: "string \<Rightarrow> uuid option"
  BcryptGenerate :: "string \<Rightarrow> string option"
  BcryptMatches :: "string \<Rightarrow> string \<Rightarrow> bool"
  JwtSign :: "string \<Rightarrow> JWTClaims \<Rightarrow> string option"
  JwtParse :: "string \<Rightarrow> (bool \<times> (string \<Rightarrow> gotime \<Rightarrow> JWTClaims option)) option"
  OidcInit :: "OIDCParams \<Rightarrow> bool"
  OidcExchange :: "OIDCParams \<Rightarrow> string \<Rightarrow> string option option"
  OidcVerify :: "OIDCParams \<Rightarrow> string \<Rightarrow> body option"
  Hours :: "int \<Rightarrow> string"
  Route :: "(string \<times> string list) list \<Rightarrow> string \<Rightarrow> string list \<Rightarrow> (nat \<times> string) option"

record request =
  rq_auth :: string
  rq_query :: "(string \<times> string) list"
  rq_id :: string
  rq_body :: body
  rq_large :: bool
  rq_host :: string
  rq_tls :: bool
  rq_proto :: string

text \<open>
  What the request finds outside: the clock of the program (\<^verbatim>\<open>time.Now()\<close>) and that of the database
  (\<^verbatim>\<open>now()\<close>) when it is served, and the random bytes it draws.
\<close>

record clocks =
  app_now :: gotime
  db_now :: gotime
  random :: "nat list option"

text \<open>What the authentication puts in the context of a request.\<close>

datatype AuthType = AuthTypeAPIKey | AuthTypeJWT

record auth_ctx =
  ctx_user :: "uuid option"
  ctx_role :: "string option"
  ctx_key :: "uuid option"
  ctx_type :: "AuthType option"

definition no_ctx :: auth_ctx where
  "no_ctx = \<lparr>ctx_user = None, ctx_role = None, ctx_key = None, ctx_type = None\<rparr>"

datatype content = Json json | Csv "string list list" | Binary string

type_synonym reply = "int \<times> content"
type_synonym handler = "auth_ctx \<Rightarrow> request \<Rightarrow> reply srv"

definition respondJSON :: "int \<Rightarrow> json \<Rightarrow> reply" where
  "respondJSON status v = (status, Json v)"

definition respondError :: "int \<Rightarrow> string \<Rightarrow> reply" where
  "respondError status message = respondJSON status (JObj [(''error'', JStr message)])"

lemma fst_respond [simp]: "fst (respondJSON st v) = st" "fst (respondError st m) = st"
  by (simp_all add: respondJSON_def respondError_def)

text \<open>\<^verbatim>\<open>url.Values.Get\<close>: the first value, or the empty text.\<close>

definition query_get :: "request \<Rightarrow> string \<Rightarrow> string" where
  "query_get r k = (case map_of (rq_query r) k of None \<Rightarrow> [] | Some v \<Rightarrow> v)"

definition parsePagination :: "request \<Rightarrow> int \<times> int" where
  "parsePagination r =
     ((case Atoi (query_get r ''limit'') of Some n \<Rightarrow> if 0 < n \<and> n \<le> 1000 then n else 100 | None \<Rightarrow> 100),
      (case Atoi (query_get r ''offset'') of Some n \<Rightarrow> if 0 \<le> n then n else 0 | None \<Rightarrow> 0))"

lemma parsePagination_bounds:
  "parsePagination r = (limit, offset) \<Longrightarrow> 1 \<le> limit \<and> limit \<le> 1000 \<and> 0 \<le> offset"
  by (auto simp: parsePagination_def split: option.splits if_splits)

text \<open>What a handler answers to an error of the store.\<close>

fun is_not_found :: "err \<Rightarrow> bool" where
  "is_not_found (ENotFound x) = True"
| "is_not_found e = False"

definition not_found_or :: "int \<Rightarrow> string \<Rightarrow> string \<Rightarrow> err \<Rightarrow> reply" where
  "not_found_or status missing other e =
     (if is_not_found e then respondError status missing else respondError 500 other)"

text \<open>\<open>answers P m\<close>: whatever the database does, \<open>m\<close> answers a reply in \<open>P\<close>; no error escapes.\<close>

definition answers :: "(reply \<Rightarrow> bool) \<Rightarrow> reply srv \<Rightarrow> bool" where
  "answers P m \<longleftrightarrow> (\<forall>s. \<exists>r. fst (m s) = Inr r \<and> P r)"

lemma answers_ret: "answers P (ret r) \<longleftrightarrow> P r"
  by (simp add: answers_def ret_def)

lemma answers_try_db:
  assumes "\<And>e. P (bad e)" and "\<And>x. answers P (good x)"
  shows "answers P (try_db m bad good)"
  unfolding answers_def
proof
  fix s
  show "\<exists>r. fst (try_db m bad good s) = Inr r \<and> P r"
    using assms by (cases "m s"; cases "fst (m s)")
      (auto simp: try_db_def bindM_def attempt_def ret_def answers_def)
qed

section \<open>API keys\<close>

definition keyPrefix :: string where "keyPrefix = ''tsk_''"

definition prefixLen :: nat where "prefixLen = 8"

definition Prefix :: "string \<Rightarrow> string" where
  "Prefix key = (if length key \<le> prefixLen then key else take prefixLen key)"

definition hex_digit :: "nat \<Rightarrow> char" where
  "hex_digit n = (if n < 10 then digit n else char_of (87 + n))"

definition hex_encode :: "nat list \<Rightarrow> string" where
  "hex_encode bs = concat (map (\<lambda>b. [hex_digit (b div 16), hex_digit (b mod 16)]) bs)"

text \<open>\<open>rnd\<close> is what \<^verbatim>\<open>rand.Read\<close> fills the 32 bytes with, or an error.\<close>

definition Generate :: "lib \<Rightarrow> nat list option \<Rightarrow> (string \<times> string \<times> string) option" where
  "Generate L rnd =
     (case rnd of None \<Rightarrow> None
      | Some b \<Rightarrow> let plain = keyPrefix @ hex_encode b in
          case BcryptGenerate L plain of None \<Rightarrow> None | Some h \<Rightarrow> Some (plain, h, Prefix plain))"

definition Verify :: "lib \<Rightarrow> string \<Rightarrow> string \<Rightarrow> bool" where
  "Verify L key hash = (if key = [] \<or> hash = [] then False else BcryptMatches L hash key)"

definition day_start :: "gotime \<Rightarrow> gotime" where
  "day_start t = t div (24 * hour) * (24 * hour)"

definition IsExpired :: "gotime \<Rightarrow> gotime \<Rightarrow> int \<Rightarrow> bool" where
  "IsExpired now lastUsed expiryDays =
     (if expiryDays \<le> 0 then False
      else expiryDays < (day_start now - day_start lastUsed) div (24 * hour))"

definition bearer :: "string \<Rightarrow> string option" where
  "bearer header =
     (case SplitN2 header (CHR '' '') of
        [scheme, token] \<Rightarrow> if EqualFold scheme ''Bearer'' then Some token else None
      | _ \<Rightarrow> None)"

definition APIKeyMiddleware :: "lib \<Rightarrow> gotime \<Rightarrow> (string \<Rightarrow> APIKeyRecord srv) \<Rightarrow> (uuid \<Rightarrow> unit srv) \<Rightarrow>
    handler \<Rightarrow> handler" where
  "APIKeyMiddleware L now lookup mark next_handler ctx r =
     (if rq_auth r = [] then ret (respondError 401 ''missing Authorization header'')
      else case bearer (rq_auth r) of
        None \<Rightarrow> ret (respondError 401 ''invalid Authorization header format'')
      | Some plainKey \<Rightarrow>
          if Prefix plainKey = [] then ret (respondError 401 ''invalid API key format'')
          else try_db (lookup (Prefix plainKey)) (\<lambda>_. respondError 401 ''invalid API key'') (\<lambda>matched.
            if \<not> BcryptMatches L (rec_hash matched) plainKey then ret (respondError 401 ''invalid API key'')
            else if rec_revoked matched then ret (respondError 401 ''API key has been revoked'')
            else if rec_expires matched < now
            then ret (respondJSON 401 (JObj [(''error'', JStr ''API key has expired''),
                   (''message'', JStr ''Please download a new client from your Trasker dashboard'')]))
            else bindM (logged (mark (rec_id matched))) (\<lambda>_.
              next_handler (ctx\<lparr>ctx_user := Some (rec_user matched), ctx_role := Some (rec_role matched),
                ctx_key := Some (rec_id matched), ctx_type := Some AuthTypeAPIKey\<rparr>) r)))"

section \<open>Tokens\<close>

record JWTIssuer =
  iss_secret :: string
  iss_duration :: gotime

definition NewJWTIssuer :: "string \<Rightarrow> gotime \<Rightarrow> JWTIssuer option" where
  "NewJWTIssuer secret duration =
     (if length secret < 32 then None else Some \<lparr>iss_secret = secret, iss_duration = duration\<rparr>)"

definition Issue :: "lib \<Rightarrow> JWTIssuer \<Rightarrow> gotime \<Rightarrow> uuid \<Rightarrow> string \<Rightarrow> string \<Rightarrow> string option" where
  "Issue L j now user email role =
     JwtSign L (iss_secret j) \<lparr>cl_user = user, cl_email = email, cl_role = role, cl_issued = rfc3339 now,
       cl_expires = rfc3339 (now + iss_duration j)\<rparr>"

definition Validate :: "lib \<Rightarrow> JWTIssuer \<Rightarrow> gotime \<Rightarrow> string \<Rightarrow> JWTClaims option" where
  "Validate L j now token =
     (case JwtParse L token of None \<Rightarrow> None
      | Some (hmac, verify) \<Rightarrow> if \<not> hmac then None else verify (iss_secret j) now)"

definition JWTMiddleware :: "lib \<Rightarrow> JWTIssuer \<Rightarrow> gotime \<Rightarrow> handler \<Rightarrow> handler" where
  "JWTMiddleware L j now next_handler ctx r =
     (if rq_auth r = [] then ret (respondError 401 ''missing Authorization header'')
      else case bearer (rq_auth r) of
        None \<Rightarrow> ret (respondError 401 ''invalid Authorization header format'')
      | Some token \<Rightarrow>
          case Validate L j now token of
            None \<Rightarrow> ret (respondError 401 ''invalid or expired token'')
          | Some claims \<Rightarrow> next_handler (ctx\<lparr>ctx_user := Some (cl_user claims), ctx_role := Some (cl_role claims),
                ctx_type := Some AuthTypeJWT\<rparr>) r)"

definition RequireRole :: "string list \<Rightarrow> handler \<Rightarrow> handler" where
  "RequireRole allowed next_handler ctx r =
     (case ctx_role ctx of
        None \<Rightarrow> ret (respondError 401 ''no authentication context'')
      | Some role \<Rightarrow>
          if role \<notin> set allowed then ret (respondError 403 ''insufficient permissions'')
          else next_handler ctx r)"

section \<open>OIDC\<close>

definition NewOIDCConfig :: "OIDCParams \<Rightarrow> OIDCParams option" where
  "NewOIDCConfig p = (if TenantID p = [] \<or> ClientID p = [] \<or> RedirectURL p = [] then None else Some p)"

record UserInfo =
  ui_oid :: string
  ui_email :: string
  ui_name :: string

text \<open>The claims are a map: names are compared exactly, and a value that is no string counts as empty.\<close>

definition claim :: "string \<Rightarrow> (string \<times> json) list \<Rightarrow> string" where
  "claim name cs = (case map_of (rev cs) name of Some (JStr s) \<Rightarrow> s | _ \<Rightarrow> [])"

definition ExtractUserInfo :: "(string \<times> json) list \<Rightarrow> UserInfo option" where
  "ExtractUserInfo cs =
     (let oid = claim ''oid'' cs;
          email = (if claim ''preferred_username'' cs = [] then claim ''email'' cs else claim ''preferred_username'' cs);
          name = (if claim ''name'' cs = [] then email else claim ''name'' cs)
      in if oid = [] \<or> email = [] then None else Some \<lparr>ui_oid = oid, ui_email = email, ui_name = name\<rparr>)"

section \<open>Who gets through\<close>

text \<open>
  The contract of \<^verbatim>\<open>APIKeyLookup\<close>: a record that is found is one the store knows under the prefix,
  and looking it up or marking it as used changes no table the client of the contract cares about.
\<close>

locale key_lookup =
  fixes lookup :: "string \<Rightarrow> APIKeyRecord srv" and mark :: "uuid \<Rightarrow> unit srv"
    and known :: "server_tables \<Rightarrow> string \<Rightarrow> APIKeyRecord \<Rightarrow> bool"
    and same :: "server_tables \<Rightarrow> server_tables \<Rightarrow> bool"
  assumes lookup_known: "lookup p s = (Inr k, s') \<Longrightarrow> known (tables s) p k"
    and lookup_same: "tables (snd (lookup p s)) = tables s"
    and mark_same: "same (tables s) (tables (snd (mark i s)))"
begin

lemma passes:
  assumes "APIKeyMiddleware L now lookup mark h ctx r s = (Inr reply, s')"
  shows "(fst reply = 401 \<and> tables s' = tables s) \<or>
    (\<exists>plain k s1. bearer (rq_auth r) = Some plain \<and> known (tables s) (Prefix plain) k \<and>
       BcryptMatches L (rec_hash k) plain \<and> \<not> rec_revoked k \<and> now \<le> rec_expires k \<and> same (tables s) (tables s1) \<and>
       h (ctx\<lparr>ctx_user := Some (rec_user k), ctx_role := Some (rec_role k), ctx_key := Some (rec_id k),
            ctx_type := Some AuthTypeAPIKey\<rparr>) r s1 = (Inr reply, s'))"
proof (cases "rq_auth r = [] \<or> bearer (rq_auth r) = None \<or> (\<exists>plain. bearer (rq_auth r) = Some plain \<and> Prefix plain = [])")
  case True
  then have "fst reply = 401 \<and> tables s' = tables s"
    using assms by (auto simp: APIKeyMiddleware_def ret_def respondError_def respondJSON_def split: if_splits)
  then show ?thesis ..
next
  case False
  then obtain plain where b: "bearer (rq_auth r) = Some plain" "Prefix plain \<noteq> []" "rq_auth r \<noteq> []" by auto
  obtain x s1 where l: "lookup (Prefix plain) s = (x, s1)" by fastforce
  have t: "tables s1 = tables s" using lookup_same [of "Prefix plain" s] l by simp
  show ?thesis
  proof (cases x)
    case (Inl e)
    then show ?thesis using assms b l t
      by (simp add: APIKeyMiddleware_def try_db_def bindM_def attempt_def ret_def respondError_def respondJSON_def)
        (auto simp: respondError_def respondJSON_def)
  next
    case (Inr k)
    have known: "known (tables s) (Prefix plain) k" using l Inr lookup_known by blast
    consider "\<not> BcryptMatches L (rec_hash k) plain \<or> rec_revoked k \<or> rec_expires k < now"
      | "BcryptMatches L (rec_hash k) plain" "\<not> rec_revoked k" "\<not> rec_expires k < now" by blast
    then show ?thesis
    proof cases
      case 1
      then show ?thesis using assms b l t Inr
        by (auto simp: APIKeyMiddleware_def try_db_def bindM_def attempt_def ret_def respondError_def respondJSON_def
            split: if_splits)
    next
      case 2
      then have run: "h (ctx\<lparr>ctx_user := Some (rec_user k), ctx_role := Some (rec_role k), ctx_key := Some (rec_id k),
            ctx_type := Some AuthTypeAPIKey\<rparr>) r (snd (mark (rec_id k) s1)) = (Inr reply, s')"
        using assms b l Inr
        by (simp add: APIKeyMiddleware_def try_db_def bindM_def attempt_def logged_def)
      have "same (tables s) (tables (snd (mark (rec_id k) s1)))" using mark_same [of s1 "rec_id k"] t by simp
      then show ?thesis using run 2 b(1) known by (meson not_less)
    qed
  qed
qed

end

text \<open>The record of an active key: the key, its owner and the owner's role, as stored.\<close>

definition key_of_record :: "gotime \<Rightarrow> server_tables \<Rightarrow> string \<Rightarrow> APIKeyRecord \<Rightarrow> bool" where
  "key_of_record now d pfx r \<longleftrightarrow>
     (\<exists>k \<in> set (api_keys d). \<exists>u \<in> set (users d). key_prefix k = pfx \<and> active now k \<and> usr_id u = key_user k \<and>
        r = \<lparr>rec_id = key_id k, rec_user = usr_id u, rec_hash = key_hash k, rec_role = usr_role u,
             rec_expires = key_expires k, rec_revoked = key_revoked k\<rparr>)"

definition but_last_used :: "server_tables \<Rightarrow> server_tables \<Rightarrow> bool" where
  "but_last_used d d' \<longleftrightarrow> (\<exists>ks. d' = d\<lparr>api_keys := ks\<rparr> \<and>
     map (\<lambda>k. k\<lparr>key_last_used := 0\<rparr>) ks = map (\<lambda>k. k\<lparr>key_last_used := 0\<rparr>) (api_keys d))"

lemma key_records_mem:
  "r \<in> set (key_records now p d) \<longleftrightarrow>
     (\<exists>k \<in> set (api_keys d). \<exists>u \<in> set (users d). p k \<and> active now k \<and> usr_id u = key_user k \<and>
        r = \<lparr>rec_id = key_id k, rec_user = usr_id u, rec_hash = key_hash k, rec_role = usr_role u,
             rec_expires = key_expires k, rec_revoked = key_revoked k\<rparr>)"
  unfolding key_records_def by (simp add: image_iff) (metis (no_types, lifting))

interpretation srv_keys: key_lookup "GetActiveAPIKeyByPrefix now" "UpdateAPIKeyLastUsed now" "key_of_record now" but_last_used
  for now
proof
  show "key_of_record now (tables s) p k" if "GetActiveAPIKeyByPrefix now p s = (Inr k, s')" for p s k s'
  proof -
    from that have "k \<in> set (key_records now (\<lambda>k. key_prefix k = p) (tables s))"
      by (auto simp: GetActiveAPIKeyByPrefix_def one_row_def stmt_def Let_def split: if_splits list.splits)
    then show ?thesis by (auto simp: key_records_mem key_of_record_def)
  qed
  show "tables (snd (GetActiveAPIKeyByPrefix now p s)) = tables s" for p s
    by (auto simp: GetActiveAPIKeyByPrefix_def one_row_def stmt_def Let_def split: list.splits)
  show "but_last_used (tables s) (tables (snd (UpdateAPIKeyLastUsed now i s)))" for s i
    by (auto simp: UpdateAPIKeyLastUsed_def update_key_def stmt_def Let_def but_last_used_def used_key_def sql_update_def
        intro: exI [of _ "api_keys (tables s)"])
qed

text \<open>
  C10: A request that the API-key middleware lets through carries a key that is stored, neither revoked
  nor expired, whose hash matches the whole key, and runs as the owner of that key with the role the
  owner has now; every other request is answered 401 with the database untouched. The only trace of
  the check is the key's time of last use.
\<close>

theorem api_key_required:
  assumes "APIKeyMiddleware L now (GetActiveAPIKeyByPrefix t) (UpdateAPIKeyLastUsed t) h no_ctx r s = (Inr reply, s')"
  shows "(fst reply = 401 \<and> tables s' = tables s) \<or>
    (\<exists>plain k u s1. bearer (rq_auth r) = Some plain \<and> k \<in> set (api_keys (tables s)) \<and> u \<in> set (users (tables s)) \<and>
       usr_id u = key_user k \<and> active t k \<and> BcryptMatches L (key_hash k) plain \<and> but_last_used (tables s) (tables s1) \<and>
       h \<lparr>ctx_user = Some (usr_id u), ctx_role = Some (usr_role u), ctx_key = Some (key_id k),
          ctx_type = Some AuthTypeAPIKey\<rparr> r s1 = (Inr reply, s'))"
  using srv_keys.passes [OF assms] by (auto simp: key_of_record_def no_ctx_def)

end
