(* ===== verification/Server_Client_Api.thy ===== *)
theory Server_Client_Api
  imports Server_Auth
begin

text \<open>
  The handlers for devices, timesheets and layout snapshots
  (\<^verbatim>\<open>internal/server/api/{device,timesheet,layout}_handlers.go\<close>). A handler takes the third-party
  library and the clocks of the request; each of its calls of the store can fail.
\<close>

section \<open>Replies\<close>

definition json_uuid :: "lib \<Rightarrow> uuid \<Rightarrow> json" where
  "json_uuid L i = JStr (UuidString L i)"

definition json_time :: "gotime \<Rightarrow> json" where
  "json_time t = JStr (time_json t)"

definition json_opt :: "('a \<Rightarrow> json) \<Rightarrow> 'a option \<Rightarrow> json" where
  "json_opt f x = (case x of None \<Rightarrow> JNull | Some y \<Rightarrow> f y)"

definition no_user :: reply where
  "no_user = respondError 401 ''not authenticated''"

definition bad_body :: reply where
  "bad_body = respondError 400 ''invalid request body''"

section \<open>Devices\<close>

definition device_json :: "lib \<Rightarrow> Device \<Rightarrow> (string \<times> json) list" where
  "device_json L d =
     [(''id'', json_uuid L (dev_id d)), (''client_device_id'', JStr (dev_client d)), (''os'', JStr (dev_os d)),
      (''device_name'', json_opt JStr (dev_name d)), (''last_seen_at'', json_time (dev_seen d))]"

definition register_shape :: shape where
  "register_shape = SStruct [(''client_device_id'', SString), (''os'', SString), (''hostname'', SString)]"

definition deviceRegisterHandler :: "lib \<Rightarrow> clocks \<Rightarrow> handler" where
  "deviceRegisterHandler L C ctx r =
     (case ctx_user ctx of None \<Rightarrow> ret no_user
      | Some user \<Rightarrow> (case ctx_key ctx of None \<Rightarrow> ret (respondError 401 ''no API key context'')
      | Some key \<Rightarrow>
          if \<not> decode_ok register_shape (rq_body r) then ret bad_body
          else let client = string_field ''client_device_id'' (rq_body r); os = string_field ''os'' (rq_body r) in
            if client = [] \<or> os = [] then ret (respondError 400 ''client_device_id and os are required'')
            else try_db (UpsertDevice (db_now C) user key client os (string_field ''hostname'' (rq_body r)))
              (\<lambda>_. respondError 500 ''failed to register device'')
              (\<lambda>d. ret (respondJSON 201 (JObj (device_json L d @ [(''created_at'', json_time (dev_created d))]))))))"

definition deviceListHandler :: "lib \<Rightarrow> handler" where
  "deviceListHandler L ctx r =
     (case ctx_user ctx of None \<Rightarrow> ret no_user
      | Some user \<Rightarrow> try_db (ListDevicesByUser user) (\<lambda>_. respondError 500 ''failed to list devices'')
          (\<lambda>ds. ret (respondJSON 200 (JArr (map (\<lambda>d. JObj (device_json L d @ [(''created_at'', json_time (dev_created d))])) ds)))))"

definition name_shape :: shape where
  "name_shape = SStruct [(''device_name'', SString)]"

definition deviceUpdateHandler :: "lib \<Rightarrow> handler" where
  "deviceUpdateHandler L ctx r =
     (case UuidParse L (rq_id r) of None \<Rightarrow> ret (respondError 400 ''invalid device ID'')
      | Some i \<Rightarrow>
          if \<not> decode_ok name_shape (rq_body r) then ret bad_body
          else let name = string_field ''device_name'' (rq_body r) in
            if name = [] then ret (respondError 400 ''device_name is required'')
            else try_db (UpdateDeviceName i name) (not_found_or 404 ''device not found'' ''failed to update device'')
              (\<lambda>d. ret (respondJSON 200 (JObj (device_json L d)))))"

section \<open>Timesheets\<close>

definition entry_shape :: shape where
  "entry_shape = SStruct [(''tag'', SString), (''started_at'', SString), (''ended_at'', SString), (''duration_s'', SInt),
     (''notes'', SString), (''app_summary'', SString)]"

definition submit_shape :: shape where
  "submit_shape = SStruct [(''client_device_id'', SString), (''entries'', SSlice entry_shape)]"

definition text_opt :: "string \<Rightarrow> string option" where
  "text_opt s = (if s = [] then None else Some s)"

definition parse_entry :: "json \<Rightarrow> string + CreateTimesheetEntryParams" where
  "parse_entry e =
     (case time_Parse (string_field ''started_at'' (Some e)) of
        None \<Rightarrow> Inl ''invalid started_at format, use RFC3339''
      | Some st \<Rightarrow>
          (case time_Parse (string_field ''ended_at'' (Some e)) of
             None \<Rightarrow> Inl ''invalid ended_at format, use RFC3339''
           | Some en \<Rightarrow> Inr \<lparr>ep_tag = string_field ''tag'' (Some e), ep_started = st, ep_ended = en,
               ep_duration = num_field ''duration_s'' (Some e), ep_notes = text_opt (string_field ''notes'' (Some e)),
               ep_summary = text_opt (string_field ''app_summary'' (Some e))\<rparr>))"

fun parse_entries :: "json list \<Rightarrow> string + CreateTimesheetEntryParams list" where
  "parse_entries [] = Inr []"
| "parse_entries (e # es) =
     (case parse_entry e of Inl m \<Rightarrow> Inl m
      | Inr p \<Rightarrow> (case parse_entries es of Inl m \<Rightarrow> Inl m | Inr ps \<Rightarrow> Inr (p # ps)))"

definition timesheetSubmitHandler :: "lib \<Rightarrow> clocks \<Rightarrow> handler" where
  "timesheetSubmitHandler L C ctx r =
     (case ctx_user ctx of None \<Rightarrow> ret no_user
      | Some user \<Rightarrow> (case ctx_key ctx of None \<Rightarrow> ret (respondError 401 ''no API key context'')
      | Some key \<Rightarrow>
          if \<not> decode_ok submit_shape (rq_body r) then ret bad_body
          else let client = string_field ''client_device_id'' (rq_body r); es = slice_field ''entries'' (rq_body r) in
            if client = [] then ret (respondError 400 ''client_device_id is required'')
            else if es = [] then ret (respondError 400 ''at least one entry is required'')
            else try_db (GetDeviceByClientID client key)
              (not_found_or 400 ''device not registered'' ''failed to look up device'') (\<lambda>device.
              case parse_entries es of
                Inl m \<Rightarrow> ret (respondError 400 m)
              | Inr entries \<Rightarrow>
                  try_db (CreateTimesheet (db_now C) user (dev_id device) (app_now C) entries)
                    (\<lambda>_. respondError 500 ''failed to create timesheet'')
                    (\<lambda>ts. ret (respondJSON 201 (JObj [(''id'', json_uuid L (ts_id ts)),
                        (''submitted_at'', json_time (ts_submitted ts)), (''entry_count'', JNum (int (length entries)))])))) ))"

definition timesheet_json :: "lib \<Rightarrow> Timesheet \<Rightarrow> (string \<times> json) list" where
  "timesheet_json L t = [(''id'', json_uuid L (ts_id t)), (''submitted_at'', json_time (ts_submitted t)),
     (''created_at'', json_time (ts_created t))]"

definition timesheetListOwnHandler :: "lib \<Rightarrow> handler" where
  "timesheetListOwnHandler L ctx r =
     (case ctx_user ctx of None \<Rightarrow> ret no_user
      | Some user \<Rightarrow> (case parsePagination r of (limit, offset) \<Rightarrow>
          try_db (ListTimesheetsByUser user limit offset) (\<lambda>_. respondError 500 ''failed to list timesheets'')
            (\<lambda>ts. ret (respondJSON 200 (JArr (map (\<lambda>t. JObj (timesheet_json L t)) ts))))))"

definition timesheetListTeamHandler :: "lib \<Rightarrow> handler" where
  "timesheetListTeamHandler L ctx r =
     (case parsePagination r of (limit, offset) \<Rightarrow>
        try_db (ListTimesheetsAll \<lparr>FilterUser = None, FilterFrom = None, FilterTo = None, FilterLimit = limit, FilterOffset = offset\<rparr>)
          (\<lambda>_. respondError 500 ''failed to list team timesheets'')
          (\<lambda>ts. ret (respondJSON 200 (JArr (map (\<lambda>t. JObj ((''user_id'', json_uuid L (ts_user t)) # timesheet_json L t)) ts)))))"

section \<open>Layout snapshots\<close>

definition layoutSchemaMissingMsg :: string where
  "layoutSchemaMissingMsg = ''layout_snapshots table not migrated; apply migrations/004_layout_snapshots.up.sql''"

definition window_shape :: shape where
  "window_shape = SStruct [(''app_name'', SString), (''window_title'', SString), (''x'', SInt), (''y'', SInt), (''w'', SInt), (''h'', SInt)]"

definition ingest_shape :: shape where
  "ingest_shape = SStruct [(''client_device_id'', SString),
     (''snapshots'', SSlice (SStruct [(''captured_at'', SString), (''windows_hash'', SString), (''windows'', SSlice window_shape)]))]"

text \<open>A window as it is marshalled again: the six fields and nothing else. A nil slice is \<^verbatim>\<open>null\<close>.\<close>

definition clean_window :: "json \<Rightarrow> json" where
  "clean_window w = JObj [(''app_name'', JStr (string_field ''app_name'' (Some w))),
     (''window_title'', JStr (string_field ''window_title'' (Some w))), (''x'', JNum (num_field ''x'' (Some w))),
     (''y'', JNum (num_field ''y'' (Some w))), (''w'', JNum (num_field ''w'' (Some w))), (''h'', JNum (num_field ''h'' (Some w)))]"

definition clean_windows :: "json \<Rightarrow> json" where
  "clean_windows snap =
     (case last_member ''windows'' (Some snap) of JArr ws \<Rightarrow> JArr (map clean_window ws) | _ \<Rightarrow> JNull)"

text \<open>The loop over the batch: it ends at the first bad snapshot, after the ones before it are stored.\<close>

fun ingest :: "clocks \<Rightarrow> uuid \<Rightarrow> json list \<Rightarrow> int \<Rightarrow> int \<Rightarrow> reply srv" where
  "ingest C dev [] received deduped =
     ret (respondJSON 201 (JObj [(''received'', JNum received), (''deduped'', JNum deduped)]))"
| "ingest C dev (snap # snaps) received deduped =
     (case time_Parse (string_field ''captured_at'' (Some snap)) of
        None \<Rightarrow> ret (respondError 400 ''invalid captured_at format, use RFC3339'')
      | Some t \<Rightarrow>
          if string_field ''windows_hash'' (Some snap) = [] then ret (respondError 400 ''windows_hash is required'')
          else try_db (SrvInsertSnapshot (db_now C) \<lparr>ip_device = dev, ip_captured = t, ip_windows = clean_windows snap,
                   ip_hash = string_field ''windows_hash'' (Some snap)\<rparr>)
                 (\<lambda>_. respondError 500 ''failed to insert snapshot'')
                 (\<lambda>row. ingest C dev snaps (received + 1) (if row = None then deduped + 1 else deduped)))"

text \<open>The probe for migration 004 that the layout handlers share.\<close>

definition with_layout_table :: "reply srv \<Rightarrow> reply srv" where
  "with_layout_table m =
     try_db HasLayoutSnapshotsTable (\<lambda>_. respondError 500 ''failed to check schema'')
       (\<lambda>has. if has then m else ret (respondError 503 layoutSchemaMissingMsg))"

definition layoutIngestHandler :: "clocks \<Rightarrow> handler" where
  "layoutIngestHandler C ctx r =
     (case ctx_user ctx of None \<Rightarrow> ret no_user
      | Some _ \<Rightarrow> (case ctx_key ctx of None \<Rightarrow> ret (respondError 401 ''no API key context'')
      | Some key \<Rightarrow>
          if rq_large r then ret (respondError 413 ''request body exceeds 4MB layout cap'')
          else if \<not> decode_ok ingest_shape (rq_body r) then ret bad_body
          else let client = string_field ''client_device_id'' (rq_body r); snaps = slice_field ''snapshots'' (rq_body r) in
            if client = [] then ret (respondError 400 ''client_device_id is required'')
            else if snaps = [] then ret (respondError 400 ''at least one snapshot is required'')
            else with_layout_table
              (try_db (GetDeviceByClientID client key)
                (not_found_or 400 ''device not registered'' ''failed to look up device'')
                (\<lambda>device. ingest C (dev_id device) snaps 0 0))))"

definition authorizeDeviceForUser :: "uuid \<Rightarrow> uuid \<Rightarrow> (Device \<Rightarrow> reply srv) \<Rightarrow> reply srv" where
  "authorizeDeviceForUser device user k =
     try_db (GetDeviceByID device) (not_found_or 404 ''device not found'' ''failed to look up device'')
       (\<lambda>d. if dev_user d \<noteq> user then ret (respondError 403 ''device does not belong to authenticated user'') else k d)"

definition snapshot_json :: "lib \<Rightarrow> LayoutSnapshot \<Rightarrow> json" where
  "snapshot_json L s = JObj [(''id'', json_uuid L (ss_id s)), (''device_id'', json_uuid L (ss_device s)),
     (''captured_at'', json_time (ss_captured s)), (''windows'', ss_windows s), (''windows_hash'', JStr (ss_hash s)),
     (''tier'', JStr (ss_tier s)), (''created_at'', json_time (ss_created s))]"

definition layoutAtHandler :: "lib \<Rightarrow> handler" where
  "layoutAtHandler L ctx r =
     (case ctx_user ctx of None \<Rightarrow> ret no_user
      | Some user \<Rightarrow> (case UuidParse L (query_get r ''device_id'') of None \<Rightarrow> ret (respondError 400 ''invalid or missing device_id'')
      | Some i \<Rightarrow> with_layout_table (authorizeDeviceForUser i user (\<lambda>device.
          case time_Parse (query_get r ''t'') of None \<Rightarrow> ret (respondError 400 ''invalid or missing t (RFC3339)'')
          | Some t \<Rightarrow> try_db (GetSnapshotAt (dev_id device) t)
              (not_found_or 404 ''no snapshot at-or-before t'' ''failed to fetch snapshot'')
              (\<lambda>s. ret (respondJSON 200 (snapshot_json L s)))))))"

definition todayUTCMidnight :: "gotime \<Rightarrow> gotime" where
  "todayUTCMidnight t = t div (24 * hour) * (24 * hour)"

text \<open>An optional time of the query: its default where it is empty, or no time where it does not parse.\<close>

definition query_time :: "request \<Rightarrow> string \<Rightarrow> gotime \<Rightarrow> gotime option" where
  "query_time r k dflt = (if query_get r k = [] then Some dflt else time_Parse (query_get r k))"

definition layoutTimelineHandler :: "lib \<Rightarrow> clocks \<Rightarrow> handler" where
  "layoutTimelineHandler L C ctx r =
     (case ctx_user ctx of None \<Rightarrow> ret no_user
      | Some user \<Rightarrow> (case UuidParse L (query_get r ''device_id'') of None \<Rightarrow> ret (respondError 400 ''invalid or missing device_id'')
      | Some i \<Rightarrow> with_layout_table (authorizeDeviceForUser i user (\<lambda>device.
          case query_time r ''from'' (todayUTCMidnight (app_now C)) of None \<Rightarrow> ret (respondError 400 ''invalid from (RFC3339)'')
          | Some fr \<Rightarrow> (case query_time r ''to'' (app_now C) of None \<Rightarrow> ret (respondError 400 ''invalid to (RFC3339)'')
          | Some till \<Rightarrow> (case parsePagination r of (limit, offset) \<Rightarrow>
              try_db (ListTimestamps (dev_id device) fr till limit offset) (\<lambda>_. respondError 500 ''failed to list timeline'')
                (\<lambda>es. ret (respondJSON 200 (JArr (map (\<lambda>e. JObj [(''id'', json_uuid L (te_id e)),
                   (''captured_at'', json_time (te_captured e)), (''windows_count'', JNum (int (te_count e)))]) es)))))))) ))"

end
