(* ===== verification/Builder.thy ===== *)
theory Builder
  imports Go_Strings Trasker_Prelude
begin

text \<open>
  The client builder (\<^verbatim>\<open>internal/server/builder\<close>): generic binaries with 128-byte sentinels in place of
  the server URL, the API key and the version, and the patching of a cached binary at download. A
  binary is a list of bytes. The files of a directory and the Go toolchain are arguments.
\<close>

section \<open>Targets\<close>

record Target =
  TargetOS :: string
  TargetArch :: string

definition target_String :: "Target \<Rightarrow> string" where
  "target_String t = TargetOS t @ ''/'' @ TargetArch t"

definition BinaryName :: "Target \<Rightarrow> string" where
  "BinaryName t = ''trasker-client-'' @ TargetOS t @ ''-'' @ TargetArch t @
     (if TargetOS t = ''windows'' then ''.exe'' else [])"

definition SupportedTargets :: "Target list" where
  "SupportedTargets =
     [\<lparr>TargetOS = ''linux'', TargetArch = ''amd64''\<rparr>, \<lparr>TargetOS = ''linux'', TargetArch = ''arm64''\<rparr>,
      \<lparr>TargetOS = ''darwin'', TargetArch = ''amd64''\<rparr>, \<lparr>TargetOS = ''darwin'', TargetArch = ''arm64''\<rparr>,
      \<lparr>TargetOS = ''windows'', TargetArch = ''amd64''\<rparr>]"

definition ValidateTarget :: "string \<Rightarrow> string \<Rightarrow> Target option" where
  "ValidateTarget os arch = find (\<lambda>t. TargetOS t = os \<and> TargetArch t = arch) SupportedTargets"

section \<open>Sentinels\<close>

definition SentinelLen :: nat where "SentinelLen = 128"

definition SentinelServerURL :: string where
  "SentinelServerURL = ''TRASKER_SENTINEL_SERVER_URL_____'' @ replicate 48 (CHR ''_'') @ replicate 48 (CHR ''_'')"

definition SentinelAPIKey :: string where
  "SentinelAPIKey = ''TRASKER_SENTINEL_API_KEY________'' @ replicate 48 (CHR ''_'') @ replicate 48 (CHR ''_'')"

definition SentinelVersion :: string where
  "SentinelVersion = ''TRASKER_SENTINEL_VERSION________'' @ replicate 48 (CHR ''_'') @ replicate 48 (CHR ''_'')"

lemma sentinel_lengths [simp]:
  "length SentinelServerURL = SentinelLen" "length SentinelAPIKey = SentinelLen" "length SentinelVersion = SentinelLen"
  by (simp_all add: SentinelServerURL_def SentinelAPIKey_def SentinelVersion_def SentinelLen_def)

section \<open>The cache\<close>

type_synonym cache = "string \<rightharpoonup> string"

text \<open>One target of \<^verbatim>\<open>LoadFromDir\<close>; \<open>file\<close> answers the bytes of a file of the directory, if it can be read.\<close>

definition load_target :: "(string \<Rightarrow> string option) \<Rightarrow> Target \<Rightarrow> nat \<times> cache \<Rightarrow> nat \<times> cache" where
  "load_target file t = (\<lambda>(n, c).
     case file (BinaryName t) of
       None \<Rightarrow> (n, c)
     | Some data \<Rightarrow> if Contains data SentinelAPIKey then (n + 1, c(target_String t \<mapsto> data)) else (n, c))"

definition LoadFromDir :: "(string \<Rightarrow> string option) \<Rightarrow> cache \<Rightarrow> nat \<times> cache" where
  "LoadFromDir file c = fold (load_target file) SupportedTargets (0, c)"

text \<open>
  \<^verbatim>\<open>PreBuild\<close>: \<open>go\<close> answers what compiling a target yields, and \<open>fin\<close> whether the context is done before
  it. The first failure ends it with an error; the targets built before stay in the cache.
\<close>

fun prebuild :: "(Target \<Rightarrow> bool) \<Rightarrow> (Target \<Rightarrow> string option) \<Rightarrow> Target list \<Rightarrow> cache \<Rightarrow> bool \<times> cache" where
  "prebuild fin go [] c = (True, c)"
| "prebuild fin go (t # ts) c =
     (if fin t then (False, c)
      else case go t of
        None \<Rightarrow> (False, c)
      | Some data \<Rightarrow>
          if \<not> Contains data SentinelAPIKey then (False, c)
          else prebuild fin go ts (c(target_String t \<mapsto> data)))"

definition PreBuild :: "(Target \<Rightarrow> bool) \<Rightarrow> (Target \<Rightarrow> string option) \<Rightarrow> cache \<Rightarrow> bool \<times> cache" where
  "PreBuild fin go c = prebuild fin go SupportedTargets c"

definition IsCached :: "cache \<Rightarrow> Target \<Rightarrow> bool" where
  "IsCached c t = (c (target_String t) \<noteq> None)"

definition CacheStatus :: "cache \<Rightarrow> (string \<times> bool) list" where
  "CacheStatus c = map (\<lambda>t. (target_String t, c (target_String t) \<noteq> None)) SupportedTargets"

section \<open>Patching\<close>

definition padToLen :: "string \<Rightarrow> nat \<Rightarrow> string option" where
  "padToLen s n = (if n < length s then None else Some (s @ replicate (n - length s) (CHR 0x00)))"

text \<open>\<^verbatim>\<open>bytes.Replace\<close> with a count of one.\<close>

fun replace_first :: "string \<Rightarrow> string \<Rightarrow> string \<Rightarrow> string" where
  "replace_first old new [] = (if old = [] then new else [])"
| "replace_first old new (c # s) =
     (if HasPrefix (c # s) old then new @ drop (length old) (c # s) else c # replace_first old new s)"

record PatchRequest =
  PatchTarget :: Target
  PatchAPIKey :: string
  PatchServerURL :: string
  PatchVersion :: string

datatype patch_error = NotCached | ValueTooLong

definition Patch :: "cache \<Rightarrow> PatchRequest \<Rightarrow> patch_error + string" where
  "Patch c req =
     (case c (target_String (PatchTarget req)) of
        None \<Rightarrow> Inl NotCached
      | Some generic \<Rightarrow>
          (case (padToLen (PatchServerURL req) SentinelLen, padToLen (PatchAPIKey req) SentinelLen,
                 padToLen (PatchVersion req) SentinelLen) of
             (Some url, Some key, Some ver) \<Rightarrow>
               Inr (replace_first SentinelVersion ver
                     (replace_first SentinelAPIKey key
                       (replace_first SentinelServerURL url generic)))
           | _ \<Rightarrow> Inl ValueTooLong))"

text \<open>What the client makes of a patched value: \<^verbatim>\<open>strings.TrimRight(v, "\x00")\<close>.\<close>

definition trim_nul :: "string \<Rightarrow> string" where
  "trim_nul s = rev (dropWhile (\<lambda>c. c = CHR 0x00) (rev s))"

section \<open>Every byte but the three values stays\<close>

text \<open>\<open>occurs s i p\<close>: \<open>p\<close> stands at position \<open>i\<close> of \<open>s\<close>.\<close>

definition occurs :: "string \<Rightarrow> nat \<Rightarrow> string \<Rightarrow> bool" where
  "occurs s i p = (i + length p \<le> length s \<and> take (length p) (drop i s) = p)"

definition only_at :: "string \<Rightarrow> nat \<Rightarrow> string \<Rightarrow> bool" where
  "only_at s i p = (\<forall>j. occurs s j p \<longleftrightarrow> j = i)"

definition splice :: "string \<Rightarrow> nat \<Rightarrow> string \<Rightarrow> string" where
  "splice s i v = take i s @ v @ drop (i + length v) s"

lemma HasPrefix_take: "HasPrefix s p \<longleftrightarrow> length p \<le> length s \<and> take (length p) s = p"
  by (auto simp: HasPrefix_iff append_eq_conv_conj) (metis append_take_drop_id)

lemma replace_first_at:
  assumes "occurs s i p" and "\<And>j. j < i \<Longrightarrow> \<not> occurs s j p" and "p \<noteq> []" and "length v = length p"
  shows "replace_first p v s = splice s i v"
  using assms(1,2)
proof (induction s arbitrary: i)
  case Nil
  then show ?case using assms(3) by (simp add: occurs_def)
next
  case (Cons c s)
  show ?case
  proof (cases i)
    case 0
    then show ?thesis using Cons.prems(1) assms(4) by (simp add: occurs_def HasPrefix_take splice_def)
  next
    case (Suc k)
    have "\<not> occurs (c # s) 0 p" using Cons.prems(2) Suc by simp
    moreover have "occurs s k p" using Cons.prems(1) Suc by (simp add: occurs_def)
    moreover have "\<not> occurs s j p" if "j < k" for j
      using Cons.prems(2) [of "Suc j"] that Suc by (simp add: occurs_def)
    ultimately show ?thesis
      using Cons.IH [of k] Suc by (simp add: occurs_def HasPrefix_take splice_def)
  qed
qed

lemma length_replace_first: "length v = length p \<Longrightarrow> length (replace_first p v s) = length s"
proof (induction s)
  case (Cons c s)
  then show ?case by (auto simp: HasPrefix_take)
qed auto

lemma length_splice [simp]: "i + length v \<le> length s \<Longrightarrow> length (splice s i v) = length s"
  by (simp add: splice_def)

lemma nth_splice:
  "i + length v \<le> length s \<Longrightarrow> j < length s \<Longrightarrow>
   splice s i v ! j = (if i \<le> j \<and> j < i + length v then v ! (j - i) else s ! j)"
  by (auto simp: splice_def nth_append)

lemma occurs_nth:
  "occurs s i p \<longleftrightarrow> i + length p \<le> length s \<and> (\<forall>k < length p. s ! (i + k) = p ! k)"
  by (auto simp: occurs_def list_eq_iff_nth_eq)

lemma only_at_splice:
  assumes at: "only_at s i p" and apart: "i + length p \<le> r \<or> r + length p \<le> i" and len: "length v = length p"
    and fits: "r + length p \<le> length s" and ends: "hd v \<notin> set p" "last v \<notin> set p" and ne: "p \<noteq> []"
  shows "only_at (splice s r v) i p"
  unfolding only_at_def
proof
  fix j
  let ?n = "length p"
  have n: "0 < ?n" using ne by simp
  have v: "v ! 0 = hd v" "v ! (?n - 1) = last v"
    using len n by (metis hd_conv_nth length_greater_0_conv, metis last_conv_nth len length_greater_0_conv)
  have ls: "length (splice s r v) = length s" using fits len by simp
  have nth: "splice s r v ! k = (if r \<le> k \<and> k < r + ?n then v ! (k - r) else s ! k)" if "k < length s" for k
    using nth_splice [of r v s k] fits len that by simp
  show "occurs (splice s r v) j p \<longleftrightarrow> j = i"
  proof
    assume oc: "occurs (splice s r v) j p"
    then have le: "j + ?n \<le> length s" and eq: "\<And>k. k < ?n \<Longrightarrow> splice s r v ! (j + k) = p ! k"
      by (simp_all add: occurs_nth ls)
    have "\<not> (j \<le> r \<and> r < j + ?n)"
    proof
      assume b: "j \<le> r \<and> r < j + ?n"
      then have lt: "r - j < ?n" by linarith
      then have "splice s r v ! r = p ! (r - j)" using eq [of "r - j"] b by simp
      moreover have "splice s r v ! r = v ! 0" using nth [of r] fits n by simp
      ultimately show False using ends(1) v(1) lt by (metis nth_mem)
    qed
    moreover have "\<not> (r \<le> j \<and> j < r + ?n)"
    proof
      assume b: "r \<le> j \<and> j < r + ?n"
      define k where "k = r + (?n - 1) - j"
      have k: "k < ?n" "j + k = r + (?n - 1)" using b n unfolding k_def by linarith+
      then have "splice s r v ! (r + (?n - 1)) = p ! k" using eq [of k] by simp
      moreover have "splice s r v ! (r + (?n - 1)) = v ! (?n - 1)"
      proof -
        obtain m where m: "?n = Suc m" using n by (cases ?n) auto
        show ?thesis using nth [of "r + m"] fits by (simp add: m)
      qed
      ultimately show False using ends(2) v(2) k(1) by (metis nth_mem)
    qed
    ultimately have "\<And>k. k < ?n \<Longrightarrow> splice s r v ! (j + k) = s ! (j + k)"
      using nth le by auto
    then have "occurs s j p" using eq le by (simp add: occurs_nth)
    then show "j = i" using at by (simp add: only_at_def)
  next
    assume j: "j = i"
    have "occurs s i p" using at by (simp add: only_at_def)
    then have le: "i + ?n \<le> length s" and eq: "\<And>k. k < ?n \<Longrightarrow> s ! (i + k) = p ! k" by (simp_all add: occurs_nth)
    have "splice s r v ! (i + k) = p ! k" if "k < ?n" for k
      using nth [of "i + k"] eq [OF that] le apart that by auto
    then show "occurs (splice s r v) j p" using le by (simp add: occurs_nth ls j)
  qed
qed

lemma replace_only:
  assumes "only_at s i p" and "p \<noteq> []" and "length v = length p"
  shows "replace_first p v s = splice s i v"
  using assms by (intro replace_first_at) (auto simp: only_at_def)

text \<open>Where a text stands, computed.\<close>

fun positions :: "string \<Rightarrow> nat \<Rightarrow> string \<Rightarrow> nat list" where
  "positions p n [] = []"
| "positions p n (c # s) = (if HasPrefix (c # s) p then [n] else []) @ positions p (Suc n) s"

lemma positions_occurs: "p \<noteq> [] \<Longrightarrow> n + j \<in> set (positions p n s) \<longleftrightarrow> occurs s j p"
proof (induction s arbitrary: n j)
  case (Cons c s)
  have ge: "m \<le> x" if "x \<in> set (positions p m s)" for x m
    using that by (induction s arbitrary: m) (auto split: if_splits dest: Suc_leD)
  show ?case
  proof (cases j)
    case 0
    then show ?thesis using ge [of n "Suc n"] by (auto simp: occurs_def HasPrefix_take)
  next
    case (Suc k)
    then show ?thesis using Cons.IH [OF Cons.prems, of "Suc n" k] by (simp add: occurs_def)
  qed
qed (simp add: occurs_def)

lemma only_at_positions: "p \<noteq> [] \<Longrightarrow> positions p 0 s = [i] \<Longrightarrow> only_at s i p"
  using positions_occurs [of p 0 _ s] by (auto simp: only_at_def)

definition sentinel_char :: "char \<Rightarrow> bool" where
  "sentinel_char c = (CHR ''A'' \<le> c \<and> c \<le> CHR ''Z'' \<or> c = CHR ''_'')"

lemma sentinel_chars:
  "\<forall>c \<in> set SentinelServerURL. sentinel_char c" "\<forall>c \<in> set SentinelAPIKey. sentinel_char c"
  "\<forall>c \<in> set SentinelVersion. sentinel_char c"
  unfolding SentinelServerURL_def SentinelAPIKey_def SentinelVersion_def sentinel_char_def by code_simp+

text \<open>A value that fits: shorter than a sentinel, and not starting with a letter a sentinel could start with.\<close>

definition patchable :: "string \<Rightarrow> bool" where
  "patchable v = (length v < SentinelLen \<and> (case v of [] \<Rightarrow> True | c # _ \<Rightarrow> \<not> sentinel_char c \<and> c \<noteq> CHR 0x00) \<and>
     (v = [] \<or> last v \<noteq> CHR 0x00))"

lemma padded:
  assumes "patchable v"
  obtains w where "padToLen v SentinelLen = Some w" and "length w = SentinelLen"
    and "\<not> sentinel_char (hd w)" and "\<not> sentinel_char (last w)" and "trim_nul w = v"
proof
  define k where "k = SentinelLen - length v"
  have k: "0 < k" "length v + k = SentinelLen" using assms by (simp_all add: patchable_def k_def)
  let ?w = "v @ replicate k (CHR 0x00)"
  have nul: "\<not> sentinel_char (CHR 0x00)" by code_simp
  show "padToLen v SentinelLen = Some ?w" using assms by (simp add: padToLen_def patchable_def k_def)
  show "length ?w = SentinelLen" using k by simp
  show "\<not> sentinel_char (hd ?w)" using assms nul k by (cases v) (simp_all add: patchable_def hd_append)
  show "\<not> sentinel_char (last ?w)" using nul k by simp
  have "dropWhile (\<lambda>c. c = CHR 0x00) (replicate k (CHR 0x00) @ rev v) = rev v"
  proof -
    have "dropWhile (\<lambda>c. c = CHR 0x00) (rev v) = rev v"
      using assms by (cases "rev v") (auto simp: patchable_def)
    then show ?thesis by (induction k) auto
  qed
  then show "trim_nul ?w = v" by (simp add: trim_nul_def)
qed

text \<open>
  C18: A generic binary with each sentinel at one place, the places apart from each other, is patched to
  the binary with the three padded values at these places and every other byte as it was; so its
  length is the same, and the client reads back exactly the URL, the key and the version.
\<close>

theorem patched_binary:
  assumes "c (target_String (PatchTarget req)) = Some g"
    and "only_at g iu SentinelServerURL" "only_at g ik SentinelAPIKey" "only_at g iv SentinelVersion"
    and "iu + 128 \<le> ik \<or> ik + 128 \<le> iu" "iu + 128 \<le> iv \<or> iv + 128 \<le> iu" "ik + 128 \<le> iv \<or> iv + 128 \<le> ik"
    and "patchable (PatchServerURL req)" "patchable (PatchAPIKey req)" "patchable (PatchVersion req)"
  shows "\<exists>u k v. Patch c req = Inr (splice (splice (splice g iu u) ik k) iv v) \<and>
           length u = 128 \<and> length k = 128 \<and> length v = 128 \<and>
           trim_nul u = PatchServerURL req \<and> trim_nul k = PatchAPIKey req \<and> trim_nul v = PatchVersion req"
proof -
  obtain u where u: "padToLen (PatchServerURL req) SentinelLen = Some u" "length u = SentinelLen"
    "\<not> sentinel_char (hd u)" "\<not> sentinel_char (last u)" "trim_nul u = PatchServerURL req"
    using padded [OF assms(8)] by blast
  obtain k where k: "padToLen (PatchAPIKey req) SentinelLen = Some k" "length k = SentinelLen"
    "\<not> sentinel_char (hd k)" "\<not> sentinel_char (last k)" "trim_nul k = PatchAPIKey req"
    using padded [OF assms(9)] by blast
  obtain v where v: "padToLen (PatchVersion req) SentinelLen = Some v" "length v = SentinelLen"
    "trim_nul v = PatchVersion req"
    using padded [OF assms(10)] by blast
  have ne: "SentinelServerURL \<noteq> []" "SentinelAPIKey \<noteq> []" "SentinelVersion \<noteq> []"
    using sentinel_lengths by (metis SentinelLen_def list.size(3) zero_neq_numeral)+
  have L: "SentinelLen = 128" by (simp add: SentinelLen_def)
  have fit: "iu + 128 \<le> length g" "ik + 128 \<le> length g" "iv + 128 \<le> length g"
    using assms(2-4) by (auto simp: only_at_def occurs_def L)
  let ?g1 = "splice g iu u" and ?g2 = "splice (splice g iu u) ik k"
  have r1: "replace_first SentinelServerURL u g = ?g1"
    using assms(2) ne(1) u(2) by (intro replace_only) simp_all
  have at1: "only_at ?g1 ik SentinelAPIKey" "only_at ?g1 iv SentinelVersion"
    using assms(3-6) fit u ne sentinel_chars by (auto intro!: only_at_splice simp: L)
  have r2: "replace_first SentinelAPIKey k ?g1 = ?g2"
    using at1(1) ne(2) k(2) by (intro replace_only) simp_all
  have "only_at ?g2 iv SentinelVersion"
    using at1(2) assms(7) fit k u(2) ne sentinel_chars by (auto intro!: only_at_splice simp: L)
  then have "replace_first SentinelVersion v ?g2 = splice ?g2 iv v"
    using ne(3) v(2) by (intro replace_only) simp_all
  then have "Patch c req = Inr (splice ?g2 iv v)"
    using assms(1) u(1) k(1) v(1) r1 r2 by (simp add: Patch_def)
  then show ?thesis using u k v L by auto
qed


lemma patched_binary_witness:
  "\<exists>u k v. Patch [''linux/amd64'' \<mapsto> SentinelServerURL @ SentinelAPIKey @ SentinelVersion]
      \<lparr>PatchTarget = \<lparr>TargetOS = ''linux'', TargetArch = ''amd64''\<rparr>, PatchAPIKey = ''tsk_1'',
        PatchServerURL = ''https://t'', PatchVersion = ''dev''\<rparr> =
      Inr (splice (splice (splice (SentinelServerURL @ SentinelAPIKey @ SentinelVersion) 0 u) 128 k) 256 v) \<and>
     length u = 128 \<and> length k = 128 \<and> length v = 128 \<and>
     trim_nul u = ''https://t'' \<and> trim_nul k = ''tsk_1'' \<and> trim_nul v = ''dev''"
proof -
  let ?g = "SentinelServerURL @ SentinelAPIKey @ SentinelVersion"
  have ne: "SentinelServerURL \<noteq> []" "SentinelAPIKey \<noteq> []" "SentinelVersion \<noteq> []"
    by (simp_all add: SentinelServerURL_def SentinelAPIKey_def SentinelVersion_def)
  have "positions SentinelServerURL 0 ?g = [0]" by code_simp
  then have u: "only_at ?g 0 SentinelServerURL" by (rule only_at_positions [OF ne(1)])
  have "positions SentinelAPIKey 0 ?g = [128]" by code_simp
  then have k: "only_at ?g 128 SentinelAPIKey" by (rule only_at_positions [OF ne(2)])
  have "positions SentinelVersion 0 ?g = [256]" by code_simp
  then have v: "only_at ?g 256 SentinelVersion" by (rule only_at_positions [OF ne(3)])
  have p: "patchable ''https://t''" "patchable ''tsk_1''" "patchable ''dev''" by code_simp+
  show ?thesis
    using patched_binary [of "[''linux/amd64'' \<mapsto> ?g]" "\<lparr>PatchTarget = \<lparr>TargetOS = ''linux'', TargetArch = ''amd64''\<rparr>,
        PatchAPIKey = ''tsk_1'', PatchServerURL = ''https://t'', PatchVersion = ''dev''\<rparr>" ?g 0 128 256] u k v p
    by (simp add: target_String_def)
qed

text \<open>Without any assumption on the binary or the values: a patched binary has the length of the cached one.\<close>

theorem patch_keeps_length:
  assumes "Patch c req = Inr out"
  shows "\<exists>g. c (target_String (PatchTarget req)) = Some g \<and> length out = length g"
proof -
  obtain g u k v where g: "c (target_String (PatchTarget req)) = Some g"
    and p: "padToLen (PatchServerURL req) SentinelLen = Some u" "padToLen (PatchAPIKey req) SentinelLen = Some k"
      "padToLen (PatchVersion req) SentinelLen = Some v"
    and out: "out = replace_first SentinelVersion v (replace_first SentinelAPIKey k (replace_first SentinelServerURL u g))"
    using assms by (auto simp: Patch_def split: option.splits)
  have "length u = SentinelLen" "length k = SentinelLen" "length v = SentinelLen"
    using p by (auto simp: padToLen_def split: if_splits)
  then show ?thesis using g out by (simp add: length_replace_first)
qed

lemma patch_keeps_length_witness:
  "\<exists>out. Patch [''linux/amd64'' \<mapsto> ''program''] \<lparr>PatchTarget = \<lparr>TargetOS = ''linux'', TargetArch = ''amd64''\<rparr>,
      PatchAPIKey = ''tsk_1'', PatchServerURL = ''https://t'', PatchVersion = ''dev''\<rparr> = Inr out \<and> length out = 7"
proof -
  obtain out where run: "Patch [''linux/amd64'' \<mapsto> ''program''] \<lparr>PatchTarget = \<lparr>TargetOS = ''linux'', TargetArch = ''amd64''\<rparr>,
      PatchAPIKey = ''tsk_1'', PatchServerURL = ''https://t'', PatchVersion = ''dev''\<rparr> = Inr out"
    by (simp add: Patch_def padToLen_def target_String_def SentinelLen_def)
  show ?thesis using patch_keeps_length [OF run] run by (auto simp: target_String_def)
qed

end
