(* ===== verification/Server_Dashboard.thy ===== *)
theory Server_Dashboard
  imports Server_Client_Api Builder
begin

text \<open>
  The handlers behind the dashboard (\<^verbatim>\<open>internal/server/api/{auth,local_auth,user,admin,report,build}_handlers.go\<close>,
  \<^verbatim>\<open>health.go\<close>) and the OIDC configuration of \<^verbatim>\<open>router.go\<close>.
\<close>

text \<open>The dependencies that do not change while the server runs, with the environment variables they read.\<close>

record deps =
  JWT :: JWTIssuer
  ClientBuilder :: "cache option"
  FQDN :: string
  ServerVersion :: string
  EnvRedirect :: string
  EnvFQDN :: string

text \<open>Reading and writing the cached OIDC configuration, which is in memory.\<close>

definition read_oidc :: "OIDCParams option srv" where
  "read_oidc s = (Inr (oidc_cache (tables s)), s)"

definition write_oidc :: "OIDCParams option \<Rightarrow> unit srv" where
  "write_oidc p s = (Inr (), s\<lparr>tables := (tables s)\<lparr>oidc_cache := p\<rparr>\<rparr>)"

lemma keeps_oidc [keeps_rules]: "keeps srv_inv read_oidc" "keeps srv_inv (write_oidc p)"
  by (simp_all add: keeps_def read_oidc_def write_oidc_def srv_inv_defs)

lemma wp_oidc [wp_rules]:
  "wp read_oidc Q E s = Q (oidc_cache (tables s)) s"
  "wp (write_oidc p) R E s = R () (s\<lparr>tables := (tables s)\<lparr>oidc_cache := p\<rparr>\<rparr>)"
  by (simp_all add: wp_def read_oidc_def write_oidc_def)

section \<open>Sessions\<close>

definition entraRedirectURL :: "deps \<Rightarrow> string" where
  "entraRedirectURL D =
     (if EnvRedirect D \<noteq> [] then EnvRedirect D
      else if EnvFQDN D \<noteq> [] then ''https://'' @ EnvFQDN D @ ''/auth/callback''
      else ''http://localhost:5173/auth/callback'')"

text \<open>\<open>None\<close> is an error; a configuration that was made is cached.\<close>

definition initOIDCFromSettings :: "lib \<Rightarrow> deps \<Rightarrow> OIDCParams option srv" where
  "initOIDCFromSettings L D =
     bindM (attempt GetOrgSettings) (\<lambda>r. case r of
         Inl _ \<Rightarrow> ret None
       | Inr o1 \<Rightarrow>
           if EntraTenant o1 = [] \<or> EntraClient o1 = [] \<or> EntraSecret o1 = [] then ret None
           else case NewOIDCConfig \<lparr>TenantID = EntraTenant o1, ClientID = EntraClient o1,
               ClientSecret = EntraSecret o1, RedirectURL = entraRedirectURL D\<rparr> of
             None \<Rightarrow> ret None
           | Some p \<Rightarrow> if OidcInit L p then bindM (write_oidc (Some p)) (\<lambda>_. ret (Some p)) else ret None)"

definition user_json :: "lib \<Rightarrow> User \<Rightarrow> (string \<times> json) list" where
  "user_json L u = [(''id'', json_uuid L (usr_id u)), (''email'', JStr (usr_email u)),
     (''display_name'', JStr (usr_name u)), (''role'', JStr (usr_role u))]"

definition tokens_json :: "clocks \<Rightarrow> string \<Rightarrow> json" where
  "tokens_json C token = JObj [(''access_token'', JStr token), (''refresh_token'', JStr token),
     (''expires_at'', JNum (rfc3339 (app_now C + 15 * minute)))]"

definition session_reply :: "lib \<Rightarrow> deps \<Rightarrow> clocks \<Rightarrow> User \<Rightarrow> (string \<times> json) list \<Rightarrow> reply" where
  "session_reply L D C u extra =
     (case Issue L (JWT D) (app_now C) (usr_id u) (usr_email u) (usr_role u) of
        None \<Rightarrow> respondError 500 ''failed to issue token''
      | Some token \<Rightarrow> respondJSON 200 (JObj [(''tokens'', tokens_json C token), (''user'', JObj (user_json L u @ extra))]))"

definition code_shape :: shape where "code_shape = SStruct [(''code'', SString)]"

text \<open>The user of an identity: found by its object id, or created with the claims.\<close>

definition find_or_create :: "clocks \<Rightarrow> UserInfo \<Rightarrow> (User \<Rightarrow> reply) \<Rightarrow> reply srv" where
  "find_or_create C ui k =
     bindM (attempt (GetUserByEntraOID (ui_oid ui))) (\<lambda>r. case r of
         Inr u \<Rightarrow> ret (k u)
       | Inl e \<Rightarrow>
           if is_not_found e
           then try_db (CreateUser (db_now C) (ui_oid ui) (ui_email ui) (ui_name ui))
                  (\<lambda>_. respondError 500 ''failed to create user'') (\<lambda>u. ret (k u))
           else ret (respondError 500 ''internal error''))"

definition authLoginHandler :: "lib \<Rightarrow> deps \<Rightarrow> clocks \<Rightarrow> handler" where
  "authLoginHandler L D C ctx r =
     bindM read_oidc (\<lambda>cached.
     bindM (case cached of Some p \<Rightarrow> ret (Some p) | None \<Rightarrow> initOIDCFromSettings L D) (\<lambda>cfg.
     case cfg of
       None \<Rightarrow> ret (respondError 503 ''OIDC not configured'')
     | Some p \<Rightarrow>
         if \<not> decode_ok code_shape (rq_body r) then ret bad_body
         else let code = string_field ''code'' (rq_body r) in
           if code = [] then ret (respondError 400 ''authorization code is required'')
           else (case OidcExchange L p code of
             None \<Rightarrow> ret (respondError 401 ''failed to exchange authorization code'')
           | Some None \<Rightarrow> ret (respondError 500 ''no id_token in response'')
           | Some (Some idt) \<Rightarrow>
               (case OidcVerify L p idt of
                  None \<Rightarrow> ret (respondError 401 ''failed to verify ID token'')
                | Some (Some (JObj claims)) \<Rightarrow>
                    (case ExtractUserInfo claims of
                       None \<Rightarrow> ret (respondError 500 ''failed to extract user info'')
                     | Some ui \<Rightarrow> find_or_create C ui (\<lambda>u. session_reply L D C u []))
                | Some _ \<Rightarrow> ret (respondError 500 ''failed to extract claims'')))))"

definition authRefreshHandler :: "lib \<Rightarrow> deps \<Rightarrow> clocks \<Rightarrow> handler" where
  "authRefreshHandler L D C ctx r =
     (case ctx_user ctx of None \<Rightarrow> ret no_user
      | Some i \<Rightarrow> try_db (GetUserByID i) (\<lambda>_. respondError 500 ''failed to look up user'')
          (\<lambda>u. ret (case Issue L (JWT D) (app_now C) i (usr_email u) (usr_role u) of
              None \<Rightarrow> respondError 500 ''failed to issue token''
            | Some token \<Rightarrow> respondJSON 200 (tokens_json C token))))"

definition authConfigHandler :: handler where
  "authConfigHandler ctx r =
     bindM read_oidc (\<lambda>cached.
     bindM (if cached \<noteq> None then ret True
            else bindM (attempt GetOrgSettings) (\<lambda>x. ret (case x of Inl _ \<Rightarrow> False
                 | Inr o1 \<Rightarrow> EntraTenant o1 \<noteq> [] \<and> EntraClient o1 \<noteq> []))) (\<lambda>enabled.
     ret (respondJSON 200 (JObj [(''oidc_enabled'', JBool enabled), (''local_enabled'', JBool True)]))))"

definition login_shape :: shape where "login_shape = SStruct [(''email'', SString), (''password'', SString)]"

definition bad_login :: reply where "bad_login = respondError 401 ''invalid email or password''"

definition localLoginHandler :: "lib \<Rightarrow> deps \<Rightarrow> clocks \<Rightarrow> handler" where
  "localLoginHandler L D C ctx r =
     (if \<not> decode_ok login_shape (rq_body r) then ret bad_body
      else let email = string_field ''email'' (rq_body r); password = string_field ''password'' (rq_body r) in
        if email = [] \<or> password = [] then ret (respondError 400 ''email and password are required'')
        else try_db (GetUserByEmail email) (not_found_or 401 ''invalid email or password'' ''internal error'') (\<lambda>u.
          case usr_hash u of None \<Rightarrow> ret bad_login
          | Some hash \<Rightarrow>
              if \<not> BcryptMatches L hash password then ret bad_login
              else ret (session_reply L D C u [(''force_password_change'', JBool (usr_force u))])))"

definition password_shape :: shape where
  "password_shape = SStruct [(''current_password'', SString), (''new_password'', SString)]"

definition changePasswordHandler :: "lib \<Rightarrow> clocks \<Rightarrow> handler" where
  "changePasswordHandler L C ctx r =
     (case ctx_user ctx of None \<Rightarrow> ret no_user
      | Some i \<Rightarrow>
          if \<not> decode_ok password_shape (rq_body r) then ret bad_body
          else if length (string_field ''new_password'' (rq_body r)) < 8
          then ret (respondError 400 ''new password must be at least 8 characters'')
          else try_db (GetUserByID i) (\<lambda>_. respondError 500 ''internal error'') (\<lambda>u.
            case usr_hash u of None \<Rightarrow> ret (respondError 400 ''account does not use password authentication'')
            | Some hash \<Rightarrow>
                if \<not> BcryptMatches L hash (string_field ''current_password'' (rq_body r))
                then ret (respondError 401 ''current password is incorrect'')
                else (case BcryptGenerate L (string_field ''new_password'' (rq_body r)) of
                    None \<Rightarrow> ret (respondError 500 ''internal error'')
                  | Some h \<Rightarrow> try_db (UpdateUserPassword (db_now C) i h) (\<lambda>_. respondError 500 ''failed to update password'')
                      (\<lambda>v. ret (respondJSON 200 (JObj [(''status'', JStr ''password changed''),
                         (''user'', JObj (user_json L v @ [(''force_password_change'', JBool (usr_force v))]))]))))))"

section \<open>Users\<close>

definition userListHandler :: "lib \<Rightarrow> handler" where
  "userListHandler L ctx r =
     (case parsePagination r of (limit, offset) \<Rightarrow>
        try_db (ListUsers limit offset) (\<lambda>_. respondError 500 ''failed to list users'')
          (\<lambda>us. ret (respondJSON 200 (JArr (map (\<lambda>u. JObj (user_json L u @ [(''created_at'', json_time (usr_created u))])) us)))))"

definition role_shape :: shape where "role_shape = SStruct [(''role'', SString)]"

definition userUpdateRoleHandler :: "lib \<Rightarrow> clocks \<Rightarrow> handler" where
  "userUpdateRoleHandler L C ctx r =
     (case UuidParse L (rq_id r) of None \<Rightarrow> ret (respondError 400 ''invalid user ID'')
      | Some i \<Rightarrow>
          if \<not> decode_ok role_shape (rq_body r) then ret bad_body
          else if \<not> valid_role (string_field ''role'' (rq_body r))
          then ret (respondError 400 ''role must be one of: member, manager, admin'')
          else try_db (UpdateUserRole (db_now C) i (string_field ''role'' (rq_body r)))
            (not_found_or 404 ''user not found'' ''failed to update user role'')
            (\<lambda>u. ret (respondJSON 200 (JObj (user_json L u)))))"

section \<open>Administration\<close>

definition entry_json :: "lib \<Rightarrow> entry_row \<Rightarrow> json" where
  "entry_json L e = JObj [(''ID'', json_uuid L (en_id e)), (''TimesheetID'', json_uuid L (en_timesheet e)),
     (''Tag'', JStr (en_tag e)), (''StartedAt'', json_time (en_started e)), (''EndedAt'', json_time (en_ended e)),
     (''DurationS'', JNum (en_duration e)), (''Notes'', json_opt JStr (en_notes e)),
     (''AppSummary'', json_opt JStr (en_summary e))]"

text \<open>An entry of the audit log; an error is only logged.\<close>

definition audit :: "clocks \<Rightarrow> uuid \<Rightarrow> string \<Rightarrow> string \<Rightarrow> uuid \<Rightarrow> body \<Rightarrow> body \<Rightarrow> unit srv" where
  "audit C admin action type target old new =
     logged (CreateAuditLog (db_now C) \<lparr>AuditAdmin = admin, AuditAction = action, AuditTarget = type,
       AuditTargetID = target, AuditOld = old, AuditNew = new\<rparr>)"

definition adminDeleteEntryHandler :: "lib \<Rightarrow> clocks \<Rightarrow> handler" where
  "adminDeleteEntryHandler L C ctx r =
     (case UuidParse L (rq_id r) of None \<Rightarrow> ret (respondError 400 ''invalid entry ID'')
      | Some i \<Rightarrow> (case ctx_user ctx of None \<Rightarrow> ret (respondError 500 ''internal error'')
      | Some admin \<Rightarrow>
          try_db (GetTimesheetEntryByID i) (not_found_or 404 ''entry not found'' ''failed to look up entry'') (\<lambda>e.
          try_db (DeleteTimesheetEntry i) (\<lambda>_. respondError 500 ''failed to delete entry'') (\<lambda>_.
          bindM (audit C admin ''entry.delete'' ''timesheet_entry'' i (Some (entry_json L e)) None) (\<lambda>_.
          ret (respondJSON 200 (JObj [(''status'', JStr ''deleted'')])))))))"

definition edit_shape :: shape where
  "edit_shape = SStruct [(''tag'', SString), (''duration_s'', SInt), (''notes'', SString)]"

definition adminEditEntryHandler :: "lib \<Rightarrow> clocks \<Rightarrow> handler" where
  "adminEditEntryHandler L C ctx r =
     (case UuidParse L (rq_id r) of None \<Rightarrow> ret (respondError 400 ''invalid entry ID'')
      | Some i \<Rightarrow> (case ctx_user ctx of None \<Rightarrow> ret (respondError 500 ''internal error'')
      | Some admin \<Rightarrow>
          try_db (GetTimesheetEntryByID i) (not_found_or 404 ''entry not found'' ''failed to look up entry'') (\<lambda>old.
          if \<not> decode_ok edit_shape (rq_body r) then ret bad_body
          else try_db (UpdateTimesheetEntry i \<lparr>up_tag = string_ptr ''tag'' (rq_body r), up_started = None, up_ended = None,
                   up_duration = num_ptr ''duration_s'' (rq_body r), up_notes = string_ptr ''notes'' (rq_body r)\<rparr>)
                 (\<lambda>_. respondError 500 ''failed to update entry'') (\<lambda>e.
          bindM (audit C admin ''entry.update'' ''timesheet_entry'' i (Some (entry_json L old)) (Some (entry_json L e))) (\<lambda>_.
          ret (respondJSON 200 (JObj [(''id'', json_uuid L (en_id e)), (''tag'', JStr (en_tag e)),
             (''started_at'', json_time (en_started e)), (''ended_at'', json_time (en_ended e)),
             (''duration_s'', JNum (en_duration e)), (''notes'', json_opt JStr (en_notes e))])))))))"

definition adminRevokeKeyHandler :: "lib \<Rightarrow> clocks \<Rightarrow> handler" where
  "adminRevokeKeyHandler L C ctx r =
     (case UuidParse L (rq_id r) of None \<Rightarrow> ret (respondError 400 ''invalid key ID'')
      | Some i \<Rightarrow> (case ctx_user ctx of None \<Rightarrow> ret (respondError 500 ''internal error'')
      | Some admin \<Rightarrow>
          try_db (RevokeAPIKey (db_now C) i) (not_found_or 404 ''API key not found'' ''failed to revoke API key'') (\<lambda>_.
          bindM (audit C admin ''key.revoke'' ''api_key'' i None None) (\<lambda>_.
          ret (respondJSON 200 (JObj [(''status'', JStr ''revoked'')]))))))"

definition audit_json :: "lib \<Rightarrow> AuditLogEntry \<Rightarrow> json" where
  "audit_json L e = JObj [(''id'', json_uuid L (au_id e)), (''admin_id'', json_uuid L (au_admin e)),
     (''action'', JStr (au_action e)), (''target_type'', JStr (au_type e)), (''target_id'', json_uuid L (au_target e)),
     (''old_value'', json_opt (\<lambda>v. v) (au_old e)), (''new_value'', json_opt (\<lambda>v. v) (au_new e)),
     (''created_at'', json_time (au_created e))]"

definition adminAuditLogHandler :: "lib \<Rightarrow> handler" where
  "adminAuditLogHandler L ctx r =
     (case parsePagination r of (limit, offset) \<Rightarrow>
        try_db (ListAuditLogs \<lparr>af_admin = None, af_action = text_opt (query_get r ''action''),
            af_type = text_opt (query_get r ''target_type''), af_target = None, af_limit = limit, af_offset = offset\<rparr>)
          (\<lambda>_. respondError 500 ''failed to list audit logs'')
          (\<lambda>es. ret (respondJSON 200 (JArr (map (audit_json L) es)))))"

definition key_json :: "lib \<Rightarrow> APIKey \<Rightarrow> json" where
  "key_json L k = JObj [(''id'', json_uuid L (key_id k)), (''user_id'', json_uuid L (key_user k)),
     (''key_prefix'', JStr (key_prefix k)), (''last_used_at'', json_time (key_last_used k)),
     (''expires_at'', json_time (key_expires k)), (''revoked'', JBool (key_revoked k)),
     (''created_at'', json_time (key_created k)), (''revoked_at'', json_opt json_time (key_revoked_at k))]"

definition adminListKeysHandler :: "lib \<Rightarrow> handler" where
  "adminListKeysHandler L ctx r =
     (if query_get r ''user_id'' = [] then ret (respondError 400 ''user_id query parameter required'')
      else case UuidParse L (query_get r ''user_id'') of None \<Rightarrow> ret (respondError 400 ''invalid user_id'')
      | Some u \<Rightarrow> try_db (ListAPIKeysByUser u) (\<lambda>_. respondError 500 ''failed to list API keys'')
          (\<lambda>ks. ret (respondJSON 200 (JArr (map (key_json L) ks)))))"

definition masked :: string where "masked = ''********''"

definition settings_json :: "OrgSettings \<Rightarrow> json" where
  "settings_json o1 = JObj [(''org_name'', JStr (OrgName o1)), (''entra_tenant'', JStr (EntraTenant o1)),
     (''entra_client'', JStr (EntraClient o1)), (''entra_secret'', JStr (if EntraSecret o1 = [] then [] else masked)),
     (''key_expiry_days'', JNum (KeyExpiryDays o1)), (''updated_at'', json_time (SettingsUpdated o1))]"

definition adminGetSettingsHandler :: handler where
  "adminGetSettingsHandler ctx r =
     try_db GetOrgSettings (not_found_or 404 ''org settings not configured'' ''failed to get settings'')
       (\<lambda>o1. ret (respondJSON 200 (settings_json o1)))"

definition settings_shape :: shape where
  "settings_shape = SStruct [(''org_name'', SString), (''entra_tenant'', SString), (''entra_client'', SString),
     (''entra_secret'', SString), (''key_expiry_days'', SInt)]"

definition settings_params :: "body \<Rightarrow> UpdateOrgSettingsParams" where
  "settings_params b = \<lparr>op_name = string_ptr ''org_name'' b, op_tenant = string_ptr ''entra_tenant'' b,
     op_client = string_ptr ''entra_client'' b,
     op_secret = (if string_ptr ''entra_secret'' b = Some masked then None else string_ptr ''entra_secret'' b),
     op_days = num_ptr ''key_expiry_days'' b\<rparr>"

definition adminUpdateSettingsHandler :: "clocks \<Rightarrow> handler" where
  "adminUpdateSettingsHandler C ctx r =
     (if \<not> decode_ok settings_shape (rq_body r) then ret bad_body
      else let p = settings_params (rq_body r) in
        try_db (UpsertOrgSettings (db_now C) p) (\<lambda>_. respondError 500 ''failed to update settings'') (\<lambda>o1.
        bindM (if op_tenant p \<noteq> None \<or> op_client p \<noteq> None \<or> op_secret p \<noteq> None then write_oidc None else ret ()) (\<lambda>_.
        ret (respondJSON 200 (settings_json o1)))))"

section \<open>Reports\<close>

definition opt_query :: "request \<Rightarrow> string \<Rightarrow> (string \<Rightarrow> 'a option) \<Rightarrow> 'a option option" where
  "opt_query r k parse = (if query_get r k = [] then Some None else map_option Some (parse (query_get r k)))"

definition parseReportFilters :: "lib \<Rightarrow> request \<Rightarrow> string + ReportFilters" where
  "parseReportFilters L r =
     (case opt_query r ''user_id'' (UuidParse L) of None \<Rightarrow> Inl ''invalid user_id: must be a valid UUID''
      | Some user \<Rightarrow> (case opt_query r ''from'' time_Parse of None \<Rightarrow> Inl ''invalid from: must be RFC3339 format''
      | Some fr \<Rightarrow> (case opt_query r ''to'' time_Parse of None \<Rightarrow> Inl ''invalid to: must be RFC3339 format''
      | Some till \<Rightarrow> Inr \<lparr>rf_user = user, rf_from = fr, rf_to = till\<rparr>)))"

definition reportSummaryHandler :: "lib \<Rightarrow> handler" where
  "reportSummaryHandler L ctx r =
     (case parseReportFilters L r of Inl m \<Rightarrow> ret (respondError 400 m)
      | Inr f \<Rightarrow> try_db (GetReportSummary f) (\<lambda>_. respondError 500 ''failed to generate summary'')
          (\<lambda>rows. ret (respondJSON 200 (JArr (map (\<lambda>x. JObj [(''tag'', JStr (rs_tag x)),
             (''total_duration_s'', JNum (rs_total x)), (''entry_count'', JNum (int (rs_count x))),
             (''total_hours'', JStr (Hours L (rs_total x)))]) rows)))))"

definition csv_header :: "string list" where
  "csv_header = [''Email'', ''Name'', ''Tag'', ''Started'', ''Ended'', ''Duration (s)'', ''Duration (h)'', ''Notes'',
     ''App Summary'', ''Submitted'']"

definition csv_row :: "lib \<Rightarrow> ReportExportRow \<Rightarrow> string list" where
  "csv_row L x = [rx_email x, rx_name x, rx_tag x, format_rfc3339 (rx_started x), format_rfc3339 (rx_ended x),
     show_int (rx_duration x), Hours L (rx_duration x), (case rx_notes x of None \<Rightarrow> [] | Some n \<Rightarrow> n),
     (case rx_summary x of None \<Rightarrow> [] | Some n \<Rightarrow> n), format_rfc3339 (rx_submitted x)]"

definition reportExportHandler :: "lib \<Rightarrow> handler" where
  "reportExportHandler L ctx r =
     (case parseReportFilters L r of Inl m \<Rightarrow> ret (respondError 400 m)
      | Inr f \<Rightarrow> try_db (GetReportExport f) (\<lambda>_. respondError 500 ''failed to generate export'')
          (\<lambda>rows. ret (200, Csv (csv_header # map (csv_row L) rows))))"

section \<open>Client downloads and health\<close>

text \<open>\<^verbatim>\<open>time.Duration(expiryDays) * 24 * time.Hour\<close>, in 64 bits.\<close>

definition key_lifetime :: "int \<Rightarrow> gotime" where
  "key_lifetime days = wrap64 (wrap64 (days * 24) * hour)"

definition expiry_days :: "err + OrgSettings \<Rightarrow> int" where
  "expiry_days r = (case r of Inr o1 \<Rightarrow> if 0 < KeyExpiryDays o1 then KeyExpiryDays o1 else 90 | Inl _ \<Rightarrow> 90)"

definition server_url :: "deps \<Rightarrow> request \<Rightarrow> string" where
  "server_url D r =
     (if FQDN D \<noteq> [] then ''https://'' @ FQDN D
      else (if rq_tls r then ''https'' else if rq_proto r \<noteq> [] then rq_proto r else ''http'') @ ''://'' @ rq_host r)"

definition target_shape :: shape where
  "target_shape = SStruct [(''target_os'', SString), (''target_arch'', SString)]"

definition buildDownloadHandler :: "lib \<Rightarrow> deps \<Rightarrow> clocks \<Rightarrow> handler" where
  "buildDownloadHandler L D C ctx r =
     (case ClientBuilder D of None \<Rightarrow> ret (respondError 503 ''build service not available (Go toolchain not installed on server)'')
      | Some c \<Rightarrow> (case ctx_user ctx of None \<Rightarrow> ret (respondError 500 ''internal error'')
      | Some user \<Rightarrow>
          if \<not> decode_ok target_shape (rq_body r) then ret bad_body
          else (case ValidateTarget (string_field ''target_os'' (rq_body r)) (string_field ''target_arch'' (rq_body r)) of
            None \<Rightarrow> ret (respondError 400 ''unsupported target'')
          | Some target \<Rightarrow>
              if \<not> IsCached c target then ret (respondError 503 ''client binaries are still being built'')
              else (case Generate L (random C) of
                None \<Rightarrow> ret (respondError 500 ''failed to generate API key'')
              | Some (plainKey, hash, pfx) \<Rightarrow>
                  bindM (attempt GetOrgSettings) (\<lambda>o1.
                  try_db (CreateAPIKey (db_now C) user hash pfx (app_now C + key_lifetime (expiry_days o1)))
                    (\<lambda>_. respondError 500 ''failed to create API key'') (\<lambda>_.
                  case Patch c \<lparr>PatchTarget = target, PatchAPIKey = plainKey, PatchServerURL = server_url D r,
                      PatchVersion = ServerVersion D\<rparr> of
                    Inl _ \<Rightarrow> ret (respondError 500 ''patch failed'')
                  | Inr out \<Rightarrow> ret (200, Binary out)))))))"

definition buildStatusHandler :: "deps \<Rightarrow> handler" where
  "buildStatusHandler D ctx r =
     ret (case ClientBuilder D of
        None \<Rightarrow> respondJSON 200 (JObj [(''available'', JBool False),
          (''reason'', JStr ''Go toolchain not installed on server''), (''targets'', JArr [])])
      | Some c \<Rightarrow> respondJSON 200 (JObj [(''available'', JBool (\<forall>t \<in> set SupportedTargets. IsCached c t)),
          (''targets'', JArr (map (\<lambda>t. JObj [(''os'', JStr (TargetOS t)), (''arch'', JStr (TargetArch t)),
             (''name'', JStr (BinaryName t)), (''cached'', JBool (IsCached c t))]) SupportedTargets))]))"

text \<open>A ping of the database is a statement that reads nothing.\<close>

definition healthHandler :: "deps \<Rightarrow> clocks \<Rightarrow> handler" where
  "healthHandler D C ctx r =
     bindM (attempt (query ''ping'' (\<lambda>_. ()))) (\<lambda>x.
     ret (respondJSON (case x of Inl _ \<Rightarrow> 503 | Inr _ \<Rightarrow> 200)
       (JObj [(''status'', JStr (case x of Inl _ \<Rightarrow> ''degraded'' | Inr _ \<Rightarrow> ''ok'')), (''version'', JStr (ServerVersion D)),
         (''timestamp'', JStr (format_rfc3339 (app_now C)))])))"

end
