(* ===== verification/Server_Router.thy ===== *)
theory Server_Router
  imports Server_Dashboard
begin

text \<open>
  The router (\<^verbatim>\<open>internal/server/api/router.go\<close>): the table of routes in the order they are
  registered, with their guards, and what serving a request does.
\<close>

section \<open>The table\<close>

datatype guard = Public | NeedKey | NeedJWT "string list option"

record route =
  Method :: string
  Pattern :: "string list"
  Guard :: guard
  Handler :: handler

definition route :: "string \<Rightarrow> string list \<Rightarrow> guard \<Rightarrow> handler \<Rightarrow> route" where
  "route me p g h = \<lparr>Method = me, Pattern = p, Guard = g, Handler = h\<rparr>"

definition managers :: guard where "managers = NeedJWT (Some [''manager'', ''admin''])"

definition admins :: guard where "admins = NeedJWT (Some [''admin''])"

definition public_routes :: "lib \<Rightarrow> deps \<Rightarrow> clocks \<Rightarrow> route list" where
  "public_routes L D C =
     [route ''GET'' [''health''] Public (healthHandler D C),
      route ''GET'' [''auth'', ''config''] Public authConfigHandler,
      route ''POST'' [''auth'', ''local-login''] Public (localLoginHandler L D C)]"

definition client_routes :: "lib \<Rightarrow> clocks \<Rightarrow> route list" where
  "client_routes L C =
     [route ''POST'' [''devices''] NeedKey (deviceRegisterHandler L C),
      route ''GET'' [''devices''] NeedKey (deviceListHandler L),
      route ''PATCH'' [''devices'', ''{id}''] NeedKey (deviceUpdateHandler L),
      route ''POST'' [''timesheets''] NeedKey (timesheetSubmitHandler L C),
      route ''GET'' [''timesheets''] NeedKey (timesheetListOwnHandler L),
      route ''POST'' [''layout-snapshots''] NeedKey (layoutIngestHandler C)]"

definition dashboard_routes :: "lib \<Rightarrow> deps \<Rightarrow> clocks \<Rightarrow> route list" where
  "dashboard_routes L D C =
     [route ''POST'' [''auth'', ''refresh''] (NeedJWT None) (authRefreshHandler L D C),
      route ''POST'' [''auth'', ''change-password''] (NeedJWT None) (changePasswordHandler L C),
      route ''GET'' [''timesheets''] (NeedJWT None) (timesheetListOwnHandler L),
      route ''GET'' [''devices''] (NeedJWT None) (deviceListHandler L),
      route ''GET'' [''layout-snapshots''] (NeedJWT None) (layoutAtHandler L),
      route ''GET'' [''layout-snapshots'', ''timeline''] (NeedJWT None) (layoutTimelineHandler L C),
      route ''GET'' [''timesheets'', ''team''] managers (timesheetListTeamHandler L),
      route ''GET'' [''users'', ''team''] managers (userListHandler L),
      route ''GET'' [''users''] admins (userListHandler L),
      route ''PATCH'' [''users'', ''{id}''] admins (userUpdateRoleHandler L C),
      route ''GET'' [''reports'', ''summary''] managers (reportSummaryHandler L),
      route ''GET'' [''reports'', ''export''] managers (reportExportHandler L),
      route ''POST'' [''build'', ''download''] (NeedJWT None) (buildDownloadHandler L D C),
      route ''GET'' [''build'', ''status''] (NeedJWT None) (buildStatusHandler D),
      route ''DELETE'' [''admin'', ''entries'', ''{id}''] admins (adminDeleteEntryHandler L C),
      route ''PATCH'' [''admin'', ''entries'', ''{id}''] admins (adminEditEntryHandler L C),
      route ''POST'' [''admin'', ''keys'', ''{id}'', ''revoke''] admins (adminRevokeKeyHandler L C),
      route ''GET'' [''admin'', ''audit''] admins (adminAuditLogHandler L),
      route ''GET'' [''admin'', ''keys''] admins (adminListKeysHandler L),
      route ''GET'' [''admin'', ''settings''] admins adminGetSettingsHandler,
      route ''PATCH'' [''admin'', ''settings''] admins (adminUpdateSettingsHandler C),
      route ''POST'' [''auth'', ''login''] Public (authLoginHandler L D C)]"

definition routes :: "lib \<Rightarrow> deps \<Rightarrow> clocks \<Rightarrow> route list" where
  "routes L D C = public_routes L D C @ client_routes L C @ dashboard_routes L D C"

lemmas all_routes = routes_def public_routes_def client_routes_def dashboard_routes_def route_def

section \<open>Serving\<close>

definition guarded :: "lib \<Rightarrow> deps \<Rightarrow> clocks \<Rightarrow> guard \<Rightarrow> handler \<Rightarrow> handler" where
  "guarded L D C g h =
     (case g of
        Public \<Rightarrow> h
      | NeedKey \<Rightarrow> APIKeyMiddleware L (app_now C) (GetActiveAPIKeyByPrefix (db_now C)) (UpdateAPIKeyLastUsed (db_now C)) h
      | NeedJWT roles \<Rightarrow> JWTMiddleware L (JWT D) (app_now C)
          (case roles of None \<Rightarrow> h | Some rs \<Rightarrow> RequireRole rs h))"

definition table :: "route list \<Rightarrow> (string \<times> string list) list" where
  "table rs = map (\<lambda>x. (Method x, Pattern x)) rs"

text \<open>The path is what follows \<^verbatim>\<open>/api/v1\<close>; \<open>None\<close> is no API route (the SPA, 404 or 405).\<close>

definition serve :: "lib \<Rightarrow> deps \<Rightarrow> clocks \<Rightarrow> string \<Rightarrow> string list \<Rightarrow> request \<Rightarrow> reply option srv" where
  "serve L D C me path r =
     (case Route L (table (routes L D C)) me path of
        None \<Rightarrow> ret None
      | Some (i, x) \<Rightarrow>
          if length (routes L D C) \<le> i then ret None
          else bindM (guarded L D C (Guard (routes L D C ! i)) (Handler (routes L D C ! i)) no_ctx (r\<lparr>rq_id := x\<rparr>))
            (\<lambda>reply. ret (Some reply)))"

text \<open>
  The documented behaviour of the router that the theorems rely on: a route that serves a request was
  registered for its method and path, a request that some route is registered for is served, and of two
  routes with the same method and pattern the later one has replaced the earlier one.
\<close>

fun path_matches :: "string list \<Rightarrow> string list \<Rightarrow> bool" where
  "path_matches [] [] = True"
| "path_matches (p # ps) (x # xs) = ((p = ''{id}'' \<and> x \<noteq> [] \<or> p = x) \<and> path_matches ps xs)"
| "path_matches _ _ = False"

definition takes :: "string \<Rightarrow> string list \<Rightarrow> string \<times> string list \<Rightarrow> bool" where
  "takes me path x = (fst x = me \<and> path_matches (snd x) path)"

definition router_law :: "lib \<Rightarrow> bool" where
  "router_law L \<longleftrightarrow> (\<forall>rs me path.
     (\<forall>i x. Route L rs me path = Some (i, x) \<longrightarrow> i < length rs \<and> takes me path (rs ! i) \<and>
        (\<forall>j. i < j \<and> j < length rs \<longrightarrow> rs ! j \<noteq> rs ! i)) \<and>
     ((\<exists>r \<in> set rs. takes me path r) \<longrightarrow> Route L rs me path \<noteq> None))"

lemma length_table [simp]: "length (table rs) = length rs"
  by (simp add: table_def)

lemma nth_table: "i < length rs \<Longrightarrow> table rs ! i = (Method (rs ! i), Pattern (rs ! i))"
  by (simp add: table_def)

lemma set_table: "set (table rs) = (\<lambda>x. (Method x, Pattern x)) ` set rs"
  by (auto simp: table_def)

lemma router_lawD:
  assumes "router_law L" and "Route L (table rs) me path = Some (i, x)"
  shows "i < length rs \<and> takes me path (Method (rs ! i), Pattern (rs ! i)) \<and>
    (\<forall>j. i < j \<and> j < length rs \<longrightarrow> (Method (rs ! j), Pattern (rs ! j)) \<noteq> (Method (rs ! i), Pattern (rs ! i)))"
  using assms unfolding router_law_def by (metis length_table nth_table)

lemma router_law_serves:
  assumes "router_law L" and "r \<in> set rs" and "takes me path (Method r, Pattern r)"
  shows "\<exists>i x. Route L (table rs) me path = Some (i, x)"
proof -
  have "\<exists>r \<in> set (table rs). takes me path r" using assms(2,3) by (auto simp: set_table)
  then show ?thesis using assms(1) unfolding router_law_def by (metis not_Some_eq surj_pair)
qed

section \<open>Every request keeps the invariant of the store\<close>

lemma keeps_queries [keeps_rules]:
  "keeps I CountUsers" "keeps I (ListUsers n m)" "keeps I (GetUserByID i)" "keeps I (GetUserByEmail e)"
  "keeps I (GetUserByEntraOID e)" "keeps I (ListAPIKeysByUser i)" "keeps I (GetActiveAPIKeyByPrefix t p)"
  "keeps I (ListDevicesByUser i)" "keeps I (GetDeviceByID i)" "keeps I (GetDeviceByClientID c k)"
  "keeps I (ListTimesheetsByUser i n m)" "keeps I (ListTimesheetsAll f)" "keeps I (GetTimesheetEntryByID i)"
  "keeps I (ListAuditLogs af)" "keeps I (GetReportSummary rf)" "keeps I (GetReportExport rf)"
  "keeps I GetOrgSettings" "keeps I HasLayoutSnapshotsTable"
  by (simp_all add: CountUsers_def ListUsers_def GetUserByID_def GetUserByEmail_def GetUserByEntraOID_def
      ListAPIKeysByUser_def GetActiveAPIKeyByPrefix_def ListDevicesByUser_def GetDeviceByID_def
      GetDeviceByClientID_def ListTimesheetsByUser_def ListTimesheetsAll_def GetTimesheetEntryByID_def
      ListAuditLogs_def GetReportSummary_def GetReportExport_def GetOrgSettings_def HasLayoutSnapshotsTable_def
      keeps_query keeps_one_row)

lemma keeps_snapshot_reads [keeps_rules]:
  "keeps I (GetSnapshotAt i t)" "keeps I (ListTimestamps i fr till n m)"
  unfolding GetSnapshotAt_def ListTimestamps_def
  by (rule keeps_snap_stmt; auto simp: Let_def split: list.splits if_splits)+

lemmas client_handlers = deviceRegisterHandler_def deviceListHandler_def deviceUpdateHandler_def
  timesheetSubmitHandler_def timesheetListOwnHandler_def timesheetListTeamHandler_def
  layoutIngestHandler_def layoutAtHandler_def layoutTimelineHandler_def with_layout_table_def
  authorizeDeviceForUser_def

lemma keeps_ingest [keeps_rules]: "keeps srv_inv (ingest C dev snaps n m)"
  by (induction C dev snaps n m rule: ingest.induct) (auto intro!: keeps_rules split: option.split)

lemma keeps_client_handlers:
  "x \<in> set (client_routes L C) \<Longrightarrow> keeps srv_inv (Handler x ctx r)"
  by (auto simp: client_routes_def route_def client_handlers Let_def split: option.split sum.split prod.split
      intro!: keeps_rules)

lemmas session_handlers = authRefreshHandler_def changePasswordHandler_def authLoginHandler_def
  localLoginHandler_def authConfigHandler_def healthHandler_def find_or_create_def initOIDCFromSettings_def

lemma keeps_public_handlers:
  "x \<in> set (public_routes L D C) \<Longrightarrow> keeps srv_inv (Handler x ctx r)"
  by (auto simp: public_routes_def route_def session_handlers Let_def split: option.split sum.split
      intro!: keeps_rules)

lemmas admin_handlers = adminDeleteEntryHandler_def adminEditEntryHandler_def adminRevokeKeyHandler_def
  adminAuditLogHandler_def adminListKeysHandler_def adminGetSettingsHandler_def adminUpdateSettingsHandler_def
  audit_def userListHandler_def userUpdateRoleHandler_def

lemmas report_handlers = reportSummaryHandler_def reportExportHandler_def buildDownloadHandler_def
  buildStatusHandler_def

lemma keeps_dashboard_handlers:
  "x \<in> set (dashboard_routes L D C) \<Longrightarrow> keeps srv_inv (Handler x ctx r)"
  by (auto simp: dashboard_routes_def route_def client_handlers session_handlers admin_handlers report_handlers
      Let_def split: option.split sum.split prod.split json.split intro!: keeps_rules)

lemma keeps_guarded:
  assumes "\<And>ctx. keeps srv_inv (h ctx r)"
  shows "keeps srv_inv (guarded L D C g h ctx r)"
  using assms
  by (auto simp: guarded_def APIKeyMiddleware_def JWTMiddleware_def RequireRole_def
      split: guard.split option.split prod.split intro!: keeps_rules)


section \<open>Who may do what\<close>

lemma jwt_guard:
  assumes "guarded L D C (NeedJWT (Some roles)) h no_ctx r s = (Inr reply, s')"
  shows "(fst reply \<in> {401, 403} \<and> s' = s) \<or>
    (\<exists>token claims. bearer (rq_auth r) = Some token \<and> Validate L (JWT D) (app_now C) token = Some claims \<and>
       cl_role claims \<in> set roles)"
  using assms
  by (auto simp: guarded_def JWTMiddleware_def RequireRole_def ret_def split: if_splits option.splits)

lemma takes_simps [simp]: "takes me path (m, p) = (m = me \<and> path_matches p path)"
  by (simp add: takes_def)

lemma admin_routes:
  assumes "x \<in> set (routes L D C)" and "path_matches (Pattern x) (''admin'' # path)"
  shows "Guard x = admins"
  using assms by (auto simp: routes_def public_routes_def client_routes_def dashboard_routes_def route_def)

text \<open>
  C11: Nothing under \<^verbatim>\<open>/admin\<close> is done or read without a valid token whose role is admin: any other
  request is answered 401 or 403 and changes nothing, not even a counter.
\<close>

theorem admin_needs_admin_token:
  assumes "router_law L" and "serve L D C me (''admin'' # path) r s = (Inr (Some reply), s')"
  shows "(fst reply \<in> {401, 403} \<and> s' = s) \<or>
    (\<exists>token claims. bearer (rq_auth r) = Some token \<and> Validate L (JWT D) (app_now C) token = Some claims \<and>
       cl_role claims = ''admin'')"
proof -
  obtain i x where ix: "Route L (table (routes L D C)) me (''admin'' # path) = Some (i, x)"
    using assms(2) by (auto simp: serve_def ret_def split: option.splits)
  note law = router_lawD [OF assms(1) ix]
  let ?x = "routes L D C ! i" and ?r = "r\<lparr>rq_id := x\<rparr>"
  have "Guard ?x = admins" using law by (intro admin_routes [of _ L D C path]) simp_all
  then have "guarded L D C (NeedJWT (Some [''admin''])) (Handler ?x) no_ctx ?r s = (Inr reply, s')"
    using assms(2) ix law
    by (auto simp: serve_def admins_def bindM_def ret_def split: prod.splits sum.splits if_splits)
  from jwt_guard [OF this] show ?thesis by auto
qed

text \<open>A request that exactly one route is registered for is served by it.\<close>

lemma served_by:
  assumes "router_law L" and "x \<in> set (routes L D C)" and "takes me path (Method x, Pattern x)"
    and "\<forall>y \<in> set (routes L D C). takes me path (Method y, Pattern y) \<longrightarrow> Guard y = Guard x \<and> Handler y = Handler x"
  shows "\<exists>i. serve L D C me path r s =
    bindM (guarded L D C (Guard x) (Handler x) no_ctx (r\<lparr>rq_id := i\<rparr>)) (\<lambda>reply. ret (Some reply)) s"
proof -
  obtain i t where it: "Route L (table (routes L D C)) me path = Some (i, t)"
    using router_law_serves [OF assms(1-3)] by blast
  note law = router_lawD [OF assms(1) it]
  have "Guard (routes L D C ! i) = Guard x \<and> Handler (routes L D C ! i) = Handler x"
    using assms(4) law by simp
  then show ?thesis using it law by (intro exI [of _ t]) (simp add: serve_def)
qed

lemma nth_late: "length xs \<le> i \<Longrightarrow> i < length (xs @ ys) \<Longrightarrow> (xs @ ys) ! i \<in> set ys"
  by (simp add: nth_append)

lemma shadowing_route:
  assumes "router_law L" and "path \<in> {[''timesheets''], [''devices'']}"
  shows "\<exists>i x. Route L (table (routes L D C)) ''GET'' path = Some (i, x) \<and> i < length (routes L D C) \<and>
    Guard (routes L D C ! i) = NeedJWT None"
proof -
  let ?rs = "routes L D C" and ?n = "length (public_routes L D C @ client_routes L C)"
  have split: "?rs = (public_routes L D C @ client_routes L C) @ dashboard_routes L D C" by (simp add: routes_def)
  have "\<exists>d \<in> set (dashboard_routes L D C). Method d = ''GET'' \<and> Pattern d = path"
    using assms(2) by (elim insertE emptyE) (simp_all add: dashboard_routes_def route_def)
  then obtain d where d: "d \<in> set (dashboard_routes L D C)" "Method d = ''GET''" "Pattern d = path" by blast
  then obtain i x where ix: "Route L (table ?rs) ''GET'' path = Some (i, x)"
    using router_law_serves [OF assms(1), of d ?rs "''GET''" path] assms(2) unfolding split by fastforce
  note law = router_lawD [OF assms(1) ix]
  have match: "Method (?rs ! i) = ''GET''" "path_matches (Pattern (?rs ! i)) path" using law by simp_all
  obtain k where k: "k < length (dashboard_routes L D C)" "dashboard_routes L D C ! k = d"
    using d(1) by (auto simp: in_set_conv_nth)
  have late: "?rs ! (?n + k) = d" "?n + k < length ?rs" using k by (simp_all add: split nth_append)
  have "\<forall>y \<in> set ?rs. Method y = ''GET'' \<and> path_matches (Pattern y) path \<longrightarrow> Pattern y = path"
    using assms(2) by (elim insertE emptyE)
      (simp_all add: routes_def public_routes_def client_routes_def dashboard_routes_def route_def)
  then have "Pattern (?rs ! i) = path" using law match by simp
  then have "\<not> i < ?n + k" using law late d(2,3) match(1) by (metis prod.inject)
  then have "?n \<le> i" by simp
  then have "?rs ! i \<in> set (dashboard_routes L D C)" using law nth_late [of _ i] unfolding split by blast
  moreover have "\<forall>y \<in> set (dashboard_routes L D C). Method y = ''GET'' \<and> path_matches (Pattern y) path \<longrightarrow> Guard y = NeedJWT None"
    using assms(2) by (elim insertE emptyE) (simp_all add: dashboard_routes_def route_def)
  ultimately have "Guard (?rs ! i) = NeedJWT None" using match by blast
  then show ?thesis using ix law by blast
qed

text \<open>
  The client cannot list its timesheets or its devices: the dashboard registers the same two routes
  after the client's, so a request with an API key is checked as a token and refused.
\<close>

theorem client_lists_are_shadowed:
  assumes "router_law L" and "path \<in> {[''timesheets''], [''devices'']}" and "bearer (rq_auth r) = Some key"
    and "JwtParse L key = None"
  shows "serve L D C ''GET'' path r s = (Inr (Some (respondError 401 ''invalid or expired token'')), s)"
proof -
  obtain i x where "Route L (table (routes L D C)) ''GET'' path = Some (i, x)" "i < length (routes L D C)"
    "Guard (routes L D C ! i) = NeedJWT None"
    using shadowing_route [OF assms(1,2)] by blast
  moreover have "rq_auth r \<noteq> []" using assms(3) by (auto simp: bearer_def SplitN2_def)
  ultimately show ?thesis
    using assms(3,4) by (auto simp: serve_def guarded_def JWTMiddleware_def Validate_def bindM_def ret_def)
qed

end
