(* ===== verification/Server_Properties.thy ===== *)
theory Server_Properties
  imports Server_Router
begin

text \<open>
  What the server promises: keys and tokens that were issued are accepted for as long as they live,
  a failed login tells nothing, the OIDC secret cannot be read back, layout uploads can be repeated,
  and where ownership is checked and where it is not.
\<close>

section \<open>Running handlers on a database that works\<close>

lemmas run_simps = try_db_def bindM_def attempt_def ret_def

lemma one_row_ok: "no_fault s \<Longrightarrow> f (tables s) = Some x \<Longrightarrow> one_row ctx f s = (Inr x, s\<lparr>ticks := Suc (ticks s)\<rparr>)"
  by (simp add: one_row_def stmt_def Let_def)

lemma one_row_none: "no_fault s \<Longrightarrow> f (tables s) = None \<Longrightarrow>
    one_row ctx f s = (Inl (ENotFound ''not found''), s\<lparr>ticks := Suc (ticks s)\<rparr>)"
  by (simp add: one_row_def stmt_def Let_def)

lemma query_ok: "no_fault s \<Longrightarrow> query ctx f s = (Inr (f (tables s)), s\<lparr>ticks := Suc (ticks s)\<rparr>)"
  by (simp add: query_def stmt_def Let_def)

lemma bearer_header: "bearer (''Bearer '' @ key) = Some key"
  by (simp add: bearer_def SplitN2_def EqualFold_def ToLower_def lower_char_def)

lemma bearer_nonempty: "bearer h = Some key \<Longrightarrow> h \<noteq> []"
  by (auto simp: bearer_def SplitN2_def)

section \<open>Third-party code\<close>

text \<open>The documented behaviour of bcrypt and of the JWT library that the code relies on.\<close>

definition bcrypt_law :: "lib \<Rightarrow> bool" where
  "bcrypt_law L \<longleftrightarrow> (\<forall>p h. BcryptGenerate L p = Some h \<longrightarrow> BcryptMatches L h p)"

definition jwt_law :: "lib \<Rightarrow> bool" where
  "jwt_law L \<longleftrightarrow> (\<forall>k c t. JwtSign L k c = Some t \<longrightarrow>
     (\<exists>v. JwtParse L t = Some (True, v) \<and> (\<forall>now. v k now = (if now < cl_expires c * second then Some c else None))))"

text \<open>A library for the witnesses: hashes and tokens that can be read off.\<close>

definition some_claims :: "string \<Rightarrow> stamp \<Rightarrow> JWTClaims" where
  "some_claims role t = \<lparr>cl_user = 1, cl_email = ''a'', cl_role = role, cl_issued = 0, cl_expires = t\<rparr>"

fun path_id :: "string list \<Rightarrow> string list \<Rightarrow> string" where
  "path_id (p # ps) (x # xs) = (if p = ''{id}'' then x else path_id ps xs)"
| "path_id _ _ = []"

definition some_route :: "(string \<times> string list) list \<Rightarrow> string \<Rightarrow> string list \<Rightarrow> (nat \<times> string) option" where
  "some_route rs me path =
     map_option (\<lambda>i. (i, path_id (snd (rs ! i)) path)) (find (\<lambda>i. takes me path (rs ! i)) (rev [0..<length rs]))"

lemma find_last: "find P (rev [0..<n]) = Some i \<longleftrightarrow> i < n \<and> P i \<and> (\<forall>j. i < j \<and> j < n \<longrightarrow> \<not> P j)"
proof (induction n)
  case (Suc n)
  then show ?case by (auto simp: less_Suc_eq)
qed simp

definition some_lib :: lib where
  "some_lib = \<lparr>UuidString = show_int,
     UuidParse = (\<lambda>s. if s \<noteq> [] \<and> list_all is_digit s then Some (int (read_nat 0 s)) else None),
     BcryptGenerate = (\<lambda>p. Some (CHR ''#'' # p)), BcryptMatches = (\<lambda>h p. h = CHR ''#'' # p),
     JwtSign = (\<lambda>k c. if c = some_claims ''admin'' 900 then Some ''token'' else None),
     JwtParse = (\<lambda>t. if t = ''token'' then Some (True, \<lambda>k now. if now < 900 * second then Some (some_claims ''admin'' 900) else None)
        else None),
     OidcInit = (\<lambda>_. False), OidcExchange = (\<lambda>_ _. None), OidcVerify = (\<lambda>_ _. None), Hours = (\<lambda>_. ''0.0''),
     Route = some_route\<rparr>"

lemma some_lib_laws: "bcrypt_law some_lib" "jwt_law some_lib" "router_law some_lib"
proof -
  show "bcrypt_law some_lib" "jwt_law some_lib" by (simp_all add: bcrypt_law_def jwt_law_def some_lib_def some_claims_def)
  have "Route some_lib = some_route" by (simp add: some_lib_def)
  moreover have "some_route rs me path = Some (i, x) \<Longrightarrow> i < length rs \<and> takes me path (rs ! i) \<and>
      (\<forall>j. i < j \<and> j < length rs \<longrightarrow> rs ! j \<noteq> rs ! i)" for rs me path i x
    by (auto simp: some_route_def find_last)
  moreover have "r \<in> set rs \<Longrightarrow> takes me path r \<Longrightarrow> some_route rs me path \<noteq> None" for rs me path r
    by (auto simp: some_route_def find_None_iff in_set_conv_nth)
  ultimately show "router_law some_lib" unfolding router_law_def by metis
qed

definition some_request :: "string \<Rightarrow> body \<Rightarrow> request" where
  "some_request auth b = \<lparr>rq_auth = auth, rq_query = [], rq_id = [], rq_body = b, rq_large = False, rq_host = ''h'',
     rq_tls = False, rq_proto = []\<rparr>"

definition some_clocks :: "gotime \<Rightarrow> clocks" where
  "some_clocks t = \<lparr>app_now = t, db_now = t, random = Some [1, 2]\<rparr>"

section \<open>Tokens\<close>

lemma token_checked:
  assumes "jwt_law L" and "Issue L j now user email role = Some token" and "rq_auth r = ''Bearer '' @ token"
  shows "JWTMiddleware L j t h no_ctx r s =
    (if t < rfc3339 (now + iss_duration j) * second
     then h \<lparr>ctx_user = Some user, ctx_role = Some role, ctx_key = None, ctx_type = Some AuthTypeJWT\<rparr> r s
     else (Inr (respondError 401 ''invalid or expired token''), s))"
proof -
  let ?c = "\<lparr>cl_user = user, cl_email = email, cl_role = role, cl_issued = rfc3339 now,
       cl_expires = rfc3339 (now + iss_duration j)\<rparr>"
  obtain v where "JwtParse L token = Some (True, v)"
    and "\<And>t. v (iss_secret j) t = (if t < cl_expires ?c * second then Some ?c else None)"
    using assms(1,2) unfolding jwt_law_def Issue_def by meson
  then have val: "Validate L j t token = (if t < rfc3339 (now + iss_duration j) * second then Some ?c else None)"
    by (simp add: Validate_def)
  have "bearer (rq_auth r) = Some token" using assms(3) bearer_header by simp
  then show ?thesis using bearer_nonempty val
    by (auto simp: JWTMiddleware_def no_ctx_def ret_def)
qed

text \<open>
  C38: A token the server issues is accepted until it expires, to the second, and then refused; until then
  the request runs as the user and with the role it was issued for, whatever has happened to that
  user's role since.
\<close>

theorem token_valid_until_expiry:
  assumes "jwt_law L" and "Issue L j now user email role = Some token" and "rq_auth r = ''Bearer '' @ token"
  shows "JWTMiddleware L j t h no_ctx r s =
    (if t < rfc3339 (now + iss_duration j) * second
     then h \<lparr>ctx_user = Some user, ctx_role = Some role, ctx_key = None, ctx_type = Some AuthTypeJWT\<rparr> r s
     else (Inr (respondError 401 ''invalid or expired token''), s))"
  using assms by (rule token_checked)

lemma token_valid_until_expiry_witness:
  "JWTMiddleware some_lib \<lparr>iss_secret = ''k'', iss_duration = 15 * minute\<rparr> (10 * minute)
     (\<lambda>ctx r. ret (respondError 200 [])) no_ctx (some_request (''Bearer '' @ ''token'') None) (healthy migrated_db) =
   (if 10 * minute < rfc3339 (0 + 15 * minute) * second
    then ret (respondError 200 []) (healthy migrated_db)
    else (Inr (respondError 401 ''invalid or expired token''), healthy migrated_db))"
proof -
  have issue: "Issue some_lib \<lparr>iss_secret = ''k'', iss_duration = 15 * minute\<rparr> 0 1 ''a'' ''admin'' = Some ''token''"
    by (simp add: Issue_def some_lib_def some_claims_def rfc3339_def minute_def second_def)
  show ?thesis
    using token_valid_until_expiry [OF some_lib_laws(2) issue, of "some_request (''Bearer '' @ ''token'') None"]
    by (simp add: some_request_def)
qed

section \<open>Logins\<close>

text \<open>
  C29: An unknown address, an account without a password and a wrong password are answered alike: the
  reply to a login that does not succeed says nothing about the account.
\<close>

theorem failed_login_tells_nothing:
  assumes "no_fault s" and "decode_ok login_shape (rq_body r)"
    and "string_field ''email'' (rq_body r) \<noteq> []" and "string_field ''password'' (rq_body r) \<noteq> []"
  shows "fst (localLoginHandler L D C ctx r s) = Inr
    (case row_at usr_email (string_field ''email'' (rq_body r)) (users (tables s)) of
       Some u \<Rightarrow> (case usr_hash u of
           Some hash \<Rightarrow> if BcryptMatches L hash (string_field ''password'' (rq_body r))
             then session_reply L D C u [(''force_password_change'', JBool (usr_force u))] else bad_login
         | None \<Rightarrow> bad_login)
     | None \<Rightarrow> bad_login)"
proof (cases "row_at usr_email (string_field ''email'' (rq_body r)) (users (tables s))")
  case None
  have "GetUserByEmail (string_field ''email'' (rq_body r)) s = (Inl (ENotFound ''not found''), s\<lparr>ticks := Suc (ticks s)\<rparr>)"
    unfolding GetUserByEmail_def by (rule one_row_none) (simp_all add: assms(1) None)
  then show ?thesis
    using assms None by (simp add: localLoginHandler_def Let_def not_found_or_def bad_login_def run_simps)
next
  case (Some u)
  have "GetUserByEmail (string_field ''email'' (rq_body r)) s = (Inr u, s\<lparr>ticks := Suc (ticks s)\<rparr>)"
    unfolding GetUserByEmail_def by (rule one_row_ok) (simp_all add: assms(1) Some)
  then show ?thesis
    using assms Some by (simp add: localLoginHandler_def Let_def run_simps split: option.split)
qed

lemma failed_login_tells_nothing_witness:
  "fst (localLoginHandler some_lib \<lparr>JWT = \<lparr>iss_secret = [], iss_duration = 0\<rparr>, ClientBuilder = None, FQDN = [],
       ServerVersion = [], EnvRedirect = [], EnvFQDN = []\<rparr> (some_clocks 0) no_ctx
     (some_request [] (Some (JObj [(''email'', JStr ''b''), (''password'', JStr ''p'')]))) (healthy (some_db []))) = Inr bad_login"
  using failed_login_tells_nothing [of "healthy (some_db [])"
      "some_request [] (Some (JObj [(''email'', JStr ''b''), (''password'', JStr ''p'')]))" some_lib]
  by (simp add: some_request_def decode_ok_def login_shape_def string_field_def EqualFold_def ToLower_def lower_char_def
      some_db_def migrated_db_def row_at_def)

section \<open>The OIDC secret\<close>

text \<open>Sending the settings back with the mask in place of the secret leaves the secret as it is.\<close>

lemma masked_keeps_secret:
  "op_secret (settings_params b) = None \<longleftrightarrow> string_ptr ''entra_secret'' b \<in> {None, Some masked}"
  by (auto simp: settings_params_def)



section \<open>Layout uploads\<close>

definition snap_of :: "uuid \<Rightarrow> json \<Rightarrow> (uuid \<times> gotime \<times> string) option" where
  "snap_of dev snap =
     (case time_Parse (string_field ''captured_at'' (Some snap)) of
        None \<Rightarrow> None
      | Some t \<Rightarrow> if string_field ''windows_hash'' (Some snap) = [] then None
          else Some (dev, pg_time t, string_field ''windows_hash'' (Some snap)))"

definition ingested :: "int \<Rightarrow> int \<Rightarrow> reply" where
  "ingested n d = respondJSON 201 (JObj [(''received'', JNum n), (''deduped'', JNum d)])"

text \<open>A batch that is answered 201 is in the table, row by row, and nothing of the table is lost.\<close>

lemma ingest_stores:
  assumes "ingest C dev snaps n d s = (Inr reply, s')" and "fst reply = 201"
  shows "(\<forall>x \<in> set snaps. \<exists>k. snap_of dev x = Some k \<and> k \<in> snap_key ` set (snapshots (tables s'))) \<and>
    snap_key ` set (snapshots (tables s)) \<subseteq> snap_key ` set (snapshots (tables s')) \<and>
    layout_migrated (tables s') = layout_migrated (tables s) \<and> devices (tables s') = devices (tables s)"
  using assms
proof (induction snaps arbitrary: n d s)
  case (Cons x snaps)
  obtain t where t: "time_Parse (string_field ''captured_at'' (Some x)) = Some t"
    using Cons.prems by (auto simp: ret_def respondError_def respondJSON_def split: option.splits)
  have h: "string_field ''windows_hash'' (Some x) \<noteq> []"
    using Cons.prems t by (auto simp: ret_def respondError_def respondJSON_def split: if_splits)
  let ?p = "\<lparr>ip_device = dev, ip_captured = t, ip_windows = clean_windows x, ip_hash = string_field ''windows_hash'' (Some x)\<rparr>"
  obtain row s1 where ins: "SrvInsertSnapshot (db_now C) ?p s = (Inr row, s1)"
    using Cons.prems t h
    by (cases "SrvInsertSnapshot (db_now C) ?p s"; cases "fst (SrvInsertSnapshot (db_now C) ?p s)")
      (auto simp: run_simps respondError_def respondJSON_def)
  have grown: "snap_key ` set (snapshots (tables s1)) = insert (dev, pg_time t, string_field ''windows_hash'' (Some x))
      (snap_key ` set (snapshots (tables s)))"
    "layout_migrated (tables s1) = layout_migrated (tables s)" "devices (tables s1) = devices (tables s)"
    using ins by (auto simp: SrvInsertSnapshot_def snap_stmt_def stmt_def Let_def snap_key_def split: if_splits)
  have "ingest C dev snaps (n + 1) (if row = None then d + 1 else d) s1 = (Inr reply, s')"
    using Cons.prems(1) t h ins by (simp add: run_simps)
  from Cons.IH [OF this Cons.prems(2)] show ?case
    using grown t h by (auto simp: snap_of_def)
qed (simp add: ret_def)

lemma ingest_seen:
  assumes "\<forall>x \<in> set snaps. \<exists>k. snap_of dev x = Some k \<and> k \<in> snap_key ` set (snapshots (tables s))"
    and "no_fault s" and "layout_migrated (tables s)"
  shows "\<exists>m. ingest C dev snaps n d s = (Inr (ingested (n + int (length snaps)) (d + int (length snaps))), s\<lparr>ticks := m\<rparr>)"
  using assms
proof (induction snaps arbitrary: n d s)
  case Nil
  have "ingest C dev [] n d s = (Inr (ingested n d), s\<lparr>ticks := ticks s\<rparr>)" by (simp add: ret_def ingested_def)
  then show ?case by (intro exI [of _ "ticks s"]) simp
next
  case (Cons x snaps)
  obtain t where t: "time_Parse (string_field ''captured_at'' (Some x)) = Some t"
      "string_field ''windows_hash'' (Some x) \<noteq> []"
      "(dev, pg_time t, string_field ''windows_hash'' (Some x)) \<in> snap_key ` set (snapshots (tables s))"
    using Cons.prems(1) by (auto simp: snap_of_def split: option.splits if_splits)
  let ?p = "\<lparr>ip_device = dev, ip_captured = t, ip_windows = clean_windows x, ip_hash = string_field ''windows_hash'' (Some x)\<rparr>"
  have "SrvInsertSnapshot (db_now C) ?p s = (Inr None, s\<lparr>ticks := Suc (ticks s)\<rparr>)"
    using t(3) Cons.prems(2,3) by (simp add: SrvInsertSnapshot_def snap_stmt_def stmt_def Let_def snap_key_def)
  moreover obtain m where "ingest C dev snaps (n + 1) (d + 1) (s\<lparr>ticks := Suc (ticks s)\<rparr>) =
      (Inr (ingested (n + 1 + int (length snaps)) (d + 1 + int (length snaps))), s\<lparr>ticks := m\<rparr>)"
    using Cons.IH [of "s\<lparr>ticks := Suc (ticks s)\<rparr>" "n + 1" "d + 1"] Cons.prems by auto
  ultimately show ?case
    using t(1,2) by (intro exI [of _ m]) (simp add: run_simps algebra_simps)
qed


definition some_client :: auth_ctx where
  "some_client = \<lparr>ctx_user = Some 2, ctx_role = Some ''member'', ctx_key = Some 1, ctx_type = Some AuthTypeAPIKey\<rparr>"

definition some_upload :: json where
  "some_upload = JObj [(''client_device_id'', JStr ''laptop''), (''snapshots'', JArr [JObj [(''captured_at'', JStr ''1970-01-01T00:00:00Z''),
     (''windows_hash'', JStr ''h''), (''windows'', JArr [])]])]"

lemma some_upload_fields:
  "decode_ok ingest_shape (Some some_upload)" "string_field ''client_device_id'' (Some some_upload) = ''laptop''"
  "slice_field ''snapshots'' (Some some_upload) = [JObj [(''captured_at'', JStr ''1970-01-01T00:00:00Z''),
     (''windows_hash'', JStr ''h''), (''windows'', JArr [])]]"
  by code_simp+

lemma some_time: "time_Parse ''1970-01-01T00:00:00Z'' = Some 0"
  by code_simp

lemma some_upload_stored:
  "\<exists>s'. layoutIngestHandler (some_clocks 0) some_client (some_request [] (Some some_upload)) (healthy (some_db [])) =
      (Inr (ingested 1 0), s') \<and> no_fault s'"
proof -
  let ?x = "JObj [(''captured_at'', JStr ''1970-01-01T00:00:00Z''), (''windows_hash'', JStr ''h''), (''windows'', JArr [])]"
  have x: "string_field ''captured_at'' (Some ?x) = ''1970-01-01T00:00:00Z''" "string_field ''windows_hash'' (Some ?x) = ''h''"
    by code_simp+
  show ?thesis
    by (simp add: layoutIngestHandler_def some_client_def some_request_def some_upload_fields Let_def with_layout_table_def
        HasLayoutSnapshotsTable_def query_def stmt_def run_simps GetDeviceByClientID_def one_row_def row_at_def device_key_def
        some_device_def SrvInsertSnapshot_def snap_stmt_def x some_time has_device_def ingested_def)
qed


section \<open>Ownership\<close>

text \<open>
  C27: A user sees no layout of another user's device: the two dashboard pages answer 403 for it, and the
  database is not asked for snapshots.
\<close>

theorem layouts_are_private:
  assumes "ctx_user ctx = Some user" and "UuidParse L (query_get r ''device_id'') = Some i"
    and "row_at dev_id i (devices (tables s)) = Some d" and "dev_user d \<noteq> user"
    and "no_fault s" and "layout_migrated (tables s)"
  shows "layoutAtHandler L ctx r s =
      (Inr (respondError 403 ''device does not belong to authenticated user''), s\<lparr>ticks := Suc (Suc (ticks s))\<rparr>) \<and>
    layoutTimelineHandler L C ctx r s =
      (Inr (respondError 403 ''device does not belong to authenticated user''), s\<lparr>ticks := Suc (Suc (ticks s))\<rparr>)"
proof -
  have "HasLayoutSnapshotsTable s = (Inr True, s\<lparr>ticks := Suc (ticks s)\<rparr>)"
    unfolding HasLayoutSnapshotsTable_def using assms(5,6) by (subst query_ok) simp_all
  moreover have "GetDeviceByID i (s\<lparr>ticks := Suc (ticks s)\<rparr>) = (Inr d, s\<lparr>ticks := Suc (Suc (ticks s))\<rparr>)"
    unfolding GetDeviceByID_def using assms(3,5) by (subst one_row_ok) simp_all
  ultimately show ?thesis
    using assms(1,2,4) by (simp add: layoutAtHandler_def layoutTimelineHandler_def with_layout_table_def
        authorizeDeviceForUser_def run_simps)
qed

definition some_query :: request where
  "some_query = (some_request [] None)\<lparr>rq_query := [(''device_id'', ''1'')]\<rparr>"

lemma layouts_are_private_witness:
  "layoutAtHandler some_lib (some_client\<lparr>ctx_user := Some 1\<rparr>) some_query (healthy (some_db [])) =
      (Inr (respondError 403 ''device does not belong to authenticated user''), (healthy (some_db []))\<lparr>ticks := Suc (Suc 0)\<rparr>) \<and>
    layoutTimelineHandler some_lib (some_clocks 0) (some_client\<lparr>ctx_user := Some 1\<rparr>) some_query (healthy (some_db [])) =
      (Inr (respondError 403 ''device does not belong to authenticated user''), (healthy (some_db []))\<lparr>ticks := Suc (Suc 0)\<rparr>)"
proof -
  have "UuidParse some_lib (query_get some_query ''device_id'') = Some 1"
    by code_simp
  then show ?thesis
    using layouts_are_private [of "some_client\<lparr>ctx_user := Some 1\<rparr>" 1 some_lib some_query 1 "healthy (some_db [])" some_device]
    by (simp add: some_client_def row_at_def some_device_def)
qed

text \<open>
  Renaming a device checks no owner: with any valid key, any user renames any device whose id they
  send, and is shown it.
\<close>

theorem rename_ignores_owner:
  assumes "UuidParse L (rq_id r) = Some i" and "decode_ok name_shape (rq_body r)"
    and "string_field ''device_name'' (rq_body r) = name" and "name \<noteq> []"
    and "row_at dev_id i (devices (tables s)) = Some d" and "no_fault s"
  shows "\<exists>s'. deviceUpdateHandler L ctx r s = (Inr (respondJSON 200 (JObj (device_json L (name_device name d)))), s') \<and>
           row_at dev_id i (devices (tables s')) = Some (name_device name d)"
proof -
  have "UpdateDeviceName i name s = (Inr (name_device name d), s\<lparr>ticks := Suc (ticks s), tables := (tables s)\<lparr>devices :=
      sql_update (\<lambda>r. dev_id r = i) (name_device name) (devices (tables s))\<rparr>\<rparr>)"
    using assms(5,6) by (simp add: UpdateDeviceName_def stmt_def Let_def)
  then show ?thesis
    using assms by (simp add: deviceUpdateHandler_def Let_def run_simps named_row.row_at_update)
qed

lemma rename_ignores_owner_witness:
  "\<exists>s'. deviceUpdateHandler some_lib (some_client\<lparr>ctx_user := Some 1\<rparr>)
      ((some_request [] (Some (JObj [(''device_name'', JStr ''x'')])))\<lparr>rq_id := ''1''\<rparr>) (healthy (some_db [])) =
      (Inr (respondJSON 200 (JObj (device_json some_lib (name_device ''x'' some_device)))), s') \<and>
     row_at dev_id 1 (devices (tables s')) = Some (name_device ''x'' some_device)"
proof (rule rename_ignores_owner)
  show "UuidParse some_lib (rq_id ((some_request [] (Some (JObj [(''device_name'', JStr ''x'')])))\<lparr>rq_id := ''1''\<rparr>)) = Some 1"
    by code_simp
  show "decode_ok name_shape (rq_body ((some_request [] (Some (JObj [(''device_name'', JStr ''x'')])))\<lparr>rq_id := ''1''\<rparr>))"
    by code_simp
qed (simp_all add: some_request_def string_field_def EqualFold_def ToLower_def lower_char_def row_at_def some_device_def)

section \<open>The guards at work\<close>

definition some_handler :: handler where
  "some_handler ctx r = ret (respondJSON 200 (JNum (case ctx_user ctx of None \<Rightarrow> 0 | Some u \<Rightarrow> u)))"

definition some_deps :: deps where
  "some_deps = \<lparr>JWT = \<lparr>iss_secret = ''k'', iss_duration = 15 * minute\<rparr>, ClientBuilder = None, FQDN = ''t'',
     ServerVersion = ''dev'', EnvRedirect = [], EnvFQDN = []\<rparr>"

lemma api_key_required_witness:
  "\<exists>plain k u s1. bearer (''Bearer '' @ ''tsk_1'') = Some plain \<and> k \<in> set (api_keys (some_db [])) \<and>
     u \<in> set (users (some_db [])) \<and> usr_id u = key_user k \<and> active 0 k \<and>
     BcryptMatches some_lib (key_hash k) plain \<and> but_last_used (some_db []) (tables s1) \<and>
     fst (some_handler \<lparr>ctx_user = Some (usr_id u), ctx_role = Some (usr_role u), ctx_key = Some (key_id k),
        ctx_type = Some AuthTypeAPIKey\<rparr> (some_request (''Bearer '' @ ''tsk_1'') None) s1) =
     Inr (respondJSON 200 (JNum 2))"
proof -
  have b: "bearer (''Bearer tsk_1'') = Some ''tsk_1''" using bearer_header [of "''tsk_1''"] by simp
  let ?r = "some_request (''Bearer '' @ ''tsk_1'') None"
  let ?m = "APIKeyMiddleware some_lib 0 (GetActiveAPIKeyByPrefix 0) (UpdateAPIKeyLastUsed 0) some_handler no_ctx ?r
      (healthy (some_db []))"
  have "fst ?m = Inr (respondJSON 200 (JNum 2))"
    using b by (simp add: some_request_def APIKeyMiddleware_def Prefix_def prefixLen_def GetActiveAPIKeyByPrefix_def
        UpdateAPIKeyLastUsed_def update_key_def one_row_def stmt_def Let_def run_simps key_records_def some_db_def
        migrated_db_def active_def some_lib_def logged_def some_handler_def no_ctx_def)
  then obtain s' where run: "?m = (Inr (respondJSON 200 (JNum 2)), s')" by (metis prod.collapse)
  obtain plain k u s1 where "bearer (rq_auth ?r) = Some plain" "k \<in> set (api_keys (tables (healthy (some_db []))))"
    "u \<in> set (users (tables (healthy (some_db []))))" "usr_id u = key_user k" "active 0 k"
    "BcryptMatches some_lib (key_hash k) plain" "but_last_used (tables (healthy (some_db []))) (tables s1)"
    "some_handler \<lparr>ctx_user = Some (usr_id u), ctx_role = Some (usr_role u), ctx_key = Some (key_id k),
        ctx_type = Some AuthTypeAPIKey\<rparr> ?r s1 = (Inr (respondJSON 200 (JNum 2)), s')"
    using api_key_required [OF run] by auto
  then show ?thesis
    by (intro exI [of _ plain] exI [of _ k] exI [of _ u] exI [of _ s1]) (simp add: some_request_def)
qed

lemma settings_route:
  assumes "router_law L"
  shows "\<exists>i. serve L D C ''GET'' (''admin'' # [''settings'']) r s =
    bindM (guarded L D C admins adminGetSettingsHandler no_ctx (r\<lparr>rq_id := i\<rparr>)) (\<lambda>reply. ret (Some reply)) s"
proof -
  let ?x = "route ''GET'' [''admin'', ''settings''] admins adminGetSettingsHandler"
  have "\<exists>i. serve L D C ''GET'' (''admin'' # [''settings'']) r s =
      bindM (guarded L D C (Guard ?x) (Handler ?x) no_ctx (r\<lparr>rq_id := i\<rparr>)) (\<lambda>reply. ret (Some reply)) s"
    by (rule served_by [OF assms]) (simp_all add: all_routes)
  then show ?thesis by (simp add: route_def)
qed

lemma admin_needs_admin_token_witness:
  "\<exists>token claims. bearer (''Bearer '' @ ''token'') = Some token \<and>
     Validate some_lib (JWT some_deps) (app_now (some_clocks 0)) token = Some claims \<and> cl_role claims = ''admin''"
proof -
  let ?r = "some_request (''Bearer '' @ ''token'') None"
  let ?m = "serve some_lib some_deps (some_clocks 0) ''GET'' (''admin'' # [''settings'']) ?r (healthy (some_db []))"
  have b: "bearer ''Bearer token'' = Some ''token''" using bearer_header [of "''token''"] by simp
  obtain i where route: "?m = bindM (guarded some_lib some_deps (some_clocks 0) admins adminGetSettingsHandler no_ctx
      (?r\<lparr>rq_id := i\<rparr>)) (\<lambda>reply. ret (Some reply)) (healthy (some_db []))"
    using settings_route [OF some_lib_laws(3)] by blast
  have val: "Validate some_lib (JWT some_deps) (app_now (some_clocks 0)) ''token'' = Some (some_claims ''admin'' 900)"
    by (simp add: Validate_def some_lib_def second_def some_clocks_def)
  have "adminGetSettingsHandler ctx q (healthy (some_db [])) =
      (Inr (respondJSON 200 (settings_json default_settings)), (healthy (some_db []))\<lparr>ticks := 1\<rparr>)" for ctx q
    by (simp add: run_simps adminGetSettingsHandler_def GetOrgSettings_def one_row_def stmt_def Let_def some_db_def migrated_db_def)
  then have "guarded some_lib some_deps (some_clocks 0) admins adminGetSettingsHandler no_ctx q (healthy (some_db [])) =
      (Inr (respondJSON 200 (settings_json default_settings)), (healthy (some_db []))\<lparr>ticks := 1\<rparr>)"
    if "rq_auth q = ''Bearer token''" for q
    using b val that by (simp add: admins_def guarded_def JWTMiddleware_def RequireRole_def some_claims_def)
  then have "fst ?m = Inr (Some (respondJSON 200 (settings_json default_settings)))"
    unfolding route by (simp add: bindM_def ret_def some_request_def)
  then have "\<exists>reply. fst ?m = Inr (Some reply) \<and> fst reply = 200" by auto
  then obtain reply where "fst ?m = Inr (Some reply)" and ok: "fst reply = 200" by blast
  then have run: "?m = (Inr (Some reply), snd ?m)" by (simp add: prod_eq_iff)
  show ?thesis using admin_needs_admin_token [OF some_lib_laws(3) run] ok by (simp add: some_request_def)
qed

lemma client_lists_are_shadowed_witness:
  "serve some_lib some_deps (some_clocks 0) ''GET'' [''timesheets''] (some_request (''Bearer '' @ ''tsk_1'') None)
     (healthy (some_db [])) = (Inr (Some (respondError 401 ''invalid or expired token'')), healthy (some_db []))"
  using bearer_header [of "''tsk_1''"]
  by (intro client_lists_are_shadowed [OF some_lib_laws(3), of _ _ "''tsk_1''"]) (simp_all add: some_request_def some_lib_def)

section \<open>Downloaded keys\<close>

lemma CreateAPIKey_ok:
  assumes "CreateAPIKey now user hash pfx expires s = (Inr k, s')"
  shows "has_user (tables s) user \<and> tables s' = (tables s)\<lparr>api_keys := api_keys (tables s) @ [k]\<rparr> \<and> key_user k = user \<and>
    key_hash k = hash \<and> key_prefix k = pfx \<and> key_expires k = pg_time expires \<and> \<not> key_revoked k"
  using assms by (auto simp: CreateAPIKey_def stmt_def Let_def split: if_splits)

lemma GetOrgSettings_same: "tables (snd (GetOrgSettings s)) = tables s"
  by (simp add: GetOrgSettings_def one_row_def stmt_def Let_def split: option.split)

lemma buildDownload_ok:
  assumes "buildDownloadHandler L D C ctx r s = (Inr (200, Binary out), s')"
  obtains user plainKey hash pfx k s1 where "ctx_user ctx = Some user" and "Generate L (random C) = Some (plainKey, hash, pfx)"
    and "tables s1 = tables s"
    and "CreateAPIKey (db_now C) user hash pfx (app_now C + key_lifetime (expiry_days (fst (GetOrgSettings s)))) s1 = (Inr k, s')"
proof -
  obtain o1 s1 where o1: "GetOrgSettings s = (o1, s1)" by fastforce
  then have "tables s1 = tables s" using GetOrgSettings_same [of s] by simp
  then show thesis
    using assms o1 that
    by (auto simp: buildDownloadHandler_def run_simps respondError_def respondJSON_def Let_def bad_body_def
        split: option.splits if_splits prod.splits sum.splits)
qed

lemma active_key_found:
  assumes "\<And>x. x \<in> set ks \<Longrightarrow> key_prefix x = pfx \<Longrightarrow> \<not> active t x" and "key_prefix k = pfx" and "active t k"
    and "api_keys d = ks @ [k]" and "has_user d (key_user k)"
  shows "\<exists>u rs. u \<in> set (users d) \<and> usr_id u = key_user k \<and> key_records t (\<lambda>k. key_prefix k = pfx) d =
    \<lparr>rec_id = key_id k, rec_user = key_user k, rec_hash = key_hash k, rec_role = usr_role u,
      rec_expires = key_expires k, rec_revoked = key_revoked k\<rparr> # rs"
proof -
  have "filter (\<lambda>x. key_prefix x = pfx \<and> active t x) ks = []" using assms(1) by (auto simp: filter_empty_conv)
  moreover obtain u us where "filter (\<lambda>u. usr_id u = key_user k) (users d) = u # us"
    using assms(5) by (auto simp: has_user_def neq_Nil_conv filter_empty_conv dest: filter_eq_ConsD
        split: list.split) (metis (mono_tags, lifting) filter_empty_conv list.exhaust)
  moreover from this have "u \<in> set (users d)" "usr_id u = key_user k"
    by (metis (mono_tags, lifting) list.set_intros(1) mem_Collect_eq set_filter)+
  ultimately show ?thesis using assms(2-4) by (intro exI [of _ u]) (simp add: key_records_def)
qed


text \<open>
  The lifetime of a key is computed in 64 bits: for up to 106751 days it is that many days, and from
  then on it wraps around to a time before the download, so the key never works.
\<close>

theorem key_lifetime_overflows:
  assumes "0 \<le> days" and "days \<le> 213503"
  shows "key_lifetime days = (if days \<le> 106751 then days * (24 * hour) else days * (24 * hour) - 2 ^ 64) \<and>
    (0 \<le> key_lifetime days) = (days \<le> 106751)"
proof -
  have "(days * 24 + 2 ^ 63) mod 2 ^ 64 = days * 24 + 2 ^ 63" using assms by (intro mod_pos_pos_trivial) simp_all
  then have inner: "wrap64 (days * 24) = days * 24" by (simp add: wrap64_def)
  show ?thesis
  proof (cases "days \<le> 106751")
    case True
    have "(days * 24 * hour + 2 ^ 63) mod 2 ^ 64 = days * 24 * hour + 2 ^ 63"
      using assms True by (intro mod_pos_pos_trivial) (simp_all add: hour_def minute_def second_def)
    then show ?thesis using True assms(1) inner by (simp add: key_lifetime_def wrap64_def hour_def minute_def second_def)
  next
    case False
    have "(days * 24 * hour + 2 ^ 63) mod 2 ^ 64 = (days * 24 * hour + 2 ^ 63 - 2 ^ 64) mod 2 ^ 64"
      by (metis minus_mod_self2)
    also have "\<dots> = days * 24 * hour + 2 ^ 63 - 2 ^ 64"
      using assms False by (intro mod_pos_pos_trivial) (simp_all add: hour_def minute_def second_def)
    finally show ?thesis using False assms inner by (simp add: key_lifetime_def wrap64_def hour_def minute_def second_def)
  qed
qed

lemma key_lifetime_overflows_witness: "key_lifetime 60 = 60 * (24 * hour) \<and> key_lifetime 106752 < 0"
  using key_lifetime_overflows [of 60] key_lifetime_overflows [of 106752] by simp

definition some_build :: deps where
  "some_build = some_deps\<lparr>ClientBuilder := Some [''linux/amd64'' \<mapsto> SentinelAPIKey]\<rparr>"

definition some_download :: request where
  "some_download = some_request [] (Some (JObj [(''target_os'', JStr ''linux''), (''target_arch'', JStr ''amd64'')]))"



text \<open>
  Keys are looked up by their first eight characters, of which four are random: while another user's
  active key with the same eight characters stands before it in the table, a good key is refused.
\<close>

theorem colliding_prefix_locks_out:
  assumes "no_fault s" and "api_keys (tables s) = k1 # ks" and "active t k1" and "has_user (tables s) (key_user k1)"
    and "key_prefix k1 = Prefix plainKey" and "\<not> BcryptMatches L (key_hash k1) plainKey"
    and "rq_auth q = ''Bearer '' @ plainKey" and "plainKey \<noteq> []"
  shows "APIKeyMiddleware L t (GetActiveAPIKeyByPrefix t) (UpdateAPIKeyLastUsed t) h no_ctx q s =
    (Inr (respondError 401 ''invalid API key''), s\<lparr>ticks := Suc (ticks s)\<rparr>)"
proof -
  obtain u us where "filter (\<lambda>u. usr_id u = key_user k1) (users (tables s)) = u # us"
    using assms(4) by (auto simp: has_user_def neq_Nil_conv filter_empty_conv dest: filter_eq_ConsD
        split: list.split) (metis (mono_tags, lifting) filter_empty_conv list.exhaust)
  then obtain rs where "key_records t (\<lambda>k. key_prefix k = Prefix plainKey) (tables s) =
      \<lparr>rec_id = key_id k1, rec_user = key_user k1, rec_hash = key_hash k1, rec_role = usr_role u,
        rec_expires = key_expires k1, rec_revoked = key_revoked k1\<rparr> # rs"
    using assms(2,3,5) by (simp add: key_records_def)
  then have "GetActiveAPIKeyByPrefix t (Prefix plainKey) s = (Inr \<lparr>rec_id = key_id k1, rec_user = key_user k1,
      rec_hash = key_hash k1, rec_role = usr_role u, rec_expires = key_expires k1, rec_revoked = key_revoked k1\<rparr>,
      s\<lparr>ticks := Suc (ticks s)\<rparr>)"
    unfolding GetActiveAPIKeyByPrefix_def using assms(1) by (subst one_row_ok) simp_all
  moreover have "bearer (rq_auth q) = Some plainKey" using assms(7) bearer_header by simp
  ultimately show ?thesis
    using assms(6,8) bearer_nonempty by (auto simp: APIKeyMiddleware_def run_simps Prefix_def prefixLen_def)
qed

definition some_key :: APIKey where
  "some_key = \<lparr>key_id = 1, key_user = 2, key_hash = ''#tsk_0123ee'', key_prefix = ''tsk_0123'', key_last_used = 0,
     key_expires = 9, key_revoked = False, key_created = 0, key_revoked_at = None\<rparr>"

lemma colliding_prefix_locks_out_witness:
  "APIKeyMiddleware some_lib 0 (GetActiveAPIKeyByPrefix 0) (UpdateAPIKeyLastUsed 0) some_handler no_ctx
     (some_request (''Bearer '' @ ''tsk_0123ff'') None) (healthy ((some_db [])\<lparr>api_keys := [some_key]\<rparr>)) =
   (Inr (respondError 401 ''invalid API key''), (healthy ((some_db [])\<lparr>api_keys := [some_key]\<rparr>))\<lparr>ticks := Suc 0\<rparr>)"
  using colliding_prefix_locks_out [of "healthy ((some_db [])\<lparr>api_keys := [some_key]\<rparr>)" some_key "[]" 0 "''tsk_0123ff''" some_lib
      "some_request (''Bearer '' @ ''tsk_0123ff'') None" some_handler]
  by (simp add: some_key_def active_def has_user_def some_db_def Prefix_def prefixLen_def some_lib_def some_request_def)

end
