(* ===== verification/End_To_End.thy ===== *)
theory End_To_End
  imports Server_Properties Sync_Queue
begin

text \<open>
  The client and the server together: what the client's HTTP client makes of the server's replies, and
  what a submission of the client's queue leaves in the server's tables.
\<close>

section \<open>The wire\<close>

text \<open>The client's request bodies as \<^verbatim>\<open>encoding/json\<close> writes them: empty notes and summaries are left out.\<close>

definition wire_entry :: "TimesheetEntry \<Rightarrow> json" where
  "wire_entry e = JObj ([(''tag'', JStr (TeTag e)), (''started_at'', JStr (rfc3339_text (TeStarted e))),
     (''ended_at'', JStr (case TeEnded e of None \<Rightarrow> [] | Some t \<Rightarrow> rfc3339_text t)),
     (''duration_s'', JNum (TeDuration e))] @
     optional_text ''notes'' (TeNotes e) @ optional_text ''app_summary'' (TeSummary e))"

definition wire_submission :: "TimesheetSubmission \<Rightarrow> json" where
  "wire_submission sub = JObj [(''client_device_id'', JStr (SubClientDeviceID sub)),
     (''entries'', JArr (map wire_entry (SubEntries sub)))]"

definition wire_registration :: "DeviceRegistration \<Rightarrow> json" where
  "wire_registration d = JObj [(''client_device_id'', JStr (RegClientID d)), (''os'', JStr (RegOS d)),
     (''hostname'', JStr (RegHostname d))]"

text \<open>A reply on the client's side of the connection.\<close>

definition received :: "reply \<Rightarrow> http" where
  "received r = Response (fst r) (case snd r of Json j \<Rightarrow> Some j | _ \<Rightarrow> None)"

lemmas wire_simps = EqualFold_def ToLower_def lower_char_def optional_text_def

section \<open>Submissions\<close>

definition closed_entry :: "TimesheetEntry \<Rightarrow> bool" where
  "closed_entry e = (rfc3339_years (TeStarted e) \<and> (case TeEnded e of None \<Rightarrow> False | Some t \<Rightarrow> rfc3339_years t) \<and>
     pg_int (TeDuration e))"

definition wire_params :: "TimesheetEntry \<Rightarrow> CreateTimesheetEntryParams" where
  "wire_params e = \<lparr>ep_tag = TeTag e, ep_started = parse_rfc3339 (TeStarted e),
     ep_ended = (case TeEnded e of None \<Rightarrow> 0 | Some t \<Rightarrow> parse_rfc3339 t), ep_duration = TeDuration e,
     ep_notes = text_opt (TeNotes e), ep_summary = text_opt (TeSummary e)\<rparr>"

lemma wire_entry_fields:
  "string_field ''tag'' (Some (wire_entry e)) = TeTag e"
  "string_field ''started_at'' (Some (wire_entry e)) = rfc3339_text (TeStarted e)"
  "string_field ''ended_at'' (Some (wire_entry e)) = (case TeEnded e of None \<Rightarrow> [] | Some t \<Rightarrow> rfc3339_text t)"
  "num_field ''duration_s'' (Some (wire_entry e)) = TeDuration e"
  "string_field ''notes'' (Some (wire_entry e)) = TeNotes e"
  "string_field ''app_summary'' (Some (wire_entry e)) = TeSummary e"
  by (simp_all add: wire_entry_def string_field_def num_field_def wire_simps)

lemma parse_wire_entry: "closed_entry e \<Longrightarrow> parse_entry (wire_entry e) = Inr (wire_params e)"
  by (auto simp: parse_entry_def wire_entry_fields closed_entry_def parse_formatted_time wire_params_def
      parse_rfc3339_def split: option.splits)

lemma parse_wire_entries: "\<forall>e \<in> set es. closed_entry e \<Longrightarrow> parse_entries (map wire_entry es) = Inr (map wire_params es)"
  by (induction es) (simp_all add: parse_wire_entry)

lemma parse_open_entry: "rfc3339_years (TeStarted e) \<Longrightarrow> TeEnded e = None \<Longrightarrow>
    parse_entry (wire_entry e) = Inl ''invalid ended_at format, use RFC3339''"
  by (simp add: parse_entry_def wire_entry_fields parse_formatted_time)

lemma wire_entry_fits: "int64 (TeDuration e) \<Longrightarrow> fits entry_shape (wire_entry e)"
  by (simp add: wire_entry_def entry_shape_def wire_simps)

lemma pg_int_int64: "pg_int n \<Longrightarrow> int64 n"
  by (simp add: pg_int_def int64_def)

lemma wire_submission_decodes:
  "\<forall>e \<in> set (SubEntries sub). int64 (TeDuration e) \<Longrightarrow> decode_ok submit_shape (Some (wire_submission sub))"
  by (simp add: decode_ok_def submit_shape_def wire_submission_def wire_simps wire_entry_fits)

lemma wire_submission_fields:
  "string_field ''client_device_id'' (Some (wire_submission sub)) = SubClientDeviceID sub"
  "slice_field ''entries'' (Some (wire_submission sub)) = map wire_entry (SubEntries sub)"
  by (simp_all add: wire_submission_def string_field_def slice_field_def wire_simps)

text \<open>The rows a submission leaves, without the ids the database gives them.\<close>

definition bare :: "entry_row \<Rightarrow> entry_row" where
  "bare e = e\<lparr>en_id := 0, en_timesheet := 0\<rparr>"

definition expected_row :: "TimesheetEntry \<Rightarrow> entry_row" where
  "expected_row e = new_entry 0 0 (wire_params e)"

lemma forM_insert_entry:
  assumes "no_fault s" and "has_timesheet (tables s) i" and "\<forall>p \<in> set ps. pg_int (ep_duration p)"
  shows "\<exists>rows n. forM ps (insert_entry i) s =
      (Inr (), s\<lparr>tables := (tables s)\<lparr>ts_entries := ts_entries (tables s) @ rows\<rparr>, ticks := n\<rparr>) \<and>
      map bare rows = map (new_entry 0 0) ps \<and> (\<forall>r \<in> set rows. en_timesheet r = i)"
  using assms
proof (induction ps arbitrary: s)
  case Nil
  have "forM [] (insert_entry i) s =
      (Inr (), s\<lparr>tables := (tables s)\<lparr>ts_entries := ts_entries (tables s) @ []\<rparr>, ticks := ticks s\<rparr>)"
    by (simp add: ret_def)
  then show ?case by (intro exI [of _ "[]"] exI [of _ "ticks s"]) simp
next
  case (Cons p ps)
  let ?r = "new_entry (next_rowid (map en_id (ts_entries (tables s)))) i p"
  let ?s1 = "s\<lparr>ticks := Suc (ticks s), tables := (tables s)\<lparr>ts_entries := ts_entries (tables s) @ [?r]\<rparr>\<rparr>"
  have one: "insert_entry i p s = (Inr (), ?s1)"
    using Cons.prems by (simp add: insert_entry_def stmt_def Let_def)
  have "no_fault ?s1" "has_timesheet (tables ?s1) i" using Cons.prems by (simp_all add: has_timesheet_def)
  then obtain rows n where rest: "forM ps (insert_entry i) ?s1 =
      (Inr (), ?s1\<lparr>tables := (tables ?s1)\<lparr>ts_entries := ts_entries (tables ?s1) @ rows\<rparr>, ticks := n\<rparr>)"
    "map bare rows = map (new_entry 0 0) ps" "\<forall>r \<in> set rows. en_timesheet r = i"
    using Cons.IH [of ?s1] Cons.prems(3) by auto
  have "forM (p # ps) (insert_entry i) s =
      (Inr (), s\<lparr>tables := (tables s)\<lparr>ts_entries := ts_entries (tables s) @ (?r # rows)\<rparr>, ticks := n\<rparr>)"
    using one rest(1) by (simp add: bindM_def)
  moreover have "bare ?r = new_entry 0 0 p" "en_timesheet ?r = i" by (simp_all add: bare_def new_entry_def)
  ultimately show ?case using rest(2,3) by (intro exI [of _ "?r # rows"] exI [of _ n]) simp
qed

lemma CreateTimesheet_stores:
  assumes "no_fault s" and "has_user (tables s) user" and "has_device (tables s) dev"
    and "\<forall>p \<in> set ps. pg_int (ep_duration p)"
  shows "\<exists>t rows s'. CreateTimesheet now user dev at ps s = (Inr t, s') \<and>
      tables s' = (tables s)\<lparr>timesheets := timesheets (tables s) @ [t], ts_entries := ts_entries (tables s) @ rows\<rparr> \<and>
      ts_user t = user \<and> ts_device t = dev \<and> map bare rows = map (new_entry 0 0) ps \<and>
      (\<forall>r \<in> set rows. en_timesheet r = ts_id t) \<and> no_fault s'"
proof -
  define t where "t = \<lparr>ts_id = next_rowid (map ts_id (timesheets (tables s))), ts_user = user, ts_device = dev,
      ts_submitted = pg_time at, ts_created = now\<rparr>"
  let ?s1 = "s\<lparr>ticks := Suc (ticks s)\<rparr>"
  let ?s2 = "s\<lparr>ticks := Suc (Suc (ticks s)), tables := (tables s)\<lparr>timesheets := timesheets (tables s) @ [t]\<rparr>\<rparr>"
  have ins: "insert_timesheet now user dev at ?s1 = (Inr t, ?s2)"
    using assms by (simp add: insert_timesheet_def stmt_def Let_def t_def)
  have "no_fault ?s2" "has_timesheet (tables ?s2) (ts_id t)" using assms(1) by (simp_all add: has_timesheet_def)
  then obtain rows n where rows: "forM ps (insert_entry (ts_id t)) ?s2 =
      (Inr (), ?s2\<lparr>tables := (tables ?s2)\<lparr>ts_entries := ts_entries (tables ?s2) @ rows\<rparr>, ticks := n\<rparr>)"
    "map bare rows = map (new_entry 0 0) ps" "\<forall>r \<in> set rows. en_timesheet r = ts_id t"
    using forM_insert_entry [of ?s2 "ts_id t" ps] assms(4) by blast
  let ?s3 = "?s2\<lparr>tables := (tables ?s2)\<lparr>ts_entries := ts_entries (tables ?s2) @ rows\<rparr>, ticks := n\<rparr>"
  have "CreateTimesheet now user dev at ps s = (Inr t, ?s3\<lparr>ticks := Suc n\<rparr>)"
    using assms(1) ins rows(1) by (simp add: CreateTimesheet_def in_tx_def stmt_def bindM_def ret_def Let_def)
  then show ?thesis
    using rows(2,3) assms(1) by (intro exI [of _ t] exI [of _ rows] exI [of _ "?s3\<lparr>ticks := Suc n\<rparr>"]) (simp add: t_def)
qed

text \<open>A request of the client's queue, let through as \<open>user\<close> with the key \<open>key\<close>.\<close>

definition as_client :: "uuid \<Rightarrow> string \<Rightarrow> uuid \<Rightarrow> auth_ctx" where
  "as_client user role key = \<lparr>ctx_user = Some user, ctx_role = Some role, ctx_key = Some key, ctx_type = Some AuthTypeAPIKey\<rparr>"

lemma submission_stored:
  assumes "no_fault s" and "has_user (tables s) user"
    and "row_at device_key (SubClientDeviceID sub, key) (devices (tables s)) = Some dev" and "SubClientDeviceID sub \<noteq> []"
    and "SubEntries sub \<noteq> []" and "\<forall>e \<in> set (SubEntries sub). closed_entry e"
    and "rq_body r = Some (wire_submission sub)"
  shows "\<exists>reply s' t rows. timesheetSubmitHandler L C (as_client user role key) r s = (Inr reply, s') \<and> fst reply = 201 \<and>
      tables s' = (tables s)\<lparr>timesheets := timesheets (tables s) @ [t], ts_entries := ts_entries (tables s) @ rows\<rparr> \<and>
      ts_user t = user \<and> ts_device t = dev_id dev \<and> map bare rows = map expected_row (SubEntries sub) \<and>
      (\<forall>e \<in> set rows. en_timesheet e = ts_id t) \<and> no_fault s' \<and>
      SubmitTimesheet (received reply) =
        Inr \<lparr>RespID = UuidString L (ts_id t), RespSubmittedAt = time_json (ts_submitted t)\<rparr>"
proof -
  let ?s1 = "s\<lparr>ticks := Suc (ticks s)\<rparr>"
  let ?ps = "map wire_params (SubEntries sub)"
  have dec: "decode_ok submit_shape (rq_body r)"
    using assms(6,7) by (auto simp: closed_entry_def intro!: wire_submission_decodes pg_int_int64)
  have dev: "has_device (tables s) (dev_id dev)"
    using row_at_Some [OF assms(3)] by (simp add: has_device_def)
  have "\<forall>p \<in> set ?ps. pg_int (ep_duration p)"
    using assms(6) by (auto simp: closed_entry_def wire_params_def)
  then obtain t rows s' where create: "CreateTimesheet (db_now C) user (dev_id dev) (app_now C) ?ps ?s1 = (Inr t, s')"
    and tabs: "tables s' = (tables s)\<lparr>timesheets := timesheets (tables s) @ [t], ts_entries := ts_entries (tables s) @ rows\<rparr>"
    and row: "ts_user t = user" "ts_device t = dev_id dev" "map bare rows = map (new_entry 0 0) ?ps"
      "\<forall>r \<in> set rows. en_timesheet r = ts_id t" "no_fault s'"
    using CreateTimesheet_stores [of ?s1 user "dev_id dev" ?ps "db_now C" "app_now C"] assms(1,2) dev
    by (auto simp: has_user_def has_device_def)
  define reply where "reply = respondJSON 201 (JObj [(''id'', json_uuid L (ts_id t)),
      (''submitted_at'', json_time (ts_submitted t)), (''entry_count'', JNum (int (length ?ps)))])"
  have "timesheetSubmitHandler L C (as_client user role key) r s = (Inr reply, s')"
    using assms(1,3-7) dec create
    by (simp add: timesheetSubmitHandler_def as_client_def wire_submission_fields Let_def try_db_def bindM_def attempt_def
        GetDeviceByClientID_def one_row_def stmt_def parse_wire_entries ret_def reply_def)
  moreover have "SubmitTimesheet (received reply) =
      Inr \<lparr>RespID = UuidString L (ts_id t), RespSubmittedAt = time_json (ts_submitted t)\<rparr>"
    by (simp add: reply_def received_def respondJSON_def SubmitTimesheet_def post_def json_uuid_def json_time_def
        decodes_def string_field_def wire_simps)
  moreover have "map bare rows = map expected_row (SubEntries sub)"
    using row(3) by (simp add: expected_row_def [abs_def] comp_def)
  ultimately show ?thesis
    using tabs row by (intro exI [of _ reply] exI [of _ s'] exI [of _ t] exI [of _ rows]) (simp add: reply_def)
qed


definition some_entry :: TimesheetEntry where
  "some_entry = \<lparr>TeTag = ''dev'', TeStarted = 0, TeEnded = Some 60, TeDuration = 60, TeNotes = ''n'', TeSummary = []\<rparr>"

definition some_sub :: TimesheetSubmission where
  "some_sub = \<lparr>SubClientDeviceID = ''laptop'', SubEntries = [some_entry, some_entry\<lparr>TeStarted := 60, TeEnded := Some 90, TeDuration := 30\<rparr>]\<rparr>"

lemma some_sub_facts: "SubEntries some_sub \<noteq> []" "\<forall>e \<in> set (SubEntries some_sub). closed_entry e" "SubClientDeviceID some_sub = ''laptop''"
proof -
  have years: "rfc3339_years 0" "rfc3339_years 60" "rfc3339_years 90" by code_simp+
  show "SubEntries some_sub \<noteq> []" "\<forall>e \<in> set (SubEntries some_sub). closed_entry e" "SubClientDeviceID some_sub = ''laptop''"
    using years by (simp_all add: some_sub_def some_entry_def closed_entry_def pg_int_def)
qed


text \<open>
  A client that never hears the answer sends the submission again, and the server, which keeps no
  trace of what a client has sent, stores it again: two timesheets with the same entries.
\<close>

theorem resent_submission_is_doubled:
  assumes "no_fault s" and "has_user (tables s) user"
    and "row_at device_key (SubClientDeviceID sub, key) (devices (tables s)) = Some dev" and "SubClientDeviceID sub \<noteq> []"
    and "SubEntries sub \<noteq> []" and "\<forall>e \<in> set (SubEntries sub). closed_entry e"
    and "rq_body r = Some (wire_submission sub)"
  shows "\<exists>reply1 s1 t1 rows1 reply2 s2 t2 rows2.
      timesheetSubmitHandler L C (as_client user role key) r s = (Inr reply1, s1) \<and> fst reply1 = 201 \<and>
      timesheetSubmitHandler L C2 (as_client user role key) r s1 = (Inr reply2, s2) \<and> fst reply2 = 201 \<and>
      timesheets (tables s2) = timesheets (tables s) @ [t1, t2] \<and>
      ts_entries (tables s2) = ts_entries (tables s) @ rows1 @ rows2 \<and> ts_user t1 = user \<and> ts_user t2 = user \<and>
      map bare rows1 = map expected_row (SubEntries sub) \<and> map bare rows2 = map expected_row (SubEntries sub)"
proof -
  obtain reply1 s1 t1 rows1 where 1: "timesheetSubmitHandler L C (as_client user role key) r s = (Inr reply1, s1)"
    "fst reply1 = 201" "tables s1 = (tables s)\<lparr>timesheets := timesheets (tables s) @ [t1], ts_entries := ts_entries (tables s) @ rows1\<rparr>"
    "ts_user t1 = user" "map bare rows1 = map expected_row (SubEntries sub)" "no_fault s1"
    using submission_stored [OF assms, of L C role] by blast
  have "has_user (tables s1) user" "row_at device_key (SubClientDeviceID sub, key) (devices (tables s1)) = Some dev"
    using 1(3) assms(2,3) by (simp_all add: has_user_def)
  then obtain reply2 s2 t2 rows2 where "timesheetSubmitHandler L C2 (as_client user role key) r s1 = (Inr reply2, s2)"
    "fst reply2 = 201" "tables s2 = (tables s1)\<lparr>timesheets := timesheets (tables s1) @ [t2], ts_entries := ts_entries (tables s1) @ rows2\<rparr>"
    "ts_user t2 = user" "map bare rows2 = map expected_row (SubEntries sub)"
    using submission_stored [OF 1(6) _ _ assms(4-7), of user key dev L C2 role] by blast
  then show ?thesis using 1
    by (intro exI [of _ reply1] exI [of _ s1] exI [of _ t1] exI [of _ rows1] exI [of _ reply2] exI [of _ s2] exI [of _ t2]
        exI [of _ rows2]) simp
qed

lemma resent_submission_is_doubled_witness:
  "\<exists>reply1 s1 t1 rows1 reply2 s2 t2 rows2.
      timesheetSubmitHandler some_lib (some_clocks 0) (as_client 2 ''member'' 1) (some_request [] (Some (wire_submission some_sub)))
        (healthy (some_db [])) = (Inr reply1, s1) \<and> fst reply1 = 201 \<and>
      timesheetSubmitHandler some_lib (some_clocks minute) (as_client 2 ''member'' 1)
        (some_request [] (Some (wire_submission some_sub))) s1 = (Inr reply2, s2) \<and> fst reply2 = 201 \<and>
      timesheets (tables s2) = timesheets (some_db []) @ [t1, t2] \<and>
      ts_entries (tables s2) = ts_entries (some_db []) @ rows1 @ rows2 \<and> ts_user t1 = 2 \<and> ts_user t2 = 2 \<and>
      map bare rows1 = map expected_row (SubEntries some_sub) \<and> map bare rows2 = map expected_row (SubEntries some_sub)"
proof -
  have "has_user (some_db []) 2" by (simp add: has_user_def some_db_def)
  moreover have "row_at device_key (''laptop'', 1) [some_device] = Some some_device"
    by (simp add: row_at_def device_key_def some_device_def)
  ultimately show ?thesis
    using resent_submission_is_doubled [of "healthy (some_db [])" 2 some_sub 1 some_device
      "some_request [] (Some (wire_submission some_sub))" some_lib "some_clocks 0" "''member''" "some_clocks minute"]
      some_sub_facts by (simp add: some_request_def)
qed

section \<open>What the server refuses, as the client reads it\<close>

lemma parse_entries_open:
  assumes "\<forall>e \<in> set es. rfc3339_years (TeStarted e) \<and> (TeEnded e = None \<or> closed_entry e)" and "\<exists>e \<in> set es. TeEnded e = None"
  shows "parse_entries (map wire_entry es) = Inl ''invalid ended_at format, use RFC3339''"
  using assms
proof (induction es)
  case (Cons e es)
  show ?case
  proof (cases "TeEnded e = None")
    case True
    then show ?thesis using Cons.prems by (simp add: parse_open_entry)
  next
    case False
    then have "closed_entry e" "\<exists>e \<in> set es. TeEnded e = None" using Cons.prems by auto
    then show ?thesis using Cons.IH Cons.prems(1) by (simp add: parse_wire_entry)
  qed
qed simp

text \<open>
  A submission with an entry that is still open is refused as malformed and leaves the server as it
  was; the client cannot tell the refusal from a failed connection, so it is not given up.
\<close>

theorem open_entry_is_refused:
  assumes "no_fault s" and "row_at device_key (SubClientDeviceID sub, key) (devices (tables s)) = Some dev"
    and "SubClientDeviceID sub \<noteq> []" and "\<exists>e \<in> set (SubEntries sub). TeEnded e = None"
    and "\<forall>e \<in> set (SubEntries sub). rfc3339_years (TeStarted e) \<and> int64 (TeDuration e) \<and> (TeEnded e = None \<or> closed_entry e)"
    and "rq_body r = Some (wire_submission sub)"
  shows "\<exists>reply s'. timesheetSubmitHandler L C (as_client user role key) r s = (Inr reply, s') \<and> fst reply = 400 \<and>
      tables s' = tables s \<and> SubmitTimesheet (received reply) = Inl OtherError"
proof -
  have "parse_entries (map wire_entry (SubEntries sub)) = Inl ''invalid ended_at format, use RFC3339''"
    using assms(4,5) by (intro parse_entries_open) auto
  moreover have "decode_ok submit_shape (rq_body r)"
    using assms(5,6) by (auto intro!: wire_submission_decodes)
  moreover have "SubEntries sub \<noteq> []" using assms(4) by auto
  moreover have "GetDeviceByClientID (SubClientDeviceID sub) key s = (Inr dev, s\<lparr>ticks := Suc (ticks s)\<rparr>)"
    unfolding GetDeviceByClientID_def using assms(1,2) by (subst one_row_ok) simp_all
  ultimately have "timesheetSubmitHandler L C (as_client user role key) r s =
      (Inr (respondError 400 ''invalid ended_at format, use RFC3339''), s\<lparr>ticks := Suc (ticks s)\<rparr>)"
    using assms(3,6) by (simp add: timesheetSubmitHandler_def as_client_def wire_submission_fields Let_def run_simps)
  moreover have "SubmitTimesheet (received (respondError 400 ''invalid ended_at format, use RFC3339'')) = Inl OtherError"
    by code_simp
  ultimately show ?thesis by simp
qed

lemma open_entry_is_refused_witness:
  "\<exists>reply s'. timesheetSubmitHandler some_lib (some_clocks 0) (as_client 2 ''member'' 1)
      (some_request [] (Some (wire_submission (some_sub\<lparr>SubEntries := [some_entry, some_entry\<lparr>TeEnded := None\<rparr>]\<rparr>))))
      (healthy (some_db [])) = (Inr reply, s') \<and> fst reply = 400 \<and>
      tables s' = some_db [] \<and> SubmitTimesheet (received reply) = Inl OtherError"
proof -
  have "rfc3339_years 0" "closed_entry some_entry" by code_simp+
  moreover have "row_at device_key (''laptop'', 1) [some_device] = Some some_device"
    by (simp add: row_at_def device_key_def some_device_def)
  ultimately show ?thesis
    using open_entry_is_refused [of "healthy (some_db [])" "some_sub\<lparr>SubEntries := [some_entry, some_entry\<lparr>TeEnded := None\<rparr>]\<rparr>" 1
      some_device "some_request [] (Some (wire_submission (some_sub\<lparr>SubEntries := [some_entry, some_entry\<lparr>TeEnded := None\<rparr>]\<rparr>)))"
      some_lib "some_clocks 0" 2 "''member''"]
    by (simp add: some_request_def some_sub_facts some_entry_def int64_def)
qed

definition live_key :: "lib \<Rightarrow> gotime \<Rightarrow> string \<Rightarrow> server_tables \<Rightarrow> bool" where
  "live_key L t plainKey d \<longleftrightarrow>
     (\<exists>k \<in> set (api_keys d). key_prefix k = Prefix plainKey \<and> active t k \<and> BcryptMatches L (key_hash k) plainKey)"

lemma submit_route:
  assumes "router_law L"
  shows "\<exists>i. serve L D C ''POST'' [''timesheets''] r s =
    bindM (guarded L D C NeedKey (timesheetSubmitHandler L C) no_ctx (r\<lparr>rq_id := i\<rparr>)) (\<lambda>reply. ret (Some reply)) s"
proof -
  let ?x = "route ''POST'' [''timesheets''] NeedKey (timesheetSubmitHandler L C)"
  have "\<exists>i. serve L D C ''POST'' ([''timesheets'']) r s =
      bindM (guarded L D C (Guard ?x) (Handler ?x) no_ctx (r\<lparr>rq_id := i\<rparr>)) (\<lambda>reply. ret (Some reply)) s"
    by (rule served_by [OF assms]) (simp_all add: all_routes)
  then show ?thesis by (simp add: route_def)
qed

lemma received_invalid: "SubmitTimesheet (received (respondError 401 ''invalid API key'')) = Inl ErrKeyInvalid"
  by code_simp

text \<open>
  A key that is unknown, revoked or expired is always reported as an invalid key: the database only
  finds active keys, so the client never learns that its key has expired and must be downloaded again.
\<close>

theorem dead_key_reads_as_invalid:
  assumes "router_law L" and "bearer (rq_auth r) = Some plainKey" and "plainKey \<noteq> []" and "\<not> live_key L (db_now C) plainKey (tables s)"
  shows "\<exists>s'. serve L D C ''POST'' [''timesheets''] r s = (Inr (Some (respondError 401 ''invalid API key'')), s') \<and>
      tables s' = tables s \<and> SubmitTimesheet (received (respondError 401 ''invalid API key'')) = Inl ErrKeyInvalid"
proof -
  obtain i where route: "serve L D C ''POST'' [''timesheets''] r s =
      bindM (guarded L D C NeedKey (timesheetSubmitHandler L C) no_ctx (r\<lparr>rq_id := i\<rparr>)) (\<lambda>reply. ret (Some reply)) s"
    using submit_route [OF assms(1)] by blast
  let ?q = "r\<lparr>rq_id := i\<rparr>"
  have ne: "rq_auth r \<noteq> []" "Prefix plainKey \<noteq> []"
    using assms(2,3) by (auto simp: bearer_nonempty Prefix_def prefixLen_def)
  obtain x s1 where look: "GetActiveAPIKeyByPrefix (db_now C) (Prefix plainKey) s = (x, s1)" by fastforce
  have same: "tables s1 = tables s" using srv_keys.lookup_same [of "db_now C" "Prefix plainKey" s] look by simp
  have "\<exists>s'. APIKeyMiddleware L (app_now C) (GetActiveAPIKeyByPrefix (db_now C)) (UpdateAPIKeyLastUsed (db_now C))
      (timesheetSubmitHandler L C) no_ctx ?q s = (Inr (respondError 401 ''invalid API key''), s') \<and> tables s' = tables s"
  proof (cases x)
    case (Inl e)
    then show ?thesis using assms(2) ne look same by (simp add: APIKeyMiddleware_def run_simps)
  next
    case (Inr k)
    have "key_of_record (db_now C) (tables s) (Prefix plainKey) k" using srv_keys.lookup_known look Inr by blast
    then have "\<not> BcryptMatches L (rec_hash k) plainKey" using assms(4) by (auto simp: key_of_record_def live_key_def)
    then show ?thesis using assms(2) ne look same Inr by (simp add: APIKeyMiddleware_def run_simps)
  qed
  then show ?thesis
    by (auto simp: route guarded_def bindM_def ret_def received_invalid)
qed

lemma dead_key_reads_as_invalid_witness:
  "\<exists>s'. serve some_lib some_deps (some_clocks (6 * second)) ''POST'' [''timesheets''] (some_request (''Bearer '' @ ''tsk_1'') None)
      (healthy (some_db [])) = (Inr (Some (respondError 401 ''invalid API key'')), s') \<and>
      tables s' = some_db [] \<and> SubmitTimesheet (received (respondError 401 ''invalid API key'')) = Inl ErrKeyInvalid"
proof -
  have "\<not> live_key some_lib (6 * second) ''tsk_1'' (some_db [])"
    by (simp add: live_key_def active_def some_db_def second_def)
  then show ?thesis
    using dead_key_reads_as_invalid [OF some_lib_laws(3), of "some_request (''Bearer '' @ ''tsk_1'') None" "''tsk_1''"
      "some_clocks (6 * second)" "healthy (some_db [])" some_deps] bearer_header [of "''tsk_1''"]
    by (simp add: some_request_def some_clocks_def)
qed

text \<open>
  The same reply is given for a good key while the database cannot be reached: the client takes an
  outage of the server for a key that will never work again.
\<close>

theorem outage_reads_as_invalid_key:
  assumes "router_law L" and "bearer (rq_auth r) = Some plainKey" and "plainKey \<noteq> []" and "fault s (ticks s)"
  shows "\<exists>s'. serve L D C ''POST'' [''timesheets''] r s = (Inr (Some (respondError 401 ''invalid API key'')), s') \<and>
      SubmitTimesheet (received (respondError 401 ''invalid API key'')) = Inl ErrKeyInvalid"
proof -
  obtain i where route: "serve L D C ''POST'' [''timesheets''] r s =
      bindM (guarded L D C NeedKey (timesheetSubmitHandler L C) no_ctx (r\<lparr>rq_id := i\<rparr>)) (\<lambda>reply. ret (Some reply)) s"
    using submit_route [OF assms(1)] by blast
  have ne: "rq_auth r \<noteq> []" "Prefix plainKey \<noteq> []"
    using assms(2,3) by (auto simp: bearer_nonempty Prefix_def prefixLen_def)
  then have "\<exists>s'. APIKeyMiddleware L (app_now C) (GetActiveAPIKeyByPrefix (db_now C)) (UpdateAPIKeyLastUsed (db_now C))
      (timesheetSubmitHandler L C) no_ctx (r\<lparr>rq_id := i\<rparr>) s =
      (Inr (respondError 401 ''invalid API key''), s')"
    using assms(2,4) by (simp add: APIKeyMiddleware_def run_simps GetActiveAPIKeyByPrefix_def one_row_def stmt_def Let_def)
  then show ?thesis
    by (auto simp: route guarded_def bindM_def ret_def received_invalid)
qed

lemma outage_reads_as_invalid_key_witness:
  "\<exists>s'. serve some_lib some_deps (some_clocks 0) ''POST'' [''timesheets''] (some_request (''Bearer '' @ ''tsk_1'') None)
      \<lparr>tables = some_db [], fault = (\<lambda>_. True), ticks = 0\<rparr> = (Inr (Some (respondError 401 ''invalid API key'')), s') \<and>
      SubmitTimesheet (received (respondError 401 ''invalid API key'')) = Inl ErrKeyInvalid"
  using outage_reads_as_invalid_key [OF some_lib_laws(3), of "some_request (''Bearer '' @ ''tsk_1'') None" "''tsk_1''"
      "\<lparr>tables = some_db [], fault = (\<lambda>_. True), ticks = 0\<rparr>" some_deps "some_clocks 0"] bearer_header [of "''tsk_1''"]
  by (simp add: some_request_def)

end
