(* ===== verification/Web_UI.thy ===== *)
theory Web_UI
  imports Auto_Submit Tagger Go_Time
begin

text \<open>
  The dashboard of the client daemon (\<^verbatim>\<open>internal/client/webui/api.go\<close>): its handlers as programs on
  the client's store, each with every reply it can give. Path values and query values are arguments;
  the text of an error of the database is the text of the model's error.
\<close>

section \<open>Replies\<close>

type_synonym web_reply = "int \<times> json"

definition jsonOK :: "json \<Rightarrow> web_reply" where
  "jsonOK v = (200, v)"

definition jsonError :: "int \<Rightarrow> string \<Rightarrow> web_reply" where
  "jsonError code m = (code, JObj [(''error'', JStr m)])"

lemma fst_json [simp]: "fst (jsonOK v) = 200" "fst (jsonError c m) = c"
  by (simp_all add: jsonOK_def jsonError_def)

fun err_text :: "err \<Rightarrow> string" where
  "err_text (EDb m) = m"
| "err_text (EConstraint m) = m"
| "err_text (ENotFound m) = m"
| "err_text (EUnknownTag i) = ''unknown tag ''"
| "err_text (EInterval h) = ''invalid interval''"
| "err_text (EInvalid m) = m"

definition internal :: "string \<Rightarrow> err \<Rightarrow> web_reply" where
  "internal what e = jsonError 500 (what @ err_text e)"

definition status_json :: "string \<Rightarrow> json" where
  "status_json st = JObj [(''status'', JStr st)]"

definition opt_member :: "string \<Rightarrow> ('a \<Rightarrow> json) \<Rightarrow> 'a option \<Rightarrow> (string \<times> json) list" where
  "opt_member name f v = (case v of None \<Rightarrow> [] | Some x \<Rightarrow> [(name, f x)])"

definition stamp_json :: "stamp \<Rightarrow> json" where
  "stamp_json t = JStr (rfc3339_text t)"

text \<open>An id in a path.\<close>

definition with_id :: "string \<Rightarrow> string \<Rightarrow> (rowid \<Rightarrow> web_reply client) \<Rightarrow> web_reply client" where
  "with_id p m k = (case Atoi p of None \<Rightarrow> ret (jsonError 400 m) | Some i \<Rightarrow> k i)"

section \<open>Events\<close>

text \<open>SQLite compares texts byte by byte.\<close>

fun text_le :: "string \<Rightarrow> string \<Rightarrow> bool" where
  "text_le [] ys = True"
| "text_le (x # xs) [] = False"
| "text_le (x # xs) (y # ys) = (x < y \<or> x = y \<and> text_le xs ys)"

text \<open>\<^verbatim>\<open>LEFT JOIN event_tags LEFT JOIN tags LEFT JOIN notes\<close>: name and colour of a tag and text of a note.\<close>

definition event_joins :: "client_tables \<Rightarrow> rowid \<Rightarrow> (tag_row option \<times> note_row option) list" where
  "event_joins d e =
     [(t, n). et \<leftarrow> left_join (filter (\<lambda>r. et_event r = e) (event_tags d)),
              t \<leftarrow> (case et of None \<Rightarrow> [None] | Some r \<Rightarrow> left_join (filter (\<lambda>t. tag_id t = et_tag r) (tags d))),
              n \<leftarrow> left_join (filter (\<lambda>n. note_anchor n = e) (event_notes d))]"

definition event_json :: "focus_row \<Rightarrow> tag_row option \<times> note_row option \<Rightarrow> json" where
  "event_json fe j = JObj ([(''id'', JNum (fe_id fe)), (''app_name'', JStr (fe_app fe)),
     (''window_title'', JStr (fe_title fe)), (''started_at'', stamp_json (fe_started fe))] @
     opt_member ''ended_at'' stamp_json (fe_ended fe) @ opt_member ''duration_s'' JNum (fe_duration fe) @
     [(''is_idle'', JBool (fe_idle fe))] @
     optional_text ''tag_name'' (case fst j of None \<Rightarrow> [] | Some t \<Rightarrow> tag_name t) @
     optional_text ''tag_color'' (case fst j of None \<Rightarrow> [] | Some t \<Rightarrow> tag_color t) @
     optional_text ''note_text'' (case snd j of None \<Rightarrow> [] | Some n \<Rightarrow> note_text n))"

definition in_day :: "string \<Rightarrow> focus_row \<Rightarrow> bool" where
  "in_day date fe =
     (text_le (date @ ''T00:00:00Z'') (rfc3339_text (fe_started fe)) \<and>
      text_le (rfc3339_text (fe_started fe)) (date @ ''T23:59:59Z''))"

definition handleGetEvents :: "gotime \<Rightarrow> string \<Rightarrow> web_reply client" where
  "handleGetEvents now date =
     (let day = (if date = [] then date_text (rfc3339 now div 86400 + unix_epoch) else date) in
      try_db (query ''query events'' (\<lambda>d.
          [event_json fe j. fe \<leftarrow> order_desc fe_started (filter (in_day day) (focus_events d)),
             j \<leftarrow> event_joins d (fe_id fe)]))
        (internal ''failed to query events: '') (\<lambda>es. ret (jsonOK (JArr es))))"

section \<open>Tags\<close>

definition handleGetTags :: "web_reply client" where
  "handleGetTags =
     try_db (query ''list tags'' (\<lambda>d. map (\<lambda>t. JObj [(''id'', JNum (tag_id t)), (''name'', JStr (tag_name t)),
          (''color'', JStr (tag_color t)), (''created_at'', stamp_json (tag_created t))]) (order_asc tag_name (tags d))))
       (internal []) (\<lambda>ts. ret (jsonOK (JArr ts)))"

definition tag_shape :: shape where
  "tag_shape = SStruct [(''name'', SString), (''color'', SString)]"

definition tag_error :: "err \<Rightarrow> web_reply" where
  "tag_error e = (if Contains (err_text e) ''UNIQUE'' then jsonError 409 ''tag name already exists'' else internal [] e)"

definition handleCreateTag :: "gotime \<Rightarrow> body \<Rightarrow> web_reply client" where
  "handleCreateTag now b =
     (if \<not> decode_ok tag_shape b then ret (jsonError 400 ''invalid JSON: '')
      else let name = string_field ''name'' b; color = string_field ''color'' b in
        if name = [] \<or> color = [] then ret (jsonError 400 ''name and color are required'')
        else try_db (CreateTag now name color) tag_error
          (\<lambda>i. ret (jsonOK (JObj [(''id'', JNum i), (''name'', JStr name), (''color'', JStr color)]))))"

text \<open>\<^verbatim>\<open>UPDATE tags\<close> with the number of rows it affects.\<close>

definition update_tag :: "rowid \<Rightarrow> string \<Rightarrow> string \<Rightarrow> nat client" where
  "update_tag i name color =
     stmt ''update tag'' (\<lambda>d.
       if has_tag d i \<and> (\<exists>r \<in> set (tags d). tag_id r \<noteq> i \<and> tag_name r = name)
       then Inl (EConstraint ''UNIQUE tags.name'')
       else Inr (affected (\<lambda>r. tag_id r = i) (tags d),
                 d\<lparr>tags := sql_update (\<lambda>r. tag_id r = i) (tag_set name color) (tags d)\<rparr>))"

definition handleUpdateTag :: "string \<Rightarrow> body \<Rightarrow> web_reply client" where
  "handleUpdateTag path b =
     with_id path ''invalid tag id'' (\<lambda>i.
       if \<not> decode_ok tag_shape b then ret (jsonError 400 ''invalid JSON: '')
       else let name = TrimSpace (string_field ''name'' b); color = string_field ''color'' b in
         if name = [] \<or> color = [] then ret (jsonError 400 ''name and color are required'')
         else try_db (update_tag i name color) tag_error (\<lambda>n.
           if n = 0 then ret (jsonError 404 ''tag not found'')
           else ret (jsonOK (JObj [(''id'', JNum i), (''name'', JStr name), (''color'', JStr color),
                 (''status'', JStr ''updated'')]))))"

definition tag_event_shape :: shape where "tag_event_shape = SStruct [(''tag_id'', SInt)]"

text \<open>\<^verbatim>\<open>INSERT OR REPLACE\<close>: a row with the same event and tag is deleted first.\<close>

definition replace_event_tag :: "rowid \<Rightarrow> rowid \<Rightarrow> unit client" where
  "replace_event_tag e t =
     stmt ''tag event'' (\<lambda>d.
       if fk_ok d (has_event d e \<and> has_tag d t)
       then Inr ((), d\<lparr>event_tags := sql_delete (\<lambda>r. et_event r = e \<and> et_tag r = t) (event_tags d) @
              [\<lparr>et_event = e, et_tag = t, et_source = Manual, et_cascade_from = None\<rparr>]\<rparr>)
       else Inl (EConstraint ''FOREIGN KEY''))"

definition handleTagEvent :: "string \<Rightarrow> body \<Rightarrow> web_reply client" where
  "handleTagEvent path b =
     with_id path ''invalid event id'' (\<lambda>e.
       if \<not> decode_ok tag_event_shape b then ret (jsonError 400 ''invalid JSON'')
       else try_db (replace_event_tag e (num_field ''tag_id'' b)) (internal []) (\<lambda>_. ret (jsonOK (status_json ''ok''))))"

definition note_shape :: shape where "note_shape = SStruct [(''text'', SString)]"

definition handleAddNote :: "gotime \<Rightarrow> string \<Rightarrow> body \<Rightarrow> web_reply client" where
  "handleAddNote now path b =
     with_id path ''invalid event id'' (\<lambda>e.
       if \<not> decode_ok note_shape b then ret (jsonError 400 ''invalid JSON'')
       else if string_field ''text'' b = [] then ret (jsonError 400 ''text is required'')
       else try_db (CreateNote now e (string_field ''text'' b)) (internal [])
         (\<lambda>i. ret (jsonOK (JObj [(''id'', JNum i)]))))"

section \<open>Submissions\<close>

definition submission_json :: "submission_row \<Rightarrow> json" where
  "submission_json r = JObj ([(''id'', JNum (sub_id r))] @
     optional_text ''server_id'' (case sub_server_id r of None \<Rightarrow> [] | Some s \<Rightarrow> s) @
     [(''submitted_at'', stamp_json (sub_submitted r)), (''status'', JStr (sub_status r)),
      (''retry_count'', JNum (sub_retries r))])"

definition handleGetSubmissions :: "web_reply client" where
  "handleGetSubmissions =
     try_db (query ''list submissions'' (\<lambda>d. map submission_json (take 50 (order_desc sub_submitted (submissions d)))))
       (internal []) (\<lambda>rs. ret (jsonOK (JArr rs)))"

definition submit_ids_shape :: shape where
  "submit_ids_shape = SStruct [(''event_ids'', SSlice SInt)]"

definition int_elem :: "json \<Rightarrow> int" where
  "int_elem v = (case the_num v of None \<Rightarrow> 0 | Some n \<Rightarrow> n)"

definition web_submission :: "gotime \<Rightarrow> rowid list \<Rightarrow> rowid client" where
  "web_submission now ids =
     in_tx ''begin'' ''commit''
       (bindM (insert_submission ''insert submission'' (rfc3339 now)) (\<lambda>subID.
        bindM (forM ids (LinkEventToSubmission subID)) (\<lambda>_. ret subID)))"

definition handleSubmit :: "gotime \<Rightarrow> body \<Rightarrow> web_reply client" where
  "handleSubmit now b =
     (if \<not> decode_ok submit_ids_shape b then ret (jsonError 400 ''invalid JSON'')
      else let ids = map int_elem (slice_field ''event_ids'' b) in
        if ids = [] then ret (jsonError 400 ''event_ids required'')
        else try_db (web_submission now ids) (internal [])
          (\<lambda>i. ret (jsonOK (JObj [(''submission_id'', JNum i), (''status'', JStr ''pending'')]))))"

section \<open>Pomodoro\<close>

definition pomodoro_json :: "pomodoro_row \<Rightarrow> json" where
  "pomodoro_json p = JObj ([(''id'', JNum (pm_id p)), (''started_at'', stamp_json (pm_started p))] @
     opt_member ''ended_at'' stamp_json (pm_ended p) @
     [(''work_mins'', JNum (pm_work p)), (''break_mins'', JNum (pm_break p)), (''status'', JStr (pm_status p))] @
     opt_member ''tag_id'' JNum (pm_tag p))"

definition handleGetPomodoro :: "web_reply client" where
  "handleGetPomodoro =
     try_db (query ''list pomodoro'' (\<lambda>d. map pomodoro_json (take 20 (order_desc pm_started (pomodoro_sessions d)))))
       (internal []) (\<lambda>ps. ret (jsonOK (JArr ps)))"

definition pomodoro_shape :: shape where
  "pomodoro_shape = SStruct [(''work_mins'', SInt), (''break_mins'', SInt), (''tag_id'', SInt)]"

definition minutes_or :: "int \<Rightarrow> int \<Rightarrow> int" where
  "minutes_or n m = (if n \<le> 0 then m else n)"

definition handleStartPomodoro :: "gotime \<Rightarrow> body \<Rightarrow> web_reply client" where
  "handleStartPomodoro now b =
     (if \<not> decode_ok pomodoro_shape b then ret (jsonError 400 ''invalid JSON'')
      else try_db (PomodoroCreate now (minutes_or (num_field ''work_mins'' b) 25) (minutes_or (num_field ''break_mins'' b) 5)
            ''work'' (num_ptr ''tag_id'' b)) (internal [])
          (\<lambda>i. ret (jsonOK (JObj [(''id'', JNum i), (''status'', JStr ''work'')]))))"

definition running :: "pomodoro_row \<Rightarrow> bool" where
  "running p = (pm_status p \<in> {''work'', ''break''})"

definition stop_pomodoro :: "stamp \<Rightarrow> nat client" where
  "stop_pomodoro t =
     stmt ''stop pomodoro'' (\<lambda>d. Inr (affected running (pomodoro_sessions d),
       d\<lparr>pomodoro_sessions := sql_update running (pm_end_row t ''cancelled'') (pomodoro_sessions d)\<rparr>))"

definition handleStopPomodoro :: "gotime \<Rightarrow> web_reply client" where
  "handleStopPomodoro now =
     try_db (stop_pomodoro (rfc3339 now)) (internal []) (\<lambda>n.
       ret (if n = 0 then jsonError 404 ''no active pomodoro session'' else jsonOK (status_json ''cancelled'')))"

section \<open>Status\<close>

text \<open>
  \<open>provider\<close> is the registered \<^verbatim>\<open>StatusProvider\<close>: its two states, and its two times, which it reads
  from the store (zero is \<open>None\<close>). The uptime is in whole seconds.
\<close>

record provider =
  PresenceState :: string
  ScreenLockState :: string
  LastLayoutSnapshot :: "gotime option client"
  LastServerSync :: "gotime option client"

definition time_member :: "string \<Rightarrow> gotime option \<Rightarrow> (string \<times> json) list" where
  "time_member name t = opt_member name (\<lambda>x. JStr (format_rfc3339 x)) t"

definition handleStatus :: "int \<Rightarrow> int \<Rightarrow> gotime option \<Rightarrow> gotime \<Rightarrow> provider option \<Rightarrow> web_reply client" where
  "handleStatus pid port started now sp =
     (let base = [(''pid'', JNum pid), (''port'', JNum port)] @ time_member ''started_at'' started @
            [(''uptime_seconds'', JNum (case started of None \<Rightarrow> 0 | Some t \<Rightarrow> (now - t) div second))]
      in case sp of
           None \<Rightarrow> ret (jsonOK (JObj base))
         | Some p \<Rightarrow>
             bindM (LastLayoutSnapshot p) (\<lambda>snap.
             bindM (LastServerSync p) (\<lambda>synced.
             ret (jsonOK (JObj (base @ optional_text ''presence_state'' (PresenceState p) @
               optional_text ''screen_lock_state'' (ScreenLockState p) @
               time_member ''last_layout_snapshot'' snap @ time_member ''last_server_sync'' synced))))))"

section \<open>Tag rules\<close>

definition rule_json :: "Rule \<Rightarrow> json" where
  "rule_json r = JObj ([(''id'', JNum (RuleID r)), (''tag_id'', JNum (RuleTag r)), (''tag_name'', JStr (RuleTagName r)),
     (''app_pattern'', JStr (AppPattern r))] @ opt_member ''title_pattern'' JStr (TitlePattern r) @
     [(''priority'', JNum (Priority r)), (''suggested'', JBool (Suggested r)), (''hit_count'', JNum (HitCount r))])"

text \<open>\<^verbatim>\<open>ORDER BY suggested ASC, priority DESC\<close>\<close>

definition listing_key :: "Rule \<Rightarrow> int \<times> int" where
  "listing_key r = (if Suggested r then 1 else 0, - Priority r)"

definition handleGetTagRules :: "web_reply client" where
  "handleGetTagRules =
     try_db (query ''list rules'' (\<lambda>d. map rule_json (order_asc listing_key (joined_rules d))))
       (internal []) (\<lambda>rs. ret (jsonOK (JArr rs)))"

definition rule_shape :: shape where
  "rule_shape = SStruct [(''tag_id'', SInt), (''app_pattern'', SString), (''title_pattern'', SString), (''priority'', SInt)]"

definition handleCreateTagRule :: "gotime \<Rightarrow> body \<Rightarrow> web_reply client" where
  "handleCreateTagRule now b =
     (if \<not> decode_ok rule_shape b then ret (jsonError 400 ''invalid JSON'')
      else if num_field ''tag_id'' b = 0 \<or> string_field ''app_pattern'' b = []
      then ret (jsonError 400 ''tag_id and app_pattern are required'')
      else try_db (CreateRule now (num_field ''tag_id'' b) (string_field ''app_pattern'' b) (string_ptr ''title_pattern'' b)
            (num_field ''priority'' b) False) (internal [])
          (\<lambda>i. ret (jsonOK (JObj [(''id'', JNum i), (''status'', JStr ''created'')]))))"

text \<open>Statements on the rules, with the number of rows they affect.\<close>

definition change_rules :: "(rule_row \<Rightarrow> bool) \<Rightarrow> (rule_row \<Rightarrow> rule_row) \<Rightarrow> nat client" where
  "change_rules p f =
     stmt ''update rule'' (\<lambda>d. Inr (affected p (tag_rules d), d\<lparr>tag_rules := sql_update p f (tag_rules d)\<rparr>))"

definition delete_rule :: "rowid \<Rightarrow> nat client" where
  "delete_rule i =
     stmt ''delete rule'' (\<lambda>d. Inr (affected (\<lambda>r. rr_id r = i) (tag_rules d),
       d\<lparr>tag_rules := sql_delete (\<lambda>r. rr_id r = i) (tag_rules d)\<rparr>))"

definition changed :: "string \<Rightarrow> string \<Rightarrow> nat \<Rightarrow> web_reply client" where
  "changed missing st n = ret (if n = 0 then jsonError 404 missing else jsonOK (status_json st))"

definition handleDeleteTagRule :: "string \<Rightarrow> web_reply client" where
  "handleDeleteTagRule path =
     with_id path ''invalid rule id'' (\<lambda>i. try_db (delete_rule i) (internal []) (changed ''rule not found'' ''deleted''))"

definition unsuggest :: "rule_row \<Rightarrow> rule_row" where
  "unsuggest r = r\<lparr>rr_suggested := False\<rparr>"

definition handleAcceptTagRule :: "string \<Rightarrow> web_reply client" where
  "handleAcceptTagRule path =
     with_id path ''invalid rule id'' (\<lambda>i.
       try_db (change_rules (\<lambda>r. rr_id r = i \<and> rr_suggested r) unsuggest) (internal [])
         (changed ''rule not found or not suggested'' ''accepted''))"

definition edit_rule :: "rowid \<Rightarrow> string \<Rightarrow> string option \<Rightarrow> rule_row \<Rightarrow> rule_row" where
  "edit_rule t app title r = r\<lparr>rr_tag := t, rr_app := app, rr_title := title\<rparr>"

definition put_rule :: "rowid \<Rightarrow> rowid \<Rightarrow> string \<Rightarrow> string option \<Rightarrow> nat client" where
  "put_rule i t app title =
     stmt ''update rule'' (\<lambda>d.
       if affected (\<lambda>r. rr_id r = i) (tag_rules d) = 0 \<or> fk_ok d (has_tag d t)
       then Inr (affected (\<lambda>r. rr_id r = i) (tag_rules d),
              d\<lparr>tag_rules := sql_update (\<lambda>r. rr_id r = i) (edit_rule t app title) (tag_rules d)\<rparr>)
       else Inl (EConstraint ''FOREIGN KEY''))"

text \<open>An empty title pattern is stored as \<^verbatim>\<open>NULL\<close>.\<close>

definition trimmed_title :: "string option \<Rightarrow> string option" where
  "trimmed_title p = (case p of None \<Rightarrow> None | Some s \<Rightarrow> if TrimSpace s = [] then None else Some (TrimSpace s))"

definition rule_edit_shape :: shape where
  "rule_edit_shape = SStruct [(''tag_id'', SInt), (''app_pattern'', SString), (''title_pattern'', SString)]"

definition handleUpdateTagRule :: "string \<Rightarrow> body \<Rightarrow> web_reply client" where
  "handleUpdateTagRule path b =
     with_id path ''invalid rule id'' (\<lambda>i.
       if \<not> decode_ok rule_edit_shape b then ret (jsonError 400 ''invalid JSON'')
       else let t = num_field ''tag_id'' b; app = TrimSpace (string_field ''app_pattern'' b) in
         if t = 0 \<or> app = [] then ret (jsonError 400 ''tag_id and app_pattern are required'')
         else try_db (query ''count tags'' (\<lambda>d. affected (\<lambda>r. tag_id r = t) (tags d))) (internal []) (\<lambda>n.
           if n = 0 then ret (jsonError 400 ''tag not found'')
           else try_db (put_rule i t app (trimmed_title (string_ptr ''title_pattern'' b))) (internal [])
             (changed ''rule not found'' ''updated'')))"


section \<open>Auto-submit\<close>

definition settings_reply :: "Settings \<Rightarrow> web_reply" where
  "settings_reply st = jsonOK (JObj ([(''interval_hours'', JNum (IntervalHours st)), (''enabled'', JBool (Enabled st)),
     (''tag_ids'', JArr (map JNum (TagIDs st)))] @ time_member ''enabled_at'' (EnabledAt st) @
     time_member ''last_run'' (LastRun st) @ time_member ''next_run'' (NextRun st)))"

definition jsonAutoSubmit :: "web_reply client" where
  "jsonAutoSubmit = try_db Load (internal []) (\<lambda>st. ret (settings_reply st))"

definition save_shape :: shape where
  "save_shape = SStruct [(''interval_hours'', SInt), (''tag_ids'', SSlice SInt)]"

fun is_unknown_tag :: "err \<Rightarrow> bool" where
  "is_unknown_tag (EUnknownTag i) = True"
| "is_unknown_tag e = False"

definition handleSaveAutoSubmit :: "gotime \<Rightarrow> body \<Rightarrow> web_reply client" where
  "handleSaveAutoSubmit now b =
     (if \<not> decode_ok save_shape b then ret (jsonError 400 ''invalid JSON'')
      else if \<not> ValidInterval (num_field ''interval_hours'' b)
      then ret (jsonError 400 ''interval_hours must be one of 0, 1, 2, 4, 6, 8, 12, 24'')
      else try_db (Save (num_field ''interval_hours'' b) (map int_elem (slice_field ''tag_ids'' b)) now)
        (\<lambda>e. if is_unknown_tag e then jsonError 400 (err_text e) else internal [] e) (\<lambda>_. jsonAutoSubmit))"

section \<open>Configuration\<close>

definition handleGetConfig :: "web_reply client" where
  "handleGetConfig =
     try_db (stmt ''get config'' (\<lambda>d. case config d of None \<Rightarrow> Inl (ENotFound ''no rows'')
         | Some c \<Rightarrow> (case (cfg_tracking c, cfg_autostart c) of
             (Some t, Some a) \<Rightarrow> Inr (JObj [(''device_id'', JStr (cfg_device c)), (''server_url'', JStr (cfg_server c)),
               (''tracking_on'', JBool (t = 1)), (''autostart'', JBool (a = 1)),
               (''presence_intervals'', JStr (cfg_intervals c)), (''pomodoro_defaults'', JStr (cfg_pomodoro c))], d)
           | _ \<Rightarrow> Inl (EDb ''scan''))))
       (internal ''config not found: '') (\<lambda>v. ret (jsonOK v))"

text \<open>
  A value of the request as the driver binds it: numbers are floats, arrays and objects are refused.
  \<open>conv\<close> is SQLite's conversion: a text stored in an integer column becomes a number if it reads as
  one, and a float stored in a text column becomes its text.
\<close>

datatype bound = BNull | BInt int | BReal int | BText string

fun bind_value :: "json \<Rightarrow> bound option" where
  "bind_value JNull = Some BNull"
| "bind_value (JBool b) = Some (BInt (bit b))"
| "bind_value (JNum n) = Some (BReal n)"
| "bind_value (JStr s) = Some (BText s)"
| "bind_value v = None"

record conv =
  ReadsAs :: "string \<Rightarrow> int option"
  RealText :: "int \<Rightarrow> string"

fun as_integer :: "conv \<Rightarrow> bound \<Rightarrow> int option" where
  "as_integer V (BText s) = ReadsAs V s"
| "as_integer V (BInt n) = Some n"
| "as_integer V (BReal n) = Some n"
| "as_integer V BNull = None"

fun as_text :: "conv \<Rightarrow> bound \<Rightarrow> string" where
  "as_text V (BText s) = s"
| "as_text V (BInt n) = show_int n"
| "as_text V (BReal n) = RealText V n"
| "as_text V BNull = []"

definition set_column :: "conv \<Rightarrow> string \<Rightarrow> bound \<Rightarrow> config_row \<Rightarrow> config_row" where
  "set_column V col v c =
     (if col = ''tracking_on'' then set_tracking (as_integer V v) c
      else if col = ''autostart'' then set_autostart (as_integer V v) c
      else if col = ''presence_intervals'' then c\<lparr>cfg_intervals := as_text V v\<rparr>
      else c\<lparr>cfg_pomodoro := as_text V v\<rparr>)"

definition allowed_columns :: "string list" where
  "allowed_columns = [''tracking_on'', ''autostart'', ''presence_intervals'', ''pomodoro_defaults'']"

definition put_column :: "conv \<Rightarrow> string \<Rightarrow> json \<Rightarrow> unit client" where
  "put_column V col v =
     stmt ''update config'' (\<lambda>d.
       case bind_value v of
         None \<Rightarrow> Inl (EInvalid ''unsupported type'')
       | Some x \<Rightarrow>
           if x = BNull \<and> config d \<noteq> None then Inl (EConstraint ''NOT NULL'')
           else Inr ((), d\<lparr>config := map_option (set_column V col x) (config d)\<rparr>))"

text \<open>The request is a map: the last value of a name counts, and \<open>rng\<close> is the order it is walked in.\<close>

fun put_columns :: "conv \<Rightarrow> (string \<times> json) list \<Rightarrow> string list \<Rightarrow> web_reply client" where
  "put_columns V ms [] = ret (jsonOK (status_json ''ok''))"
| "put_columns V ms (k # ks) =
     (if k \<notin> set allowed_columns then put_columns V ms ks
      else try_db (put_column V k (the (map_of (rev ms) k))) (internal (''update '' @ k @ '': ''))
        (\<lambda>_. put_columns V ms ks))"

definition handleUpdateConfig :: "conv \<Rightarrow> (string list \<Rightarrow> string list) \<Rightarrow> body \<Rightarrow> web_reply client" where
  "handleUpdateConfig V rng b =
     (case b of
        Some (JObj ms) \<Rightarrow> put_columns V ms (rng (remdups (map fst ms)))
      | Some JNull \<Rightarrow> ret (jsonOK (status_json ''ok''))
      | _ \<Rightarrow> ret (jsonError 400 ''invalid JSON''))"

section \<open>Quitting\<close>

definition handleQuit :: "web_reply client" where
  "handleQuit = ret (jsonOK (status_json ''shutting_down''))"

text \<open>
  Every \<^verbatim>\<open>POST /api/quit\<close> starts a goroutine that runs \<open>RequestQuit\<close>: it looks whether the channel is
  closed, and closes it if it is not. Closing it twice is a panic.
\<close>

datatype quit_pc = QuitCheck | QuitClose | QuitDone

record quit_state =
  quit_closed :: bool
  quit_panic :: bool
  quitters :: "quit_pc list"

definition no_quit :: quit_state where
  "no_quit = \<lparr>quit_closed = False, quit_panic = False, quitters = []\<rparr>"

inductive quit_step :: "quit_state \<Rightarrow> quit_state \<Rightarrow> bool" where
  quit_request: "\<not> quit_panic q \<Longrightarrow> quit_step q (q\<lparr>quitters := quitters q @ [QuitCheck]\<rparr>)"
| quit_check: "\<not> quit_panic q \<Longrightarrow> i < length (quitters q) \<Longrightarrow> quitters q ! i = QuitCheck \<Longrightarrow>
    quit_step q (q\<lparr>quitters := (quitters q)[i := if quit_closed q then QuitDone else QuitClose]\<rparr>)"
| quit_close: "\<not> quit_panic q \<Longrightarrow> i < length (quitters q) \<Longrightarrow> quitters q ! i = QuitClose \<Longrightarrow>
    quit_step q (q\<lparr>quit_closed := True, quit_panic := quit_closed q, quitters := (quitters q)[i := QuitDone]\<rparr>)"

section \<open>The routes\<close>

datatype web_request =
    GetEvents string
  | GetTags
  | PostTag body
  | PutTag string body
  | PostEventTag string body
  | PostEventNote string body
  | GetSubmissions
  | PostSubmit body
  | GetAutoSubmit
  | PutAutoSubmit body
  | GetPomodoro
  | PostPomodoroStart body
  | PostPomodoroStop
  | GetConfigReq
  | PatchConfig body
  | PostQuit
  | GetStatus
  | GetTagRules
  | PostTagRule body
  | DeleteTagRuleReq string
  | PutTagRule string body
  | PostTagRuleAccept string

text \<open>What the handlers find outside the request: the clock, the process, the driver, the order of a map.\<close>

record web_env =
  web_now :: gotime
  web_pid :: int
  web_port :: int
  web_started :: "gotime option"
  web_status :: "provider option"
  web_conv :: conv
  web_rng :: "string list \<Rightarrow> string list"

fun web_serve :: "web_env \<Rightarrow> web_request \<Rightarrow> web_reply client" where
  "web_serve V (GetEvents date) = handleGetEvents (web_now V) date"
| "web_serve V GetTags = handleGetTags"
| "web_serve V (PostTag b) = handleCreateTag (web_now V) b"
| "web_serve V (PutTag i b) = handleUpdateTag i b"
| "web_serve V (PostEventTag i b) = handleTagEvent i b"
| "web_serve V (PostEventNote i b) = handleAddNote (web_now V) i b"
| "web_serve V GetSubmissions = handleGetSubmissions"
| "web_serve V (PostSubmit b) = handleSubmit (web_now V) b"
| "web_serve V GetAutoSubmit = jsonAutoSubmit"
| "web_serve V (PutAutoSubmit b) = handleSaveAutoSubmit (web_now V) b"
| "web_serve V GetPomodoro = handleGetPomodoro"
| "web_serve V (PostPomodoroStart b) = handleStartPomodoro (web_now V) b"
| "web_serve V PostPomodoroStop = handleStopPomodoro (web_now V)"
| "web_serve V GetConfigReq = handleGetConfig"
| "web_serve V (PatchConfig b) = handleUpdateConfig (web_conv V) (web_rng V) b"
| "web_serve V PostQuit = handleQuit"
| "web_serve V GetStatus = handleStatus (web_pid V) (web_port V) (web_started V) (web_now V) (web_status V)"
| "web_serve V GetTagRules = handleGetTagRules"
| "web_serve V (PostTagRule b) = handleCreateTagRule (web_now V) b"
| "web_serve V (DeleteTagRuleReq i) = handleDeleteTagRule i"
| "web_serve V (PutTagRule i b) = handleUpdateTagRule i b"
| "web_serve V (PostTagRuleAccept i) = handleAcceptTagRule i"

section \<open>Every request keeps the invariant of the store\<close>

interpretation rule_accept: keyed_update rr_id unsuggest
  by unfold_locales (simp add: unsuggest_def)

interpretation rule_edit: keyed_update rr_id "edit_rule t app title" for t app title
  by unfold_locales (simp add: edit_rule_def)

lemma keeps_update_tag [keeps_rules]: "keeps store_inv (update_tag i name color)"
proof -
  have "tables (snd (update_tag i name color s)) = tables (snd (UpdateTag i name color s))" for s
    by (auto simp: update_tag_def UpdateTag_def stmt_def Let_def)
  then show ?thesis using keeps_tags unfolding keeps_def by metis
qed

lemma keeps_replace_event_tag [keeps_rules]: "keeps store_inv (replace_event_tag e t)"
proof -
  have "distinct (map (\<lambda>r. (et_event r, et_tag r)) (sql_delete (\<lambda>r. et_event r = e \<and> et_tag r = t) rows @
      [\<lparr>et_event = e, et_tag = t, et_source = Manual, et_cascade_from = None\<rparr>]))"
    if "distinct (map (\<lambda>r. (et_event r, et_tag r)) rows)" for rows
    using that by (auto simp: distinct_map_delete set_sql_delete)
  then show ?thesis
    unfolding replace_event_tag_def
    by (intro keeps_stmt) (auto simp: store_inv_defs set_sql_delete split: if_splits)
qed

lemma keeps_stop_pomodoro [keeps_rules]: "keeps store_inv (stop_pomodoro t)"
  unfolding stop_pomodoro_def
  by (rule keeps_stmt) (auto simp: store_inv_defs set_sql_update)

lemma store_inv_edit_rules:
  assumes "store_inv d" and "affected (\<lambda>r. rr_id r = i) (tag_rules d) = 0 \<or> fk_ok d (has_tag d t)"
  shows "store_inv (d\<lparr>tag_rules := sql_update (\<lambda>r. rr_id r = i) (edit_rule t app title) (tag_rules d)\<rparr>)"
  using assms by (auto simp: store_inv_defs set_sql_update affected_0_iff rule_edit.map_key_update) (auto simp: edit_rule_def)

lemma keeps_rule_writes [keeps_rules]:
  "keeps store_inv (delete_rule i)" "keeps store_inv (put_rule i t app title)" "keeps store_inv (change_rules p unsuggest)"
proof -
  have "store_inv (d\<lparr>tag_rules := sql_delete q (tag_rules d)\<rparr>)" if "store_inv d" for d q
    using that by (simp add: store_inv_defs set_sql_delete distinct_map_delete)
  then show "keeps store_inv (delete_rule i)" unfolding delete_rule_def by (intro keeps_stmt) auto
  show "keeps store_inv (put_rule i t app title)"
    unfolding put_rule_def by (intro keeps_stmt) (auto intro: store_inv_edit_rules split: if_splits)
  show "keeps store_inv (change_rules p unsuggest)"
    unfolding change_rules_def by (intro keeps_stmt) (auto intro!: store_inv_rules simp: unsuggest_def)
qed

lemma keeps_web_submission [keeps_rules]: "keeps store_inv (web_submission now ids)"
  unfolding web_submission_def by (intro keeps_rules)

lemma keeps_config_row: "keeps store_inv (put_column V col v)"
  unfolding put_column_def
  by (rule keeps_stmt) (auto simp: store_inv_defs split: option.splits if_splits)

lemma keeps_put_columns [keeps_rules]: "keeps store_inv (put_columns V ms ks)"
  by (induction V ms ks rule: put_columns.induct) (auto intro!: keeps_rules keeps_config_row)

lemma keeps_get_config: "keeps I handleGetConfig"
  unfolding handleGetConfig_def
  by (intro keeps_rules keeps_stmt) (auto split: option.splits)

lemmas web_handlers = handleGetEvents_def handleGetTags_def handleCreateTag_def handleUpdateTag_def handleTagEvent_def
  handleAddNote_def handleGetSubmissions_def handleSubmit_def jsonAutoSubmit_def handleSaveAutoSubmit_def
  handleGetPomodoro_def handleStartPomodoro_def handleStopPomodoro_def handleUpdateConfig_def handleQuit_def
  handleStatus_def handleGetTagRules_def handleCreateTagRule_def handleDeleteTagRule_def handleUpdateTagRule_def
  handleAcceptTagRule_def with_id_def changed_def

definition reads_store :: "provider option \<Rightarrow> bool" where
  "reads_store sp = (case sp of None \<Rightarrow> True
     | Some p \<Rightarrow> keeps store_inv (LastLayoutSnapshot p) \<and> keeps store_inv (LastServerSync p))"


definition some_env :: web_env where
  "some_env = \<lparr>web_now = 500 * second, web_pid = 1, web_port = 9746, web_started = None, web_status = None,
     web_conv = \<lparr>ReadsAs = (\<lambda>_. None), RealText = show_int\<rparr>, web_rng = id\<rparr>"


section \<open>Submitting by hand\<close>

lemma forM_link:
  assumes "no_fault s" and "has_submission (tables s) i" and "\<forall>e \<in> set ids. has_event (tables s) e" and "distinct ids"
    and "\<forall>e \<in> set ids. (i, e) \<notin> set (submission_events (tables s))"
  shows "\<exists>n. forM ids (LinkEventToSubmission i) s =
    (Inr (), s\<lparr>tables := (tables s)\<lparr>submission_events := submission_events (tables s) @ map (Pair i) ids\<rparr>, ticks := n\<rparr>)"
  using assms
proof (induction ids arbitrary: s)
  case Nil
  then show ?case by (intro exI [of _ "ticks s"]) (simp add: ret_def)
next
  case (Cons e ids)
  let ?s1 = "s\<lparr>ticks := Suc (ticks s), tables := (tables s)\<lparr>submission_events := submission_events (tables s) @ [(i, e)]\<rparr>\<rparr>"
  have one: "LinkEventToSubmission i e s = (Inr (), ?s1)"
    using Cons.prems by (simp add: LinkEventToSubmission_def stmt_def Let_def fk_ok_def)
  have "\<exists>n. forM ids (LinkEventToSubmission i) ?s1 = (Inr (), ?s1\<lparr>tables := (tables ?s1)\<lparr>submission_events :=
      submission_events (tables ?s1) @ map (Pair i) ids\<rparr>, ticks := n\<rparr>)"
    using Cons.prems by (intro Cons.IH) (auto simp: has_submission_def has_event_def)
  then obtain n where "forM ids (LinkEventToSubmission i) ?s1 = (Inr (), ?s1\<lparr>tables := (tables ?s1)\<lparr>submission_events :=
      submission_events (tables ?s1) @ map (Pair i) ids\<rparr>, ticks := n\<rparr>)" ..
  then show ?case using one by (intro exI [of _ n]) (simp add: bindM_def)
qed

lemma web_submission_ok:
  assumes "no_fault s" and "refs_ok (tables s)" and "distinct ids" and "\<forall>e \<in> set ids. has_event (tables s) e"
  shows "\<exists>i s'. web_submission now ids s = (Inr i, s') \<and> no_fault s' \<and> i \<notin> sub_id ` set (submissions (tables s)) \<and>
    tables s' = (tables s)\<lparr>submissions := submissions (tables s) @ [new_submission i (rfc3339 now)],
      submission_events := submission_events (tables s) @ map (Pair i) ids\<rparr>"
proof -
  define i where "i = next_rowid (map sub_id (submissions (tables s)))"
  let ?s2 = "s\<lparr>ticks := Suc (Suc (ticks s)), tables := (tables s)\<lparr>submissions := submissions (tables s) @ [new_submission i (rfc3339 now)]\<rparr>\<rparr>"
  have fresh: "i \<notin> sub_id ` set (submissions (tables s))"
    unfolding i_def using next_rowid_notin [of "map sub_id (submissions (tables s))"] by simp
  have ins: "insert_submission ''insert submission'' (rfc3339 now) (s\<lparr>ticks := Suc (ticks s)\<rparr>) = (Inr i, ?s2)"
    using assms(1) by (simp add: insert_submission_def stmt_def Let_def i_def)
  have "\<forall>e. (i, e) \<notin> set (submission_events (tables s))"
    using assms(2) fresh by (force simp: refs_ok_def has_submission_def)
  then obtain n where "forM ids (LinkEventToSubmission i) ?s2 = (Inr (), ?s2\<lparr>tables := (tables ?s2)\<lparr>submission_events :=
      submission_events (tables ?s2) @ map (Pair i) ids\<rparr>, ticks := n\<rparr>)"
    using forM_link [of ?s2 i ids] assms by (auto simp: has_submission_def has_event_def new_submission_def)
  then have "web_submission now ids s = (Inr i, s\<lparr>ticks := Suc n, tables := (tables s)\<lparr>submissions := submissions (tables s) @
      [new_submission i (rfc3339 now)], submission_events := submission_events (tables s) @ map (Pair i) ids\<rparr>\<rparr>)"
    using assms(1) ins by (simp add: web_submission_def in_tx_def stmt_def bindM_def ret_def Let_def)
  then show ?thesis using fresh assms(1) by simp
qed

text \<open>The body of a submit request.\<close>

definition ids_body :: "rowid list \<Rightarrow> body" where
  "ids_body ids = Some (JObj [(''event_ids'', JArr (map JNum ids))])"

lemma ids_body_read:
  "map int_elem (slice_field ''event_ids'' (ids_body ids)) = ids"
  "\<forall>e \<in> set ids. int64 e \<Longrightarrow> decode_ok submit_ids_shape (ids_body ids)"
  by (simp_all add: ids_body_def slice_field_def int_elem_def decode_ok_def submit_ids_shape_def EqualFold_def comp_def)

definition submissions_of :: "client_tables \<Rightarrow> rowid \<Rightarrow> rowid set" where
  "submissions_of d e = {i. (i, e) \<in> set (submission_events d)}"

text \<open>
  The dashboard submits the events it is asked for, submitted before or not: each of them ends up in
  one more submission, and will be uploaded once more.
\<close>

theorem manual_submit_repeats:
  assumes "no_fault s" and "refs_ok (tables s)" and "distinct ids" and "ids \<noteq> []"
    and "\<forall>e \<in> set ids. has_event (tables s) e \<and> int64 e"
  shows "\<exists>i s'. handleSubmit now (ids_body ids) s =
      (Inr (jsonOK (JObj [(''submission_id'', JNum i), (''status'', JStr ''pending'')])), s') \<and>
    new_submission i (rfc3339 now) \<in> set (submissions (tables s')) \<and>
    (\<forall>e. submissions_of (tables s') e = (if e \<in> set ids then insert i (submissions_of (tables s) e) else submissions_of (tables s) e)) \<and>
    (\<forall>e. i \<notin> submissions_of (tables s) e)"
proof -
  obtain i s' where i: "web_submission now ids s = (Inr i, s')" "i \<notin> sub_id ` set (submissions (tables s))"
    "tables s' = (tables s)\<lparr>submissions := submissions (tables s) @ [new_submission i (rfc3339 now)],
      submission_events := submission_events (tables s) @ map (Pair i) ids\<rparr>"
    using web_submission_ok [of s ids now] assms by blast
  have "\<forall>e. i \<notin> submissions_of (tables s) e"
    using assms(2) i(2) by (force simp: submissions_of_def refs_ok_def has_submission_def)
  moreover have "handleSubmit now (ids_body ids) s =
      (Inr (jsonOK (JObj [(''submission_id'', JNum i), (''status'', JStr ''pending'')])), s')"
    using assms(4,5) i(1) by (simp add: handleSubmit_def ids_body_read Let_def try_db_def bindM_def attempt_def ret_def)
  ultimately show ?thesis using i(3)
    by (intro exI [of _ i] exI [of _ s']) (auto simp: submissions_of_def)
qed

definition web_store :: client_tables where
  "web_store = rule_store\<lparr>submissions := [new_submission 7 200], submission_events := [(7, 1)],
     config := Some \<lparr>cfg_device = ''d'', cfg_server = ''s'', cfg_api_key = ''k'', cfg_tracking = Some 1, cfg_autostart = Some 0,
       cfg_intervals = ''[30]'', cfg_pomodoro = ''{}''\<rparr>\<rparr>"

lemma web_store_inv: "store_inv web_store" "refs_ok web_store"
  by (simp_all add: store_inv_def store_wf_def refs_ok_def web_store_def rule_store_def empty_store_def has_event_def has_tag_def
      has_submission_def new_submission_def)

lemma manual_submit_repeats_witness:
  "\<exists>i s'. handleSubmit (500 * second) (ids_body [1]) (healthy web_store) =
      (Inr (jsonOK (JObj [(''submission_id'', JNum i), (''status'', JStr ''pending'')])), s') \<and>
    submissions_of (tables s') 1 = insert i {7} \<and> i \<noteq> 7"
proof -
  have one: "has_event (tables (healthy web_store)) 1" by (simp add: has_event_def web_store_def rule_store_def)
  have seven: "submissions_of (tables (healthy web_store)) 1 = {7}"
    by (auto simp: submissions_of_def web_store_def)
  obtain i s' where "handleSubmit (500 * second) (ids_body [1]) (healthy web_store) =
      (Inr (jsonOK (JObj [(''submission_id'', JNum i), (''status'', JStr ''pending'')])), s')"
    "\<forall>e. submissions_of (tables s') e = (if e \<in> set [1] then insert i (submissions_of (tables (healthy web_store)) e)
       else submissions_of (tables (healthy web_store)) e)"
    "\<forall>e. i \<notin> submissions_of (tables (healthy web_store)) e"
    using manual_submit_repeats [of "healthy web_store" "[1]" "500 * second"] web_store_inv one by (auto simp: int64_def)
  then show ?thesis using seven by (intro exI [of _ i] exI [of _ s']) auto
qed

section \<open>The configuration\<close>

definition patch_body :: "string \<Rightarrow> json \<Rightarrow> body" where
  "patch_body name v = Some (JObj [(name, v)])"

text \<open>
  A change of the configuration is not checked: a text that is no number is accepted for
  \<^verbatim>\<open>tracking_on\<close>, and from then on the configuration cannot be read, neither by the dashboard nor by
  the store.
\<close>

theorem bad_setting_is_accepted:
  assumes "no_fault s" and "config (tables s) = Some c" and "ReadsAs (web_conv V) txt = None" and "permutes_keys (web_rng V)"
  shows "\<exists>s'. web_serve V (PatchConfig (patch_body ''tracking_on'' (JStr txt))) s = (Inr (jsonOK (status_json ''ok'')), s') \<and>
    fst (web_serve V GetConfigReq s') = Inr (jsonError 500 ''config not found: scan'') \<and>
    fst (GetConfig s') = Inl (EDb ''get config'')"
proof -
  have "mset (web_rng V [''tracking_on'']) = {#''tracking_on''#}" using assms(4) by (simp add: permutes_keys_def)
  then have rng: "web_rng V [''tracking_on''] = [''tracking_on'']" by simp
  define s' where "s' = s\<lparr>ticks := Suc (ticks s), tables := (tables s)\<lparr>config := Some (set_tracking None c)\<rparr>\<rparr>"
  have put: "put_column (web_conv V) ''tracking_on'' (JStr txt) s = (Inr (), s')"
    using assms(1-3) by (simp add: put_column_def stmt_def Let_def set_column_def s'_def)
  have "web_serve V (PatchConfig (patch_body ''tracking_on'' (JStr txt))) s = (Inr (jsonOK (status_json ''ok'')), s')"
    using put by (simp add: handleUpdateConfig_def patch_body_def rng allowed_columns_def try_db_def bindM_def attempt_def ret_def)
  moreover have "fst (handleGetConfig s') = Inr (jsonError 500 ''config not found: scan'')"
    using assms(1) by (simp add: handleGetConfig_def stmt_def Let_def s'_def set_tracking_def try_db_def bindM_def attempt_def
        ret_def internal_def split: option.split)
  moreover have "fst (GetConfig s') = Inl (EDb ''get config'')"
    using assms(1) by (simp add: GetConfig_def stmt_def Let_def s'_def set_tracking_def scanConfig_def)
  ultimately show ?thesis by auto
qed

lemma bad_setting_is_accepted_witness:
  "\<exists>s'. web_serve some_env (PatchConfig (patch_body ''tracking_on'' (JStr ''yes''))) (healthy web_store) =
      (Inr (jsonOK (status_json ''ok'')), s') \<and>
    fst (web_serve some_env GetConfigReq s') = Inr (jsonError 500 ''config not found: scan'') \<and>
    fst (GetConfig s') = Inl (EDb ''get config'')"
  by (rule bad_setting_is_accepted) (simp_all add: web_store_def some_env_def permutes_keys_def)

section \<open>Two requests to quit\<close>

text \<open>Two requests that both see the open channel before either closes it: the second close is a panic.\<close>

theorem quitting_twice_can_panic: "\<exists>q. quit_step\<^sup>*\<^sup>* no_quit q \<and> quit_panic q"
proof -
  let ?q = "\<lambda>c p xs. \<lparr>quit_closed = c, quit_panic = p, quitters = xs\<rparr>"
  have "quit_step no_quit (?q False False [QuitCheck])"
    using quit_request [of no_quit] by (simp add: no_quit_def)
  moreover have "quit_step (?q False False [QuitCheck]) (?q False False [QuitCheck, QuitCheck])"
    using quit_request [of "?q False False [QuitCheck]"] by simp
  moreover have "quit_step (?q False False [QuitCheck, QuitCheck]) (?q False False [QuitClose, QuitCheck])"
    using quit_check [of "?q False False [QuitCheck, QuitCheck]" 0] by simp
  moreover have "quit_step (?q False False [QuitClose, QuitCheck]) (?q False False [QuitClose, QuitClose])"
    using quit_check [of "?q False False [QuitClose, QuitCheck]" 1] by simp
  moreover have "quit_step (?q False False [QuitClose, QuitClose]) (?q True False [QuitDone, QuitClose])"
    using quit_close [of "?q False False [QuitClose, QuitClose]" 0] by simp
  moreover have "quit_step (?q True False [QuitDone, QuitClose]) (?q True True [QuitDone, QuitDone])"
    using quit_close [of "?q True False [QuitDone, QuitClose]" 1] by simp
  ultimately have "quit_step\<^sup>*\<^sup>* no_quit (?q True True [QuitDone, QuitDone])"
    by (meson rtranclp.rtrancl_refl rtranclp.rtrancl_into_rtrancl)
  then show ?thesis by (intro exI [of _ "?q True True [QuitDone, QuitDone]"]) simp
qed

end
