(* ===== verification/Daemon.thy ===== *)
theory Daemon
  imports Web_UI Session_Engine Sync_Queue
begin

text \<open>
  The client daemon (\<^verbatim>\<open>cmd/trasker-client/main.go\<close>): how it starts, the goroutines that turn focus
  changes, screen locks and the deadman's switch into events of the store, the status it reports and the
  actions of its tray. It does the recording itself; the session engine is not part of it.
\<close>

section \<open>Starting\<close>

text \<open>
  A first run creates the store and its configuration. A later run opens the file: it does not turn on
  the foreign keys of its connections, and it does not create tables. \<open>device\<close> is the new random id.
\<close>

definition setupDatabase :: "bool \<Rightarrow> string \<Rightarrow> string \<Rightarrow> string \<Rightarrow> (nat \<Rightarrow> bool) \<Rightarrow> client_tables \<Rightarrow> err + client_tables db" where
  "setupDatabase isFirst device server key sched d =
     (if isFirst
      then (case InitConfig device server key \<lparr>tables = empty_store, fault = sched, ticks = 0\<rparr> of
              (Inl e, s) \<Rightarrow> Inl e | (Inr _, s) \<Rightarrow> Inr s)
      else Inr \<lparr>tables = d\<lparr>foreign_keys := False\<rparr>, fault = sched, ticks = 0\<rparr>)"

text \<open>The device and whether tracking is on; \<open>Inl\<close> is the exit with status 1.\<close>

definition load_config :: "(string \<times> bool) client" where
  "load_config =
     stmt ''load config'' (\<lambda>d. case config d of
         None \<Rightarrow> Inl (ENotFound ''no rows'')
       | Some c \<Rightarrow> (case cfg_tracking c of None \<Rightarrow> Inl (EDb ''scan'') | Some t \<Rightarrow> Inr ((cfg_device c, t = 1), d)))"

datatype recorder_pc = RecIdle | RecClose FocusChange | RecInsert FocusChange | RecTag rowid FocusChange
datatype listener_pc = LisIdle | LisClose

text \<open>
  The state of the running daemon: the store, the tagger, the switch, the channels of focus changes and
  of lock changes with the copy for the layout capturer, where the three goroutines stand, and the two
  states of the status snapshot.
\<close>

record daemon =
  dae_store :: "client_tables db"
  dae_tagger :: tagger
  dae_switch :: deadman
  dae_tracking :: bool
  dae_focus :: "FocusChange list"
  dae_locks :: "StateChange list"
  dae_layout_locks :: "StateChange list"
  dae_recorder :: recorder_pc
  dae_lock_pc :: listener_pc
  dae_switch_pc :: listener_pc
  dae_presence :: string
  dae_screen :: string

definition start :: "gotime \<Rightarrow> client_tables db \<Rightarrow> err + daemon" where
  "start now s =
     (case bindM load_config (\<lambda>c. bindM NewTagger (\<lambda>tg. ret (c, tg))) s of
        (Inl e, s') \<Rightarrow> Inl e
      | (Inr ((device, on), tg), s') \<Rightarrow>
          (case DefaultDeadman of
             Inl e \<Rightarrow> Inl e
           | Inr sw \<Rightarrow> Inr \<lparr>dae_store = s', dae_tagger = tg, dae_switch = StartDeadman now sw, dae_tracking = on,
               dae_focus = [], dae_locks = [], dae_layout_locks = [], dae_recorder = RecIdle, dae_lock_pc = LisIdle,
               dae_switch_pc = LisIdle, dae_presence = ''TRACKING'', dae_screen = ''UNLOCKED''\<rparr>))"

section \<open>The handlers\<close>

definition closeCurrentFocusEvent :: "(stamp \<Rightarrow> stamp \<Rightarrow> int) \<Rightarrow> gotime \<Rightarrow> unit client" where
  "closeCurrentFocusEvent jd now = logged (CloseLatestOpenFocusEvent jd now)"

definition insert_focus :: "FocusChange \<Rightarrow> rowid client" where
  "insert_focus fc = InsertFocusEvent (fc_time fc) (fc_app fc) (fc_title fc) (fc_time fc)"

definition tag_focus :: "tagger \<Rightarrow> FocusChange \<Rightarrow> rowid \<Rightarrow> unit client" where
  "tag_focus tg fc i = ProcessFocusEvent tagApplier tg \<lparr>TevID = i, TevApp = fc_app fc, TevTitle = fc_title fc\<rparr>"

text \<open>One turn of the recorder.\<close>

definition record_focus :: "(stamp \<Rightarrow> stamp \<Rightarrow> int) \<Rightarrow> tagger \<Rightarrow> gotime \<Rightarrow> FocusChange \<Rightarrow> unit client" where
  "record_focus jd tg now fc =
     bindM (closeCurrentFocusEvent jd now) (\<lambda>_. try_db (insert_focus fc) (\<lambda>_. ()) (tag_focus tg fc))"

text \<open>What a message leaves in the store; the listeners only close on \<open>Away\<close> and \<open>Paused\<close>.\<close>

fun daemon_handle :: "(stamp \<Rightarrow> stamp \<Rightarrow> int) \<Rightarrow> tagger \<Rightarrow> engine_msg \<Rightarrow> unit client" where
  "daemon_handle jd tg (FocusMsg now fc) = record_focus jd tg now fc"
| "daemon_handle jd tg (PresenceMsg now st) = (if st = Away \<or> st = Paused then closeCurrentFocusEvent jd now else ret ())"
| "daemon_handle jd tg (DoneMsg now) = ret ()"

section \<open>The status\<close>

definition max_stamp :: "stamp list \<Rightarrow> stamp option" where
  "max_stamp ts = (if ts = [] then None else Some (Max (set ts)))"

text \<open>A query whose error is ignored.\<close>

definition or_zero :: "('d, 'a option) dbm \<Rightarrow> ('d, 'a option) dbm" where
  "or_zero m = try_db m (\<lambda>_. None) ret"

definition lastLayoutSnapshot :: "gotime option client" where
  "lastLayoutSnapshot =
     or_zero (query ''last layout'' (\<lambda>d. map_option parse_rfc3339 (max_stamp (map ls_captured (layout_snapshots d)))))"

definition sent_stamps :: "client_tables \<Rightarrow> stamp list" where
  "sent_stamps d = map sub_submitted (filter (\<lambda>r. sub_status r = ''sent'') (submissions d))"

definition synced_stamps :: "client_tables \<Rightarrow> stamp list" where
  "synced_stamps d = List.map_filter ls_synced (layout_snapshots d)"

definition later :: "stamp option \<Rightarrow> stamp option \<Rightarrow> stamp option" where
  "later best t = (case t of None \<Rightarrow> best | Some y \<Rightarrow> (case best of None \<Rightarrow> Some y | Some x \<Rightarrow> if x < y then Some y else Some x))"

definition lastServerSync :: "gotime option client" where
  "lastServerSync =
     bindM (or_zero (query ''last sent'' (\<lambda>d. max_stamp (sent_stamps d)))) (\<lambda>sent.
     bindM (or_zero (query ''last synced'' (\<lambda>d. max_stamp (synced_stamps d)))) (\<lambda>synced.
     ret (map_option parse_rfc3339 (later sent synced))))"

definition statusSnapshot :: "daemon \<Rightarrow> provider" where
  "statusSnapshot d = \<lparr>PresenceState = dae_presence d, ScreenLockState = dae_screen d,
     LastLayoutSnapshot = lastLayoutSnapshot, LastServerSync = lastServerSync\<rparr>"

section \<open>The goroutines\<close>

text \<open>
  The atomic actions: something arrives on a channel, the switch moves, the layout capturer or the
  dashboard does something, or a goroutine takes a message or runs a statement. The tagger's statements
  are one action.
\<close>

datatype daemon_event =
    FocusArrives FocusChange
  | LockArrives StateChange
  | SwitchMoves dm_event
  | CapturerTakes
  | Dashboard web_env web_request
  | RecorderTakes
  | RecorderCloses gotime
  | RecorderInserts
  | RecorderTags
  | LockTakes
  | LockCloses gotime
  | SwitchTakes
  | SwitchCloses gotime

definition on_store :: "unit client \<Rightarrow> daemon \<Rightarrow> daemon" where
  "on_store m d = d\<lparr>dae_store := snd (m (dae_store d))\<rparr>"

definition lock_name :: "State \<Rightarrow> string" where
  "lock_name st = (if st = Away then ''LOCKED'' else ''UNLOCKED'')"

text \<open>The send to the capturer does not block: what does not fit is dropped.\<close>

definition fan_out :: "StateChange \<Rightarrow> StateChange list \<Rightarrow> StateChange list" where
  "fan_out c q = (if length q < 4 then q @ [c] else q)"

fun own_event :: "dm_event \<Rightarrow> bool" where
  "own_event Acknowledge = False" | "own_event Reset = False" | "own_event Receive = False"
| "own_event _ = True"

fun daemon_step :: "(stamp \<Rightarrow> stamp \<Rightarrow> int) \<Rightarrow> daemon_event \<Rightarrow> daemon \<Rightarrow> daemon option" where
  "daemon_step jd (FocusArrives fc) d = (if dae_tracking d then Some (d\<lparr>dae_focus := dae_focus d @ [fc]\<rparr>) else None)"
| "daemon_step jd (LockArrives c) d = Some (d\<lparr>dae_locks := dae_locks d @ [c]\<rparr>)"
| "daemon_step jd (SwitchMoves e) d =
     (if own_event e then map_option (\<lambda>sw. d\<lparr>dae_switch := sw\<rparr>) (dm_step e (dae_switch d)) else None)"
| "daemon_step jd CapturerTakes d =
     (case dae_layout_locks d of [] \<Rightarrow> None | _ # q \<Rightarrow> Some (d\<lparr>dae_layout_locks := q\<rparr>))"
| "daemon_step jd (Dashboard V req) d =
     Some (d\<lparr>dae_store := snd (web_serve (V\<lparr>web_status := Some (statusSnapshot d)\<rparr>) req (dae_store d))\<rparr>)"
| "daemon_step jd RecorderTakes d =
     (case (dae_recorder d, dae_focus d) of
        (RecIdle, fc # q) \<Rightarrow> Some (d\<lparr>dae_focus := q, dae_switch := dm_reset_call (dae_switch d), dae_recorder := RecClose fc\<rparr>)
      | _ \<Rightarrow> None)"
| "daemon_step jd (RecorderCloses now) d =
     (case dae_recorder d of
        RecClose fc \<Rightarrow> Some (on_store (closeCurrentFocusEvent jd now) (d\<lparr>dae_recorder := RecInsert fc\<rparr>))
      | _ \<Rightarrow> None)"
| "daemon_step jd RecorderInserts d =
     (case dae_recorder d of
        RecInsert fc \<Rightarrow> (case insert_focus fc (dae_store d) of
            (Inl _, s) \<Rightarrow> Some (d\<lparr>dae_store := s, dae_recorder := RecIdle\<rparr>)
          | (Inr i, s) \<Rightarrow> Some (d\<lparr>dae_store := s, dae_recorder := RecTag i fc\<rparr>))
      | _ \<Rightarrow> None)"
| "daemon_step jd RecorderTags d =
     (case dae_recorder d of
        RecTag i fc \<Rightarrow> Some (on_store (tag_focus (dae_tagger d) fc i) (d\<lparr>dae_recorder := RecIdle\<rparr>))
      | _ \<Rightarrow> None)"
| "daemon_step jd LockTakes d =
     (case (dae_lock_pc d, dae_locks d) of
        (LisIdle, c # q) \<Rightarrow> Some (d\<lparr>dae_locks := q, dae_layout_locks := fan_out c (dae_layout_locks d),
            dae_screen := lock_name (sc_state c), dae_lock_pc := if sc_state c = Away then LisClose else LisIdle\<rparr>)
      | _ \<Rightarrow> None)"
| "daemon_step jd (LockCloses now) d =
     (if dae_lock_pc d = LisClose then Some (on_store (closeCurrentFocusEvent jd now) (d\<lparr>dae_lock_pc := LisIdle\<rparr>)) else None)"
| "daemon_step jd SwitchTakes d =
     (case (dae_switch_pc d, dm_states (dae_switch d)) of
        (LisIdle, c # q) \<Rightarrow> Some (d\<lparr>dae_switch := (dae_switch d)\<lparr>dm_states := q\<rparr>, dae_presence := state_String (sc_state c),
            dae_switch_pc := if sc_state c = Paused then LisClose else LisIdle\<rparr>)
      | _ \<Rightarrow> None)"
| "daemon_step jd (SwitchCloses now) d =
     (if dae_switch_pc d = LisClose then Some (on_store (closeCurrentFocusEvent jd now) (d\<lparr>dae_switch_pc := LisIdle\<rparr>)) else None)"

section \<open>The tray\<close>

definition config_flag :: "string \<Rightarrow> (config_row \<Rightarrow> int option) \<Rightarrow> bool client" where
  "config_flag ctx f =
     try_db (query ctx (\<lambda>d. case config d of None \<Rightarrow> 0 | Some c \<Rightarrow> (case f c of None \<Rightarrow> 0 | Some n \<Rightarrow> n)))
       (\<lambda>_. False) (\<lambda>n. ret (n = 1))"

definition IsTrackingOn :: "bool client" where
  "IsTrackingOn = config_flag ''tracking on'' cfg_tracking"

definition IsAutostartOn :: "bool client" where
  "IsAutostartOn = config_flag ''autostart on'' cfg_autostart"

definition SetTrackingOn :: "bool \<Rightarrow> unit client" where
  "SetTrackingOn on = logged (stmt ''update config''
     (\<lambda>d. Inr ((), d\<lparr>config := map_option (set_tracking (Some (bit on))) (config d)\<rparr>)))"

definition SetAutostartOn :: "bool \<Rightarrow> unit client" where
  "SetAutostartOn on = logged (stmt ''update config''
     (\<lambda>d. Inr ((), d\<lparr>config := map_option (set_autostart (Some (bit on))) (config d)\<rparr>)))"

section \<open>Recording\<close>

text \<open>At most one event of the store is open.\<close>

definition open_events :: "client_tables \<Rightarrow> focus_row list" where
  "open_events d = filter (\<lambda>r. fe_ended r = None) (focus_events d)"

lemma open_one:
  assumes "length (open_events d) \<le> 1" and "r \<in> set (focus_events d)" and "fe_ended r = None"
  shows "latest_open (focus_events d) = Some (fe_id r)" and "open_events d = [r]"
proof -
  have "r \<in> set (open_events d)" using assms(2,3) by (simp add: open_events_def)
  then show "open_events d = [r]" using assms(1) by (cases "open_events d") auto
  then show "latest_open (focus_events d) = Some (fe_id r)"
    by (simp add: latest_open_def order_desc_def open_events_def)
qed

definition close_latest :: "(stamp \<Rightarrow> stamp \<Rightarrow> int) \<Rightarrow> gotime \<Rightarrow> focus_row list \<Rightarrow> focus_row list" where
  "close_latest jd now rows = sql_update (\<lambda>r. Some (fe_id r) = latest_open rows) (close_row jd (rfc3339 now)) rows"

lemma close_rows:
  assumes "length (open_events d) \<le> 1" and "distinct (map fe_id (focus_events d))"
  shows "map interval_of (close_latest jd now (focus_events d)) =
    close_open now (map interval_of (focus_events d))"
    and "filter (\<lambda>r. fe_ended r = None) (close_latest jd now (focus_events d)) = []"
proof -
  have closed: "Some (fe_id r) \<noteq> latest_open (focus_events d)" if r: "r \<in> set (focus_events d)" "fe_ended r \<noteq> None" for r
  proof
    assume "Some (fe_id r) = latest_open (focus_events d)"
    then have "latest_open (focus_events d) = Some (fe_id r)" by simp
    then obtain q where "q \<in> set (focus_events d)" "fe_id q = fe_id r" "fe_ended q = None"
      using latest_open_Some(1) by metis
    then show False using assms(2) r by (metis distinct_map inj_onD)
  qed
  show "map interval_of (close_latest jd now (focus_events d)) = close_open now (map interval_of (focus_events d))"
    using open_one(1) [OF assms(1)] closed
    by (auto simp: close_latest_def sql_update_def close_open_def interval_of_def close_row_def split: option.splits)
  show "filter (\<lambda>r. fe_ended r = None) (close_latest jd now (focus_events d)) = []"
    using open_one(1) [OF assms(1)] by (fastforce simp: close_latest_def sql_update_def filter_empty_conv)
qed

text \<open>What the statements of a handler do to the focus events.\<close>

lemma close_ok:
  assumes "no_fault s"
  shows "closeCurrentFocusEvent jd now s = (Inr (), s\<lparr>ticks := Suc (ticks s),
    tables := (tables s)\<lparr>focus_events := close_latest jd now (focus_events (tables s))\<rparr>\<rparr>)"
  using assms
  by (simp add: closeCurrentFocusEvent_def logged_def CloseLatestOpenFocusEvent_def stmt_def Let_def close_latest_def)

definition focus_row_of :: "rowid \<Rightarrow> FocusChange \<Rightarrow> focus_row" where
  "focus_row_of i fc = \<lparr>fe_id = i, fe_app = fc_app fc, fe_title = fc_title fc, fe_started = rfc3339 (fc_time fc),
     fe_ended = None, fe_duration = None, fe_idle = False, fe_created = rfc3339 (fc_time fc)\<rparr>"

lemma insert_ok:
  assumes "no_fault s" and "i = next_rowid (map fe_id (focus_events (tables s)))"
  shows "insert_focus fc s = (Inr i, s\<lparr>ticks := Suc (ticks s),
    tables := (tables s)\<lparr>focus_events := focus_events (tables s) @ [focus_row_of i fc]\<rparr>\<rparr>)"
  using assms by (simp add: insert_focus_def InsertFocusEvent_def stmt_def Let_def focus_row_of_def)

lemma tag_focus_events:
  "fst (tag_focus tg fc i s) = Inr ()"
  "focus_events (tables (snd (tag_focus tg fc i s))) = focus_events (tables s)"
  "fault (snd (tag_focus tg fc i s)) = fault s"
  by (auto simp: tag_focus_def ProcessFocusEvent_def ret_def bindM_def attempt_def logged_def tagApplier_def
      ApplyTagToEvent_def IncrementHitCount_def stmt_def Let_def split: option.splits prod.splits sum.splits if_splits)

text \<open>
  The specification: a focus change closes what is open when it is handled and opens its own interval
  at the time it happened; a lock or a missed check closes what is open; a shutdown does nothing.
\<close>

fun daemon_spec :: "engine_msg \<Rightarrow> interval list \<Rightarrow> interval list" where
  "daemon_spec (FocusMsg now fc) ivs = close_open now ivs @ [(fc_app fc, fc_title fc, rfc3339 (fc_time fc), None)]"
| "daemon_spec (PresenceMsg now st) ivs = (if st = Away \<or> st = Paused then close_open now ivs else ivs)"
| "daemon_spec (DoneMsg now) ivs = ivs"

definition intervals :: "client_tables db \<Rightarrow> interval list" where
  "intervals s = map interval_of (focus_events (tables s))"

definition recording :: "client_tables db \<Rightarrow> bool" where
  "recording s = (no_fault s \<and> distinct (map fe_id (focus_events (tables s))) \<and> length (open_events (tables s)) \<le> 1)"

lemma distinct_close_latest: "distinct (map fe_id rows) \<Longrightarrow> distinct (map fe_id (close_latest jd now rows))"
  by (simp add: close_latest_def focus_close.map_key_update)

lemma daemon_handle_records:
  assumes "recording s"
  shows "fst (daemon_handle jd tg msg s) = Inr ()"
    and "intervals (snd (daemon_handle jd tg msg s)) = daemon_spec msg (intervals s)"
    and "recording (snd (daemon_handle jd tg msg s))"
proof -
  have nf: "no_fault s" and dist: "distinct (map fe_id (focus_events (tables s)))"
    and one: "length (open_events (tables s)) \<le> 1"
    using assms by (auto simp: recording_def)
  note rows = close_rows [OF one dist]
  have "fst (daemon_handle jd tg msg s) = Inr () \<and> intervals (snd (daemon_handle jd tg msg s)) = daemon_spec msg (intervals s) \<and>
    recording (snd (daemon_handle jd tg msg s))"
  proof (cases msg)
    case (FocusMsg now fc)
    define s1 where "s1 = s\<lparr>ticks := Suc (ticks s), tables := (tables s)\<lparr>focus_events := close_latest jd now (focus_events (tables s))\<rparr>\<rparr>"
    define i where "i = next_rowid (map fe_id (focus_events (tables s1)))"
    define s2 where "s2 = s1\<lparr>ticks := Suc (ticks s1), tables := (tables s1)\<lparr>focus_events := focus_events (tables s1) @ [focus_row_of i fc]\<rparr>\<rparr>"
    have "no_fault s1" using nf by (simp add: s1_def)
    then have "insert_focus fc s1 = (Inr i, s2)" using insert_ok [of s1 i fc] by (simp add: i_def s2_def)
    moreover have "closeCurrentFocusEvent jd now s = (Inr (), s1)" using close_ok [OF nf] by (simp add: s1_def)
    ultimately have h: "daemon_handle jd tg msg s = tag_focus tg fc i s2"
      using FocusMsg by (simp add: record_focus_def bindM_def try_db_def attempt_def ret_def)
    have rec: "recording (snd (tag_focus tg fc i s2))"
      using nf rows(2) [of jd now] distinct_close_latest [OF dist, of jd now]
      by (auto simp: recording_def tag_focus_events open_events_def s2_def s1_def i_def focus_row_of_def)
    have "intervals (snd (tag_focus tg fc i s2)) = daemon_spec msg (intervals s)"
      using rows(1) [of jd now] FocusMsg
      by (simp add: intervals_def tag_focus_events s2_def s1_def focus_row_of_def interval_of_def)
    then show ?thesis using h rec by (simp add: tag_focus_events)
  next
    case (PresenceMsg now st)
    then show ?thesis
      using rows [of jd now] dist distinct_close_latest [OF dist, of jd now] nf assms close_ok [OF nf, of jd now]
      by (auto simp: intervals_def recording_def open_events_def ret_def)
  next
    case (DoneMsg now)
    then show ?thesis using assms by (simp add: ret_def)
  qed
  then show "fst (daemon_handle jd tg msg s) = Inr ()"
    and "intervals (snd (daemon_handle jd tg msg s)) = daemon_spec msg (intervals s)"
    and "recording (snd (daemon_handle jd tg msg s))" by blast+
qed

lemma daemon_run_records:
  "recording s \<Longrightarrow> intervals (snd (forM ms (daemon_handle jd tg) s)) = fold daemon_spec ms (intervals s)"
proof (induction ms arbitrary: s)
  case (Cons msg ms)
  note 1 = daemon_handle_records [OF Cons.prems, of jd tg msg]
  obtain s1 where s1: "daemon_handle jd tg msg s = (Inr (), s1)" using 1(1) by (cases "daemon_handle jd tg msg s") auto
  then show ?case using Cons.IH [of s1] 1 by (simp add: bindM_def)
qed (simp add: ret_def)

section \<open>The dashboard leaves the events alone\<close>

lemma keeps_events_stmt:
  "(\<And>d x d'. f d = Inr (x, d') \<Longrightarrow> focus_events d' = focus_events d) \<Longrightarrow> keeps (\<lambda>d. focus_events d = F) (stmt ctx f)"
  by (rule keeps_stmt) auto

lemma keeps_events_ops [keeps_rules]:
  "keeps (\<lambda>d. focus_events d = F) (CreateTag now n c)" "keeps (\<lambda>d. focus_events d = F) (update_tag i n c)"
  "keeps (\<lambda>d. focus_events d = F) (replace_event_tag e t)" "keeps (\<lambda>d. focus_events d = F) (CreateNote now e txt)"
  "keeps (\<lambda>d. focus_events d = F) (insert_submission ctx at)" "keeps (\<lambda>d. focus_events d = F) (LinkEventToSubmission i e)"
  "keeps (\<lambda>d. focus_events d = F) (PomodoroCreate now w b pst ptag)" "keeps (\<lambda>d. focus_events d = F) (stop_pomodoro t)"
  "keeps (\<lambda>d. focus_events d = F) (CreateRule now t app title prio sugg)" "keeps (\<lambda>d. focus_events d = F) (delete_rule i)"
  "keeps (\<lambda>d. focus_events d = F) (put_rule i t app title)" "keeps (\<lambda>d. focus_events d = F) (change_rules p f)"
  "keeps (\<lambda>d. focus_events d = F) (put_column V col v)"
  unfolding CreateTag_def update_tag_def replace_event_tag_def CreateNote_def insert_submission_def
    LinkEventToSubmission_def PomodoroCreate_def stop_pomodoro_def CreateRule_def delete_rule_def put_rule_def
    change_rules_def put_column_def
  by (rule keeps_events_stmt; auto simp: Let_def split: if_splits option.splits)+

lemma keeps_events_forM_columns [keeps_rules]: "keeps (\<lambda>d. focus_events d = F) (put_columns V ms ks)"
  by (induction V ms ks rule: put_columns.induct) (auto intro!: keeps_rules)

lemma keeps_events_Save [keeps_rules]: "keeps (\<lambda>d. focus_events d = F) (Save h ids now)"
  unfolding Save_def insert_auto_tag_def
  by (intro keeps_rules; (rule keeps_events_stmt)?; auto split: if_splits)

lemma dashboard_leaves_events:
  assumes "\<And>F. web_status V = Some p \<Longrightarrow> keeps (\<lambda>d. focus_events d = F) (LastLayoutSnapshot p) \<and>
      keeps (\<lambda>d. focus_events d = F) (LastServerSync p)"
    and "web_status V = Some p"
  shows "keeps (\<lambda>d. focus_events d = F) (web_serve V req)"
  using assms
  by (cases req) (auto simp: web_handlers keeps_get_config Let_def Load_def web_submission_def
      split: option.splits json.split intro!: keeps_rules)

lemma keeps_or_zero [keeps_rules]: "keeps I m \<Longrightarrow> keeps I (or_zero m)"
  unfolding or_zero_def by (intro keeps_rules)

lemma keeps_status [keeps_rules]: "keeps I lastLayoutSnapshot" "keeps I lastServerSync"
  unfolding lastLayoutSnapshot_def lastServerSync_def by (intro keeps_rules)+

lemma dashboard_events:
  "focus_events (tables (snd (web_serve (V\<lparr>web_status := Some (statusSnapshot d)\<rparr>) req s))) = focus_events (tables s)"
proof -
  have "keeps (\<lambda>x. focus_events x = focus_events (tables s)) (web_serve (V\<lparr>web_status := Some (statusSnapshot d)\<rparr>) req)"
    by (rule dashboard_leaves_events [of _ "statusSnapshot d"]) (auto simp: statusSnapshot_def intro: keeps_rules)
  then show ?thesis by (simp add: keeps_def)
qed

section \<open>All interleavings\<close>

text \<open>
  Runs of the daemon; the number counts the closes of the recorder that failed.
\<close>

definition close_fails :: "(stamp \<Rightarrow> stamp \<Rightarrow> int) \<Rightarrow> daemon_event \<Rightarrow> daemon \<Rightarrow> nat" where
  "close_fails jd e d =
     (case e of
        RecorderCloses now \<Rightarrow> (case fst (CloseLatestOpenFocusEvent jd now (dae_store d)) of Inl _ \<Rightarrow> 1 | Inr _ \<Rightarrow> 0)
      | _ \<Rightarrow> 0)"

inductive daemon_run :: "(stamp \<Rightarrow> stamp \<Rightarrow> int) \<Rightarrow> daemon \<Rightarrow> nat \<Rightarrow> daemon \<Rightarrow> bool" for jd where
  daemon_start: "start now s = Inr d \<Longrightarrow> daemon_run jd d 0 d"
| daemon_move: "daemon_run jd d0 n d \<Longrightarrow> daemon_step jd e d = Some d' \<Longrightarrow> daemon_run jd d0 (n + close_fails jd e d) d'"

inductive_cases daemon_runE: "daemon_run jd d0 n d"

text \<open>No acknowledgement reaches the switch, so it never leaves its first interval.\<close>

definition switch_inv :: "daemon \<Rightarrow> bool" where
  "switch_inv d = (dm_tier (dae_switch d) = 0 \<and> \<not> dm_ack (dae_switch d) \<and> dm_intervals (dae_switch d) = default_intervals)"

lemma own_step_inv:
  assumes "dm_step e sw = Some sw'" and "own_event e" and "dm_tier sw = 0" and "\<not> dm_ack sw"
  shows "dm_tier sw' = 0 \<and> \<not> dm_ack sw' \<and> dm_intervals sw' = dm_intervals sw"
  using assms by (cases e) (auto simp: dm_ops split: dm_splits)

lemma switch_step: "daemon_step jd e d = Some d' \<Longrightarrow> switch_inv d \<Longrightarrow> switch_inv d'"
  by (cases e) (auto simp: switch_inv_def on_store_def dm_reset_call_def dest: own_step_inv
      split: if_splits option.splits list.splits prod.splits sum.splits recorder_pc.splits listener_pc.splits)

lemma switch_start: "start now s = Inr d \<Longrightarrow> switch_inv d"
  by (auto simp: start_def DefaultDeadman_def NewDeadman_def switch_inv_def StartDeadman_def start_timer_def
      split: prod.splits sum.splits if_splits)

lemma switch_run: "daemon_run jd d0 n d \<Longrightarrow> switch_inv d"
  by (induction rule: daemon_run.induct) (auto intro: switch_start switch_step)

text \<open>The number of open events, against the number of failed closes.\<close>

definition opens :: "daemon \<Rightarrow> nat" where
  "opens d = length (open_events (tables (dae_store d)))"

lemma close_open_count:
  assumes "(closeCurrentFocusEvent jd now s) = (r, s')"
  shows "length (open_events (tables s')) \<le> length (open_events (tables s))"
    and "fst (CloseLatestOpenFocusEvent jd now s) = Inr n \<Longrightarrow> length (open_events (tables s')) \<le> length (open_events (tables s)) - 1"
proof -
  let ?rows = "focus_events (tables s)"
  have fewer: "length (filter (\<lambda>r. fe_ended r = None) (sql_update p (close_row jd t) rows)) \<le>
      length (filter (\<lambda>r. fe_ended r = None) rows)" for p t rows
    by (induction rows) (auto simp: sql_update_def)
  have less: "length (filter (\<lambda>r. fe_ended r = None) (sql_update p (close_row jd t) rows)) <
      length (filter (\<lambda>r. fe_ended r = None) rows)" if "x \<in> set rows" "p x" "fe_ended x = None" for p t rows x
    using that
  proof (induction rows)
    case (Cons y ys)
    then show ?case using fewer [of p t ys] by (auto simp: sql_update_def)
  qed simp
  have s': "s' = snd (CloseLatestOpenFocusEvent jd now s)"
    using assms by (simp add: closeCurrentFocusEvent_def logged_def)
  show "length (open_events (tables s')) \<le> length (open_events (tables s))"
    using fewer unfolding s' by (auto simp: open_events_def CloseLatestOpenFocusEvent_def stmt_def Let_def)
  assume ok: "fst (CloseLatestOpenFocusEvent jd now s) = Inr n"
  then have t: "focus_events (tables s') = close_latest jd now ?rows"
    unfolding s' by (auto simp: CloseLatestOpenFocusEvent_def stmt_def Let_def close_latest_def split: if_splits)
  show "length (open_events (tables s')) \<le> length (open_events (tables s)) - 1"
  proof (cases "latest_open ?rows")
    case None
    then have "open_events (tables s) = []" by (auto simp: latest_open_None open_events_def filter_empty_conv)
    then show ?thesis using t None by (simp add: open_events_def close_latest_def sql_update_def)
  next
    case (Some i)
    then obtain x where "x \<in> set ?rows" "fe_id x = i" "fe_ended x = None" using latest_open_Some(1) by blast
    then show ?thesis
      using t less [of x ?rows "\<lambda>r. Some (fe_id r) = latest_open ?rows" "rfc3339 now"] Some
      by (simp add: open_events_def close_latest_def)
  qed
qed

fun about_to_insert :: "recorder_pc \<Rightarrow> bool" where
  "about_to_insert (RecInsert fc) = True" | "about_to_insert _ = False"

definition open_inv :: "nat \<Rightarrow> daemon \<Rightarrow> bool" where
  "open_inv n d = (opens d \<le> n + 1 \<and> (about_to_insert (dae_recorder d) \<longrightarrow> opens d \<le> n))"

lemma insert_open_count: "insert_focus fc s = (r, s') \<Longrightarrow>
    length (open_events (tables s')) \<le> length (open_events (tables s)) + (case r of Inl _ \<Rightarrow> 0 | Inr _ \<Rightarrow> 1)"
  by (auto simp: insert_focus_def InsertFocusEvent_def stmt_def Let_def open_events_def split: if_splits)

lemma opens_store: "opens (on_store m d) = length (open_events (tables (snd (m (dae_store d)))))"
  by (simp add: opens_def on_store_def)

lemma open_step:
  assumes "daemon_step jd e d = Some d'" and "open_inv n d"
  shows "open_inv (n + close_fails jd e d) d'"
proof -
  have close: "open_inv (n + k) (on_store (closeCurrentFocusEvent jd now) d1)"
    if "dae_store d1 = dae_store d" "\<not> about_to_insert (dae_recorder d1) \<or> dae_recorder d1 = dae_recorder d" for now d1 k
    using that assms(2) close_open_count(1) [of jd now "dae_store d"]
    by (cases "closeCurrentFocusEvent jd now (dae_store d)") (auto simp: open_inv_def opens_store opens_def on_store_def)
  show ?thesis
  proof (cases e)
    case (RecorderCloses now)
    then obtain fc where fc: "dae_recorder d = RecClose fc"
      and d': "d' = on_store (closeCurrentFocusEvent jd now) (d\<lparr>dae_recorder := RecInsert fc\<rparr>)"
      using assms(1) by (auto split: recorder_pc.splits)
    obtain r s' where c: "closeCurrentFocusEvent jd now (dae_store d) = (r, s')" by fastforce
    note cnt = close_open_count [OF c]
    show ?thesis
    proof (cases "fst (CloseLatestOpenFocusEvent jd now (dae_store d))")
      case (Inl x)
      then show ?thesis using cnt(1) c assms(2) RecorderCloses by (simp add: d' open_inv_def opens_def on_store_def close_fails_def)
    next
      case (Inr m)
      then show ?thesis using cnt(2) [OF Inr] c assms(2) RecorderCloses
        by (simp add: d' open_inv_def opens_def on_store_def close_fails_def) linarith
    qed
  next
    case RecorderInserts
    then obtain fc where fc: "dae_recorder d = RecInsert fc" using assms(1) by (auto split: recorder_pc.splits)
    then have "opens d \<le> n" using assms(2) by (simp add: open_inv_def)
    then show ?thesis
      using assms(1) fc RecorderInserts insert_open_count [of fc "dae_store d"]
      by (cases "insert_focus fc (dae_store d)")
        (fastforce simp: open_inv_def opens_def close_fails_def split: sum.splits)
  next
    case (Dashboard V req)
    then show ?thesis using assms dashboard_events [of d V req "dae_store d"]
      by (auto simp: open_inv_def opens_def open_events_def close_fails_def)
  next
    case RecorderTags
    then show ?thesis using assms
      by (auto simp: open_inv_def opens_def on_store_def open_events_def tag_focus_events close_fails_def split: recorder_pc.splits)
  next
    case (LockCloses now)
    then show ?thesis using assms close [of _ 0 now] by (auto simp: close_fails_def split: if_splits)
  next
    case (SwitchCloses now)
    then show ?thesis using assms close [of _ 0 now] by (auto simp: close_fails_def split: if_splits)
  qed (use assms in \<open>auto simp: open_inv_def opens_def close_fails_def split: if_splits option.splits list.splits prod.splits
      recorder_pc.splits listener_pc.splits\<close>)
qed

lemma start_store: "start now s = Inr d \<Longrightarrow> dae_recorder d = RecIdle"
  by (auto simp: start_def split: prod.splits sum.splits)

lemma open_run: "daemon_run jd d0 n d \<Longrightarrow> opens d0 \<le> 1 \<Longrightarrow> open_inv n d"
proof (induction rule: daemon_run.induct)
  case (daemon_start now s d)
  then show ?case by (simp add: open_inv_def start_store)
qed (auto intro: open_step)

section \<open>Properties\<close>

text \<open>
  C35: However the goroutines, the switch and the dashboard interleave, and whichever statements fail, the
  store never has more open events than one plus the number of closes of the recorder that failed.
\<close>

theorem daemon_open_events:
  assumes "start now s = Inr d0" and "daemon_run jd d0 n d" and "length (open_events (tables (dae_store d0))) \<le> 1"
  shows "length (open_events (tables (dae_store d))) \<le> n + 1"
  using open_run [OF assms(2)] assms(3) by (simp add: open_inv_def opens_def)

text \<open>
  No button, page or signal of the client answers the switch: in every run its interval is the first
  one, 30 minutes, and it never grows; a check ends in a focus change or in a pause.
\<close>

theorem checks_go_unanswered:
  assumes "daemon_run jd d0 n d"
  shows "currentInterval (dae_switch d) = 30 * minute \<and> dm_step OnAck (dae_switch d) = None"
  using switch_run [OF assms]
  by (auto simp: switch_inv_def currentInterval_def default_intervals_def split: dm_phase.splits)


text \<open>The messages of a run in which no focus changes while the user is away, each handled at once.\<close>

fun punctual :: "bool \<Rightarrow> engine_msg list \<Rightarrow> bool" where
  "punctual p [] = True"
| "punctual p (FocusMsg now fc # ms) = (\<not> p \<and> rfc3339 now = rfc3339 (fc_time fc) \<and> punctual p ms)"
| "punctual p (PresenceMsg now Away # ms) = punctual True ms"
| "punctual p (PresenceMsg now Paused # ms) = punctual True ms"
| "punctual p (PresenceMsg now Tracking # ms) = punctual False ms"
| "punctual p (PresenceMsg now Checking # ms) = punctual p ms"
| "punctual p (DoneMsg now # ms) = False"

lemma close_open_stamp: "rfc3339 a = rfc3339 b \<Longrightarrow> close_open a = close_open b"
  unfolding close_open_def by (erule ssubst) (rule refl)

lemma punctual_specs: "punctual p ms \<Longrightarrow> fst (spec_run ms (ivs, p)) = fold daemon_spec ms ivs"
proof (induction p ms arbitrary: ivs rule: punctual.induct)
  case (2 p now fc ms)
  from 2(2) have "rfc3339 (fc_time fc) = rfc3339 now" by simp
  then have "close_open (fc_time fc) = close_open now" by (rule close_open_stamp)
  then show ?case using "2.IH" "2.prems" by (cases p; simp)
qed simp_all


definition closes_nothing :: "engine_msg \<Rightarrow> bool" where
  "closes_nothing msg = (case msg of FocusMsg now fc \<Rightarrow> False | PresenceMsg now st \<Rightarrow> st = Tracking \<or> st = Checking | DoneMsg now \<Rightarrow> True)"

lemma fold_closes_nothing: "list_all closes_nothing ms \<Longrightarrow> fold daemon_spec ms ivs = ivs"
  by (induction ms) (auto simp: closes_nothing_def split: engine_msg.splits)

text \<open>
  The daemon counts absence as work. A window that gets the focus while the screen is locked is
  recorded, and nothing but the next focus change ends its event: neither the unlocking nor a shutdown
  of the daemon does, so the event covers the time in which the machine was locked or off.
\<close>

theorem absence_is_recorded:
  assumes "no_fault s" and "store_inv (tables s)" and "length (open_events (tables s)) \<le> 1"
    and "list_all closes_nothing ms"
    and "s' = snd (forM (PresenceMsg t Away # FocusMsg n1 f1 # ms @ [FocusMsg n2 f2]) (daemon_handle jd tg) s)"
  shows "intervals s' = close_open t (intervals s) @
    [(fc_app f1, fc_title f1, rfc3339 (fc_time f1), Some (rfc3339 n2)),
     (fc_app f2, fc_title f2, rfc3339 (fc_time f2), None)]"
proof -
  have closed: "close_open b (close_open a ivs) = close_open a ivs" for a b ivs
    by (auto simp: close_open_def)
  have app: "close_open a (xs @ ys) = close_open a xs @ close_open a ys" for a xs ys
    by (simp add: close_open_def)
  have one: "close_open a [(app, title, st, None)] = [(app, title, st, Some (rfc3339 a))]" for a app title st
    by (simp add: close_open_def)
  have "recording s" using assms(1-3) by (simp add: recording_def store_inv_def store_wf_def)
  from daemon_run_records [OF this, of "PresenceMsg t Away # FocusMsg n1 f1 # ms @ [FocusMsg n2 f2]" jd tg]
  have "intervals s' = daemon_spec (FocusMsg n2 f2) (fold daemon_spec ms
      (daemon_spec (FocusMsg n1 f1) (daemon_spec (PresenceMsg t Away) (intervals s))))"
    unfolding assms(5) by simp
  also have "\<dots> = close_open n2 (close_open n1 (close_open t (intervals s)) @ [(fc_app f1, fc_title f1, rfc3339 (fc_time f1), None)]) @
      [(fc_app f2, fc_title f2, rfc3339 (fc_time f2), None)]"
    by (simp add: fold_closes_nothing [OF assms(4)])
  also have "\<dots> = close_open t (intervals s) @ [(fc_app f1, fc_title f1, rfc3339 (fc_time f1), Some (rfc3339 n2)),
      (fc_app f2, fc_title f2, rfc3339 (fc_time f2), None)]"
    by (simp add: closed app one)
  finally show ?thesis .
qed

section \<open>Starting with a bad setting\<close>

lemma load_config_bad:
  assumes "config (tables s) = Some c" and "cfg_tracking c = None"
  shows "\<exists>e s'. load_config s = (Inl e, s')"
  using assms by (simp add: load_config_def stmt_def Let_def)

text \<open>
  A daemon whose \<^verbatim>\<open>tracking_on\<close> was set to a text that is no number over the dashboard exits at
  every later start: the request is answered with success, and no later start gets past loading the
  configuration, whatever happens to the rest of the store.
\<close>

theorem bad_setting_stops_daemon:
  assumes "no_fault s" and "config (tables s) = Some c" and "ReadsAs (web_conv V) txt = None" and "permutes_keys (web_rng V)"
  shows "\<exists>s'. web_serve V (PatchConfig (patch_body ''tracking_on'' (JStr txt))) s = (Inr (jsonOK (status_json ''ok'')), s') \<and>
    (\<forall>d device server key sched s2 now.
       config d = config (tables s') \<and> setupDatabase False device server key sched d = Inr s2 \<longrightarrow>
       (\<exists>e. start now s2 = Inl e))"
proof -
  have "mset (web_rng V [''tracking_on'']) = {#''tracking_on''#}" using assms(4) by (simp add: permutes_keys_def)
  then have rng: "web_rng V [''tracking_on''] = [''tracking_on'']" by simp
  define s' where "s' = s\<lparr>ticks := Suc (ticks s), tables := (tables s)\<lparr>config := Some (set_tracking None c)\<rparr>\<rparr>"
  have put: "put_column (web_conv V) ''tracking_on'' (JStr txt) s = (Inr (), s')"
    using assms(1-3) by (simp add: put_column_def stmt_def Let_def set_column_def s'_def)
  have "web_serve V (PatchConfig (patch_body ''tracking_on'' (JStr txt))) s = (Inr (jsonOK (status_json ''ok'')), s')"
    using put by (simp add: handleUpdateConfig_def patch_body_def rng allowed_columns_def try_db_def bindM_def attempt_def ret_def)
  moreover have "\<exists>e. start now s2 = Inl e"
    if "config d = config (tables s')" and "setupDatabase False device server key sched d = Inr s2"
    for d device server key sched s2 now
  proof -
    have "config (tables s2) = Some (set_tracking None c)" using that by (auto simp: setupDatabase_def s'_def)
    then obtain e s3 where "load_config s2 = (Inl e, s3)" using load_config_bad [of s2] by (auto simp: set_tracking_def)
    then show ?thesis by (simp add: start_def bindM_def)
  qed
  ultimately show ?thesis by blast
qed

section \<open>The time of the last synchronisation\<close>

definition known_status :: "client_tables \<Rightarrow> bool" where
  "known_status d = (\<forall>r \<in> set (submissions d). sub_status r = ''pending'' \<or> sub_status r = ''confirmed'')"

lemma keeps_known_stmt:
  "(\<And>d x d'. f d = Inr (x, d') \<Longrightarrow> submissions d' = submissions d) \<Longrightarrow> keeps known_status (stmt ctx f)"
  by (rule keeps_stmt) (auto simp: known_status_def)

lemma keeps_known_ops [keeps_rules]:
  "keeps known_status (CreateTag now n c)" "keeps known_status (update_tag i n c)"
  "keeps known_status (replace_event_tag e t)" "keeps known_status (CreateNote now e txt)"
  "keeps known_status (LinkEventToSubmission i e)" "keeps known_status (PomodoroCreate now w b pst ptag)"
  "keeps known_status (stop_pomodoro t)" "keeps known_status (CreateRule now t app title prio sugg)"
  "keeps known_status (delete_rule i)" "keeps known_status (put_rule i t app title)"
  "keeps known_status (change_rules p f)" "keeps known_status (put_column V col v)"
  "keeps known_status (record_run rt)" "keeps known_status (CloseLatestOpenFocusEvent jd now)"
  "keeps known_status (InsertFocusEvent now app ftitle t)" "keeps known_status (IncrementHitCount i)"
  "keeps known_status (ApplyTagToEvent e t src frm)"
  unfolding CreateTag_def update_tag_def replace_event_tag_def CreateNote_def LinkEventToSubmission_def
    PomodoroCreate_def stop_pomodoro_def CreateRule_def delete_rule_def put_rule_def change_rules_def put_column_def
    record_run_def CloseLatestOpenFocusEvent_def InsertFocusEvent_def IncrementHitCount_def ApplyTagToEvent_def
  by (rule keeps_known_stmt; auto simp: Let_def split: if_splits option.splits)+

lemma keeps_known_submissions [keeps_rules]:
  "keeps known_status (insert_submission ctx at)" "keeps known_status (updateStatus i ''confirmed'' sid)"
  "keeps known_status (bumpRetry env i n)"
  unfolding insert_submission_def updateStatus_def bumpRetry_def
  by (intro keeps_rules keeps_stmt;
      fastforce simp: known_status_def Let_def new_submission_def set_sql_update status_row_def bump_row_def)+

lemma keeps_known_columns [keeps_rules]: "keeps known_status (put_columns V ms ks)"
  by (induction V ms ks rule: put_columns.induct) (auto intro!: keeps_rules)

lemma keeps_known_Save [keeps_rules]: "keeps known_status (Save h ids now)"
  unfolding Save_def insert_auto_tag_def
  by (intro keeps_rules; (rule keeps_known_stmt)?; auto split: if_splits)

lemma keeps_known_web: "keeps known_status (web_serve (V\<lparr>web_status := Some (statusSnapshot d)\<rparr>) req)"
  by (cases req) (auto simp: web_handlers keeps_get_config Let_def Load_def web_submission_def statusSnapshot_def
      split: option.splits json.split intro!: keeps_rules)

lemma keeps_known_auto: "keeps known_status (RunOnce now clock)"
  unfolding RunOnce_def Load_def eligibleEvents_def CreateSubmission_def by (intro keeps_rules)

lemma keeps_known_processOne [keeps_rules]: "keeps known_status (processOne env rng dev p)"
  unfolding processOne_def loadSubmissionEntries_def by (intro keeps_rules | simp add: Let_def split: option.splits)+

lemma keeps_known_processAll [keeps_rules]: "keeps known_status (processAll env rng dev ps)"
  by (induction ps) (auto intro!: keeps_rules)

lemma keeps_known_queue: "keeps known_status (ProcessPending env rng dev)"
  unfolding ProcessPending_def listDueSubmissions_def by (intro keeps_rules)

lemma keeps_known_handle: "keeps known_status (daemon_handle jd tg msg)"
  by (cases msg) (auto simp: record_focus_def closeCurrentFocusEvent_def insert_focus_def tag_focus_def
      ProcessFocusEvent_def tagApplier_def intro!: keeps_rules)

text \<open>What the client does with its store.\<close>

datatype activity =
    Recording tagger engine_msg
  | Browsing daemon web_env web_request
  | AutoSubmitting gotime gotime
  | Uploading "TimesheetSubmission env" string

fun activity_step :: "(stamp \<Rightarrow> stamp \<Rightarrow> int) \<Rightarrow> (string list \<Rightarrow> string list) \<Rightarrow> activity \<Rightarrow> unit client" where
  "activity_step jd rng (Recording tg msg) = daemon_handle jd tg msg"
| "activity_step jd rng (Browsing d V req) = logged (web_serve (V\<lparr>web_status := Some (statusSnapshot d)\<rparr>) req)"
| "activity_step jd rng (AutoSubmitting now clock) = logged (RunOnce now clock)"
| "activity_step jd rng (Uploading env dev) = logged (ProcessPending env rng dev)"

lemma keeps_known_activities: "keeps known_status (forM acts (activity_step jd rng))"
proof (rule keeps_forM)
  show "keeps known_status (activity_step jd rng a)" for a
    by (cases a) (auto intro: keeps_known_web keeps_known_auto keeps_known_queue keeps_known_handle keeps_logged)
qed

text \<open>
  The time of the last synchronisation that the status shows never accounts for a timesheet: it is
  that of the last layout, whatever the client did, since no submission ever gets the status it looks for.
\<close>

theorem sync_time_ignores_timesheets:
  assumes "known_status (tables s)" and "s' = snd (forM acts (activity_step jd rng) s)"
  shows "fst (LastServerSync (statusSnapshot d) (healthy (tables s'))) =
    Inr (map_option parse_rfc3339 (max_stamp (synced_stamps (tables s'))))"
proof -
  have "known_status (tables s')" using keepsD [OF keeps_known_activities] assms by simp
  then have "sent_stamps (tables s') = []" by (auto simp: known_status_def sent_stamps_def filter_empty_conv)
  then show ?thesis
    by (simp add: statusSnapshot_def lastServerSync_def or_zero_def try_db_def query_def stmt_def bindM_def attempt_def ret_def
        Let_def max_stamp_def later_def split: option.split)
qed

section \<open>Examples\<close>

definition first_store :: client_tables where
  "first_store = empty_store\<lparr>config := Some \<lparr>cfg_device = ''d'', cfg_server = ''s'', cfg_api_key = ''k'', cfg_tracking = Some 1,
     cfg_autostart = Some 0, cfg_intervals = ''[30]'', cfg_pomodoro = ''{}''\<rparr>\<rparr>"

definition day_diff :: "stamp \<Rightarrow> stamp \<Rightarrow> int" where "day_diff e s = e - s"

definition started :: daemon where
  "started = (case start 0 (healthy first_store) of Inr d \<Rightarrow> d | Inl e \<Rightarrow> undefined)"

lemma first_start: "start 0 (healthy first_store) = Inr started"
  by (simp add: started_def start_def load_config_def NewTagger_def RefreshRules_def ListAll_def query_def stmt_def bindM_def
      ret_def first_store_def empty_store_def joined_rules_def order_asc_def DefaultDeadman_def NewDeadman_def
      default_intervals_def minute_def second_def)

lemma started_simps: "dae_tracking started" "dae_recorder started = RecIdle" "dae_focus started = []"
  "focus_events (tables (dae_store started)) = []" "store_inv (tables (dae_store started))" "no_fault (dae_store started)"
  by (simp_all add: started_def start_def load_config_def NewTagger_def RefreshRules_def ListAll_def query_def stmt_def bindM_def
      ret_def first_store_def empty_store_def joined_rules_def order_asc_def DefaultDeadman_def NewDeadman_def store_inv_defs
      default_intervals_def minute_def second_def)

text \<open>A run that has taken a focus change and closed what was open.\<close>

lemma example_run:
  "\<exists>d. daemon_run day_diff started 0 d \<and> dae_recorder d = RecInsert fc1"
proof -
  have 0: "daemon_run day_diff started 0 started" by (rule daemon_start [OF first_start])
  let ?d1 = "started\<lparr>dae_focus := [fc1]\<rparr>"
  let ?d2 = "?d1\<lparr>dae_focus := [], dae_switch := dm_reset_call (dae_switch started), dae_recorder := RecClose fc1\<rparr>"
  let ?d3 = "on_store (closeCurrentFocusEvent day_diff (11 * second)) (?d2\<lparr>dae_recorder := RecInsert fc1\<rparr>)"
  have s: "daemon_step day_diff (FocusArrives fc1) started = Some ?d1" "daemon_step day_diff RecorderTakes ?d1 = Some ?d2"
    "daemon_step day_diff (RecorderCloses (11 * second)) ?d2 = Some ?d3"
    by (simp_all add: started_simps)
  have c: "close_fails day_diff (FocusArrives fc1) started = 0" "close_fails day_diff RecorderTakes ?d1 = 0"
    "close_fails day_diff (RecorderCloses (11 * second)) ?d2 = 0"
    by (simp_all add: close_fails_def CloseLatestOpenFocusEvent_def stmt_def Let_def started_simps)
  have "daemon_run day_diff started 0 ?d3"
    using daemon_move [OF daemon_move [OF daemon_move [OF 0 s(1)] s(2)] s(3)] c by simp
  then show ?thesis by (intro exI [of _ ?d3]) (simp add: on_store_def)
qed

lemma daemon_open_events_witness:
  "\<exists>d. daemon_run day_diff started 0 d \<and> dae_recorder d = RecInsert fc1 \<and> length (open_events (tables (dae_store d))) \<le> 0 + 1"
proof -
  obtain d where d: "daemon_run day_diff started 0 d" "dae_recorder d = RecInsert fc1" using example_run by blast
  show ?thesis
    using daemon_open_events [OF first_start d(1)] d by (auto simp: open_events_def started_simps)
qed

lemma checks_go_unanswered_witness:
  "\<exists>d :: daemon. dae_recorder d = RecInsert fc1 \<and> currentInterval (dae_switch d) = 30 * minute"
  using checks_go_unanswered example_run by blast

lemma empty_recording: "store_inv (tables (healthy empty_store))" "length (open_events (tables (healthy empty_store))) \<le> 1"
  "intervals (healthy empty_store) = []"
  using store_inv_empty by (auto simp: open_events_def empty_store_def intervals_def)



lemma absence_is_recorded_witness:
  "intervals (snd (forM [PresenceMsg (20 * second) Away, FocusMsg (70 * second) fc2, DoneMsg (80 * second), FocusMsg (500 * second) fc3]
     (daemon_handle day_diff \<lparr>tg_rules = []\<rparr>) (healthy empty_store))) =
   [(''slack'', ''x'', 70, Some 500), (''vim'', ''b.go'', 500, None)]"
  using absence_is_recorded [OF _ empty_recording(1,2) _ refl, of "[DoneMsg (80 * second)]"
      "20 * second" "70 * second" fc2 "500 * second" fc3 day_diff "\<lparr>tg_rules = []\<rparr>"] empty_recording(3)
  by (simp add: closes_nothing_def fc2_def fc3_def close_open_def rfc3339_def del: forM.simps daemon_handle.simps)

lemma bad_setting_stops_daemon_witness:
  "\<exists>s' e. web_serve some_env (PatchConfig (patch_body ''tracking_on'' (JStr ''yes''))) (healthy web_store) =
      (Inr (jsonOK (status_json ''ok'')), s') \<and>
    start 0 (healthy ((tables s')\<lparr>foreign_keys := False\<rparr>)) = Inl e"
proof -
  have "\<exists>c. config (tables (healthy web_store)) = Some c" by (simp add: web_store_def)
  then obtain c where "config (tables (healthy web_store)) = Some c" ..
  from bad_setting_stops_daemon [OF _ this, of some_env "''yes''"]
  obtain s' where s': "web_serve some_env (PatchConfig (patch_body ''tracking_on'' (JStr ''yes''))) (healthy web_store) =
      (Inr (jsonOK (status_json ''ok'')), s')"
    and stop: "\<forall>d device server key sched s2 now.
       config d = config (tables s') \<and> setupDatabase False device server key sched d = Inr s2 \<longrightarrow> (\<exists>e. start now s2 = Inl e)"
    by (auto simp: some_env_def permutes_keys_def)
  have "setupDatabase False [] [] [] (\<lambda>_. False) (tables s') = Inr (healthy ((tables s')\<lparr>foreign_keys := False\<rparr>))"
    by (simp add: setupDatabase_def healthy_def)
  then show ?thesis using stop s' by blast
qed

lemma sync_time_ignores_timesheets_witness:
  "fst (LastServerSync (statusSnapshot started) (healthy (empty_store\<lparr>submissions := [(new_submission 7 200)\<lparr>sub_status := ''confirmed''\<rparr>]\<rparr>))) = Inr None"
  using sync_time_ignores_timesheets [of "healthy (empty_store\<lparr>submissions := [(new_submission 7 200)\<lparr>sub_status := ''confirmed''\<rparr>]\<rparr>)"
      _ "[]" day_diff id started]
  by (simp add: known_status_def ret_def synced_stamps_def max_stamp_def empty_store_def List.map_filter_def)

end
