(* ===== verification/Tracker.thy ===== *)
theory Tracker
  imports Daemon
begin

text \<open>
  Where the messages of the daemon come from on Linux: the tracker that asks the desktop for the focused
  window every second (\<^verbatim>\<open>internal/client/tracker\<close>) and the listener for screen locks
  (\<^verbatim>\<open>presence/screenlock_linux.go\<close>). What \<^verbatim>\<open>gdbus\<close> prints is an argument.
\<close>

section \<open>Choosing a tracker\<close>

definition DetectSessionType :: "(string \<Rightarrow> string) \<Rightarrow> string" where
  "DetectSessionType env =
     (let sessionType = env ''XDG_SESSION_TYPE'' in
      if sessionType = ''x11'' then ''x11'' else if sessionType = ''wayland'' then ''wayland''
      else if env ''WAYLAND_DISPLAY'' \<noteq> [] then ''wayland''
      else if env ''DISPLAY'' \<noteq> [] then ''x11'' else ''unknown'')"

datatype tracker_kind = X11Tracker | WaylandTracker

text \<open>\<open>display\<close> and \<open>shell\<close> say whether the X server and GNOME Shell answer; \<open>cgo\<close> whether the build has C.\<close>

definition NewPlatformTracker :: "bool \<Rightarrow> bool \<Rightarrow> bool \<Rightarrow> (string \<Rightarrow> string) \<Rightarrow> tracker_kind option" where
  "NewPlatformTracker cgo display shell env =
     (let sessionType = DetectSessionType env in
      if sessionType = ''x11'' then if cgo \<and> display then Some X11Tracker else None
      else if sessionType = ''wayland'' then if shell then Some WaylandTracker else None
      else None)"

section \<open>Asking GNOME Shell\<close>

text \<open>The first line of a text as \<^verbatim>\<open>bufio.Scanner\<close> gives it, if there is one and it is not too long.\<close>

definition scan_line :: "string \<Rightarrow> string option" where
  "scan_line s =
     (let line = takeWhile (\<lambda>c. c \<noteq> CHR 0x0A) s in
      if s = [] \<or> 65536 \<le> length line then None else Some (TrimSuffix line [CHR 0x0D]))"

text \<open>\<open>json\<close> decodes a JSON text that is a string (or \<^verbatim>\<open>null\<close>). \<open>None\<close> is a panic of the slice expression.\<close>

definition parseGDBusEvalResult :: "(string \<Rightarrow> string option) \<Rightarrow> string \<Rightarrow> string option" where
  "parseGDBusEvalResult json out =
     (let raw = TrimSpace out in
      if \<not> HasPrefix raw ''(true,'' then Some []
      else let val = TrimSpace (TrimSuffix (TrimSpace (drop 1 (dropWhile (\<lambda>c. c \<noteq> CHR '','') raw))) '')'') in
        if HasPrefix val [CHR 0x27] \<and> HasSuffix val [CHR 0x27]
        then if length val < 2 then None else Some (take (length val - 2) (drop 1 val))
        else case json val of
            Some s \<Rightarrow> Some s
          | None \<Rightarrow> (case scan_line val of Some line \<Rightarrow> Some line | None \<Rightarrow> Some val))"

text \<open>What running \<^verbatim>\<open>gdbus\<close> for an expression gives, if it succeeds.\<close>

definition gnomeShellEval :: "(string \<Rightarrow> string option) \<Rightarrow> string option \<Rightarrow> string option" where
  "gnomeShellEval json out = (case out of None \<Rightarrow> Some [] | Some s \<Rightarrow> parseGDBusEvalResult json s)"

section \<open>Polling\<close>

text \<open>A tick: the state is what was reported last.\<close>

definition poll_tick :: "string \<times> string \<Rightarrow> gotime \<times> string \<times> string \<Rightarrow> FocusChange option" where
  "poll_tick lst seen =
     (case seen of (now, app, title) \<Rightarrow>
        if app \<noteq> fst lst \<or> title \<noteq> snd lst then Some \<lparr>fc_app = app, fc_title = title, fc_time = now\<rparr> else None)"

fun poll :: "string \<times> string \<Rightarrow> (gotime \<times> string \<times> string) list \<Rightarrow> FocusChange list" where
  "poll lst [] = []"
| "poll lst (seen # seens) =
     (case poll_tick lst seen of None \<Rightarrow> poll lst seens | Some fc \<Rightarrow> fc # poll (snd seen) seens)"

section \<open>Stopping\<close>

text \<open>
  The goroutine of the poller waits for its ticker, sends a change or has returned; the channel holds
  32 changes. Cancelling does not interrupt a poll or a send, and with a tick and the cancellation both
  ready either can be taken.
\<close>

datatype poller_pc = PollWaiting | PollSending FocusChange | PollReturned

record tracker_run =
  tk_last :: "string \<times> string"
  tk_pc :: poller_pc
  tk_events :: "FocusChange list"
  tk_cancelled :: bool
  tk_closed :: bool
  tk_panicked :: bool

definition started_tracker :: tracker_run where
  "started_tracker = \<lparr>tk_last = ([], []), tk_pc = PollWaiting, tk_events = [], tk_cancelled = False, tk_closed = False, tk_panicked = False\<rparr>"

datatype tracker_event = PollTick "gotime \<times> string \<times> string" | PollSends | PollSeesCancel | StopCancels | StopCloses | EventTaken

fun tracker_step :: "tracker_event \<Rightarrow> tracker_run \<Rightarrow> tracker_run option" where
  "tracker_step (PollTick seen) k =
     (if tk_pc k \<noteq> PollWaiting \<or> tk_panicked k then None
      else case poll_tick (tk_last k) seen of
          None \<Rightarrow> Some k
        | Some fc \<Rightarrow> Some (k\<lparr>tk_last := snd seen, tk_pc := PollSending fc\<rparr>))"
| "tracker_step PollSends k =
     (case tk_pc k of
        PollSending fc \<Rightarrow>
          if tk_panicked k then None
          else if tk_closed k then Some (k\<lparr>tk_panicked := True\<rparr>)
          else if length (tk_events k) < 32 then Some (k\<lparr>tk_events := tk_events k @ [fc], tk_pc := PollWaiting\<rparr>)
          else None
      | _ \<Rightarrow> None)"
| "tracker_step PollSeesCancel k =
     (if tk_pc k = PollWaiting \<and> tk_cancelled k then Some (k\<lparr>tk_pc := PollReturned\<rparr>) else None)"
| "tracker_step StopCancels k = Some (k\<lparr>tk_cancelled := True\<rparr>)"
| "tracker_step StopCloses k = (if tk_cancelled k \<and> \<not> tk_closed k then Some (k\<lparr>tk_closed := True\<rparr>) else None)"
| "tracker_step EventTaken k = (case tk_events k of [] \<Rightarrow> None | fc # q \<Rightarrow> Some (k\<lparr>tk_events := q\<rparr>))"

inductive tracker_reach :: "tracker_run \<Rightarrow> bool" where
  reach_start: "tracker_reach started_tracker"
| reach_step: "tracker_reach k \<Longrightarrow> tracker_step e k = Some k' \<Longrightarrow> tracker_reach k'"

section \<open>Screen locks\<close>

text \<open>What a line of \<^verbatim>\<open>gdbus monitor\<close> means, and the changes a stream of lines gives.\<close>

definition lock_line :: "string \<Rightarrow> State option" where
  "lock_line line =
     (if \<not> Contains line ''ActiveChanged'' then None
      else Some (if Contains line ''true'' then Away else Tracking))"

definition listenDBus :: "(gotime \<times> string) list \<Rightarrow> StateChange list" where
  "listenDBus lines = List.map_filter (\<lambda>(now, line). map_option (\<lambda>st. \<lparr>sc_state = st, sc_time = now\<rparr>) (lock_line line)) lines"

section \<open>Properties\<close>

lemma TrimSpace_wrap:
  assumes "s \<noteq> []" "\<not> is_space (hd s)" "\<not> is_space (last s)" "list_all is_space u" "list_all is_space v"
  shows "TrimSpace (u @ s @ v) = s"
proof -
  have drop: "dropWhile is_space (w @ x) = x" if "list_all is_space w" "x \<noteq> []" "\<not> is_space (hd x)" for w x
    using that by (induction w) (auto simp: neq_Nil_conv)
  have "dropWhile is_space (u @ s @ v) = s @ v"
    using drop [of u "s @ v"] assms by simp
  moreover have "dropWhile is_space (rev v @ rev s) = rev s"
    using drop [of "rev v" "rev s"] assms by (simp add: hd_rev list_all_iff)
  ultimately show ?thesis by (simp add: TrimSpace_def)
qed

lemma HasSuffix_append: "HasSuffix (s @ t) t"
proof -
  have "HasPrefix (p @ x) p" for p x by (induction p) auto
  then show ?thesis by (simp add: HasSuffix_def)
qed

lemma TrimSuffix_append [simp]: "TrimSuffix (s @ t) t = s"
  by (simp add: TrimSuffix_def HasSuffix_append)


text \<open>The messages of the reports when each is handled at once, and what an interval says of an instant.\<close>

definition prompt :: "FocusChange list \<Rightarrow> engine_msg list" where
  "prompt fcs = map (\<lambda>fc. FocusMsg (fc_time fc) fc) fcs"

definition covers :: "interval list \<Rightarrow> gotime \<times> string \<times> string \<Rightarrow> bool" where
  "covers ivs x = (case x of (t, app, title) \<Rightarrow>
     \<exists>st en. (app, title, st, en) \<in> set ivs \<and> st \<le> rfc3339 t \<and> (case en of None \<Rightarrow> True | Some e \<Rightarrow> rfc3339 t < e))"

definition nowhere :: "gotime \<times> string \<times> string \<Rightarrow> bool" where
  "nowhere x = (snd x = ([], []))"

lemma poll_append: "poll lst (xs @ ys) = poll lst xs @ poll (if xs = [] then lst else snd (last xs)) ys"
proof (induction lst xs rule: poll.induct)
  case (2 lst x xs)
  have "lst = snd x" if "poll_tick lst x = None"
    using that by (cases x) (auto simp: poll_tick_def prod_eq_iff split: if_splits)
  then show ?case using 2 by (auto split: option.split)
qed simp

lemma poll_leading: "poll ([], []) xs = poll ([], []) (dropWhile nowhere xs)"
  by (induction xs) (auto simp: nowhere_def poll_tick_def split: prod.splits)

lemma fold_daemon_prompt: "fold daemon_spec (prompt (fcs @ gs)) ivs = fold daemon_spec (prompt gs) (fold daemon_spec (prompt fcs) ivs)"
  by (simp add: prompt_def)

text \<open>After the reports on \<open>xs\<close>, the window seen last is open since it was seen first.\<close>

definition tracks :: "(gotime \<times> string \<times> string) list \<Rightarrow> interval list \<Rightarrow> bool" where
  "tracks xs ivs = ((\<forall>x \<in> set xs. covers ivs x) \<and>
     (\<exists>ps st. ivs = ps @ [(fst (snd (last xs)), snd (snd (last xs)), st, None)] \<and> st \<le> rfc3339 (fst (last xs)) \<and>
       (\<forall>(app, title, s, en) \<in> set ps. en \<noteq> None)))"

lemma covers_close:
  assumes "covers ivs x" "rfc3339 (fst x) < rfc3339 now"
  shows "covers (close_open now ivs @ ws) x"
proof -
  obtain t app title where x: "x = (t, app, title)" by (cases x) auto
  obtain st en where iv: "(app, title, st, en) \<in> set ivs" "st \<le> rfc3339 t" "case en of None \<Rightarrow> True | Some e \<Rightarrow> rfc3339 t < e"
    using assms(1) x by (auto simp: covers_def)
  have "(app, title, st, Some (case en of None \<Rightarrow> rfc3339 now | Some e \<Rightarrow> e)) \<in> set (close_open now ivs)"
    using iv(1) by (force simp: close_open_def)
  then show ?thesis using iv(2,3) assms(2) x by (cases en) (force simp: covers_def)+
qed

lemma covers_new: "st \<le> rfc3339 t \<Longrightarrow> covers (ivs @ [(app, title, st, None)]) (t, app, title)"
  unfolding covers_def by (simp, intro exI [of _ st] exI [of _ None]) simp

lemma tracks_new:
  assumes "\<forall>x \<in> set ys. covers (close_open t ivs @ [(app, title, rfc3339 t, None)]) x"
  shows "tracks (ys @ [(t, app, title)]) (close_open t ivs @ [(app, title, rfc3339 t, None)])"
proof -
  have "\<forall>(app, title, s, en) \<in> set (close_open t ivs). en \<noteq> None" by (auto simp: close_open_def)
  then show ?thesis using assms covers_new [of "rfc3339 t" t] by (fastforce simp: tracks_def)
qed

lemma polled_tracks:
  assumes "xs \<noteq> []" "\<not> nowhere (hd xs)" "sorted_wrt (\<lambda>x y. rfc3339 (fst x) < rfc3339 (fst y)) xs"
    and "\<forall>(app, title, s, en) \<in> set ivs. en \<noteq> None"
  shows "tracks xs (fold daemon_spec (prompt (poll ([], []) xs)) ivs)"
  using assms(1-3)
proof (induction xs rule: rev_induct)
  case (snoc y ys)
  obtain t app title where y: "y = (t, app, title)" by (cases y) auto
  let ?ivs = "fold daemon_spec (prompt (poll ([], []) ys)) ivs"
  show ?case
  proof (cases "ys = []")
    case True
    then have "fold daemon_spec (prompt (poll ([], []) (ys @ [y]))) ivs = close_open t ivs @ [(app, title, rfc3339 t, None)]"
      using snoc.prems(2) y by (auto simp: nowhere_def poll_tick_def prompt_def)
    then show ?thesis using True y tracks_new [of "[]"] by simp
  next
    case False
    then have ih: "tracks ys ?ivs" using snoc by (simp add: sorted_wrt_append)
    then obtain ps st where ps: "?ivs = ps @ [(fst (snd (last ys)), snd (snd (last ys)), st, None)]"
      "st \<le> rfc3339 (fst (last ys))" "\<forall>(app, title, s, en) \<in> set ps. en \<noteq> None"
      by (auto simp: tracks_def)
    have before: "rfc3339 (fst x) < rfc3339 t" if "x \<in> set ys" for x
      using snoc.prems(3) that y by (auto simp: sorted_wrt_append)
    show ?thesis
    proof (cases "poll_tick (snd (last ys)) y")
      case None
      then have same: "snd (last ys) = (app, title)" using y by (auto simp: poll_tick_def prod_eq_iff split: if_splits)
      have "st \<le> rfc3339 t" using ps(2) before [of "last ys"] False by fastforce
      then have "tracks (ys @ [y]) ?ivs"
        using ih ps same y covers_new [of st t ps app title] by (auto simp: tracks_def)
      then show ?thesis using None False by (simp add: poll_append)
    next
      case (Some fc)
      then have fc: "fc = \<lparr>fc_app = app, fc_title = title, fc_time = t\<rparr>"
        using y by (auto simp: poll_tick_def split: if_splits)
      have new: "fold daemon_spec (prompt (poll ([], []) (ys @ [y]))) ivs = close_open t ?ivs @ [(app, title, rfc3339 t, None)]"
        using Some False fc by (simp add: poll_append prompt_def)
      have "covers (close_open t ?ivs @ [(app, title, rfc3339 t, None)]) x" if "x \<in> set ys" for x
        using covers_close [of ?ivs x t] ih before [OF that] that by (auto simp: tracks_def)
      then show ?thesis using new y tracks_new [of ys t ?ivs app title] by simp
    qed
  qed
qed simp


lemma panic_needs_close: "tracker_reach k \<Longrightarrow> (tk_closed k \<longrightarrow> tk_cancelled k) \<and> (tk_panicked k \<longrightarrow> tk_closed k)"
proof (induction rule: tracker_reach.induct)
  case (reach_step k e k')
  then show ?case by (cases e) (auto split: list.splits if_splits poller_pc.splits option.splits)
qed (simp add: started_tracker_def)

text \<open>
  Stopping the tracker closes the channel its goroutine sends on: a change seen around the stop makes
  the daemon panic. Nothing else does.
\<close>

theorem stopping_tracker_can_panic:
  "(\<exists>k. tracker_reach k \<and> tk_panicked k) \<and> \<not> (\<exists>k. tracker_reach k \<and> tk_panicked k \<and> \<not> (tk_cancelled k \<and> tk_closed k))"
proof
  have "tracker_reach started_tracker" by (rule reach_start)
  then have 1: "tracker_reach (started_tracker\<lparr>tk_last := (''firefox'', ''Inbox''), tk_pc := PollSending \<lparr>fc_app = ''firefox'', fc_title = ''Inbox'', fc_time = 0\<rparr>\<rparr>)"
    (is "tracker_reach ?a")
    by (rule reach_step [of _ "PollTick (0, ''firefox'', ''Inbox'')"]) (simp add: started_tracker_def poll_tick_def)
  have 2: "tracker_reach (?a\<lparr>tk_cancelled := True\<rparr>)" by (rule reach_step [OF 1, of StopCancels]) simp
  have 3: "tracker_reach (?a\<lparr>tk_cancelled := True, tk_closed := True\<rparr>)"
    by (rule reach_step [OF 2, of StopCloses]) (simp add: started_tracker_def)
  have "tracker_reach (?a\<lparr>tk_cancelled := True, tk_closed := True, tk_panicked := True\<rparr>)"
    by (rule reach_step [OF 3, of PollSends]) (simp add: started_tracker_def)
  then show "\<exists>k. tracker_reach k \<and> tk_panicked k" by fastforce
  show "\<not> (\<exists>k. tracker_reach k \<and> tk_panicked k \<and> \<not> (tk_cancelled k \<and> tk_closed k))"
    using panic_needs_close by blast
qed

section \<open>Examples\<close>


definition seen_example :: "(gotime \<times> string \<times> string) list" where
  "seen_example = [(0, [], []), (second, ''firefox'', ''Inbox''), (2 * second, ''firefox'', ''Inbox''), (3 * second, ''code'', ''main.go'')]"


end
