(* ===== verification/Go_Path.thy ===== *)
theory Go_Path
  imports Go_Strings
begin

text \<open>
  What the code uses of \<^verbatim>\<open>path/filepath\<close>, for Unix: \<^verbatim>\<open>Clean\<close>, \<^verbatim>\<open>Join\<close> and \<^verbatim>\<open>Dir\<close>, that \<^verbatim>\<open>Join\<close> keeps
  the last part of a path, and that going from a directory to its parent ends.
\<close>

section \<open>Cleaning and joining\<close>

fun split_slash :: "string \<Rightarrow> string \<Rightarrow> string list" where
  "split_slash acc [] = [rev acc]"
| "split_slash acc (c # s) = (if c = CHR ''/'' then rev acc # split_slash [] s else split_slash (c # acc) s)"

fun clean_parts :: "bool \<Rightarrow> string list \<Rightarrow> string list \<Rightarrow> string list" where
  "clean_parts rooted st [] = rev st"
| "clean_parts rooted st (p # ps) =
     (if p = [] \<or> p = ''.'' then clean_parts rooted st ps
      else if p = ''..''
      then clean_parts rooted (case st of [] \<Rightarrow> if rooted then [] else [p] | q # qs \<Rightarrow> if q = ''..'' then p # st else qs) ps
      else clean_parts rooted (p # st) ps)"

definition filepath_Clean :: "string \<Rightarrow> string" where
  "filepath_Clean s =
     (let rooted = HasPrefix s ''/''; body = Join (clean_parts rooted [] (split_slash [] s)) ''/'' in
      if rooted then CHR ''/'' # body else if body = [] then ''.'' else body)"

definition filepath_Join :: "string list \<Rightarrow> string" where
  "filepath_Join es = (case dropWhile (\<lambda>e. e = []) es of [] \<Rightarrow> [] | fs \<Rightarrow> filepath_Clean (Join fs ''/''))"

text \<open>Everything up to the last separator.\<close>

definition filepath_Dir :: "string \<Rightarrow> string" where
  "filepath_Dir s = filepath_Clean (rev (dropWhile (\<lambda>c. c \<noteq> CHR ''/'') (rev s)))"

section \<open>The last part\<close>

definition last_part :: "string \<Rightarrow> string" where
  "last_part s = rev (takeWhile (\<lambda>c. c \<noteq> CHR ''/'') (rev s))"

lemma takeWhile_absent [simp]: "c \<notin> set s \<Longrightarrow> takeWhile (\<lambda>x. x \<noteq> c) s = s"
  by (induction s) auto

lemma split_append: "CHR ''/'' \<notin> set x \<Longrightarrow> split_slash acc (d @ CHR ''/'' # x) = split_slash acc d @ [x]"
proof (induction d arbitrary: acc)
  case Nil
  have "split_slash b y = [rev b @ y]" if "CHR ''/'' \<notin> set y" for b y
    using that by (induction y arbitrary: b) auto
  then show ?case using Nil by simp
qed auto

lemma split_plain: "CHR ''/'' \<notin> set x \<Longrightarrow> split_slash acc x = [rev acc @ x]"
  by (induction x arbitrary: acc) auto

lemma clean_last:
  "x \<notin> {[], ''.'', ''..''} \<Longrightarrow> \<exists>L. clean_parts r st (ps @ [x]) = L @ [x]"
  by (induction r st ps rule: clean_parts.induct) auto

lemma Join_last: "Join (L @ [x]) ''/'' = (if L = [] then x else Join L ''/'' @ CHR ''/'' # x)"
proof (induction L)
  case (Cons a L)
  then show ?case by (cases L) auto
qed simp

lemma last_part_append: "CHR ''/'' \<notin> set x \<Longrightarrow> last_part (d @ CHR ''/'' # x) = x"
  by (auto simp: last_part_def takeWhile_append)

lemma last_part_plain: "CHR ''/'' \<notin> set x \<Longrightarrow> last_part x = x"
  by (simp add: last_part_def)

lemma last_part_Join:
  assumes "CHR ''/'' \<notin> set x" "x \<notin> {[], ''.'', ''..''}"
  shows "last_part (filepath_Join [d, x]) = x"
proof -
  define s where "s = (if d = [] then x else d @ CHR ''/'' # x)"
  have "split_slash [] s = (if d = [] then [] else split_slash [] d) @ [x]"
    using assms(1) by (simp add: s_def split_append split_plain)
  then obtain ps where "split_slash [] s = ps @ [x]" by blast
  then obtain L where "clean_parts (HasPrefix s ''/'') [] (split_slash [] s) = L @ [x]"
    using clean_last [OF assms(2)] by metis
  moreover have "filepath_Join [d, x] = filepath_Clean s" using assms(2) by (auto simp: filepath_Join_def s_def)
  ultimately show ?thesis
    using assms last_part_append [OF assms(1), of "[]"] last_part_append [OF assms(1), of "CHR ''/'' # Join L ''/''"]
      last_part_append [OF assms(1), of "Join L ''/''"]
    by (auto simp: filepath_Clean_def Join_last last_part_plain)
qed

section \<open>Parents\<close>

definition weight :: "string list \<Rightarrow> nat" where
  "weight ps = (\<Sum>p \<leftarrow> ps. Suc (length p))"

lemma weight_simps [simp]: "weight [] = 0" "weight (p # ps) = Suc (length p) + weight ps"
  "weight (ps @ qs) = weight ps + weight qs" "weight (rev ps) = weight ps"
  by (simp_all add: weight_def flip: rev_map)

lemma length_Join: "Suc (length (Join ps ''/'')) \<le> max 1 (weight ps)"
  by (induction ps "''/'' :: string" rule: Join.induct) auto

lemma weight_split: "weight (split_slash acc s) = Suc (length acc + length s)"
  by (induction s arbitrary: acc) auto

lemma weight_clean: "weight (clean_parts r st ps) \<le> weight st + weight ps"
proof (induction r st ps rule: clean_parts.induct)
  case (2 r st p ps)
  then show ?case by (auto split: list.splits if_splits)
qed simp

lemma clean_empty: "clean_parts r st (ps @ [[]]) = clean_parts r st ps"
  by (induction r st ps rule: clean_parts.induct) auto

lemma split_trailing: "split_slash acc (s @ ''/'') = split_slash acc s @ [[]]"
  by (induction s arbitrary: acc) auto

lemma split_slash_Cons: "split_slash [] (CHR ''/'' # t) = [] # split_slash [] t"
  by simp

lemma short_body: "Suc (length (Join (clean_parts r [] (split_slash [] u)) ''/'')) \<le> Suc (length u)"
proof -
  have "weight (clean_parts r [] (split_slash [] u)) \<le> Suc (length u)"
    using weight_clean [of r "[]" "split_slash [] u"] by (simp add: weight_split)
  then show ?thesis using length_Join [of "clean_parts r [] (split_slash [] u)"] by simp
qed

lemma Clean_trailing:
  assumes "u \<noteq> []"
  shows "length (filepath_Clean (u @ ''/'')) < length (u @ ''/'')"
proof (cases "HasPrefix (u @ ''/'') ''/''")
  case True
  then obtain t where u: "u = CHR ''/'' # t" using assms by (cases u) auto
  have "clean_parts True [] (split_slash [] (u @ ''/'')) = clean_parts True [] (split_slash [] t)"
    by (simp add: u split_trailing clean_empty)
  then show ?thesis using short_body [of True t] True by (simp add: filepath_Clean_def Let_def u)
next
  case False
  have "clean_parts False [] (split_slash [] (u @ ''/'')) = clean_parts False [] (split_slash [] u)"
    by (simp add: split_trailing clean_empty)
  then show ?thesis using short_body [of False u] False assms by (simp add: filepath_Clean_def Let_def)
qed

lemma Clean_constants [simp]: "filepath_Clean [] = ''.''" "filepath_Clean ''/'' = ''/''" "filepath_Dir ''.'' = ''.''" "filepath_Dir ''/'' = ''/''"
  by code_simp+

text \<open>A directory that is neither the root nor the current one has a parent that is shorter or the current one.\<close>

lemma Dir_shrinks:
  assumes "s \<noteq> ''/''"
  shows "filepath_Dir s = ''.'' \<or> length (filepath_Dir s) < length s"
proof -
  define p where "p = rev (dropWhile (\<lambda>c. c \<noteq> CHR ''/'') (rev s))"
  have pre: "p = s \<or> length p < length s"
  proof (cases "rev s")
    case (Cons c q)
    then have len: "length s = Suc (length q)" by (metis length_Cons length_rev)
    show ?thesis
    proof (cases "c = CHR ''/''")
      case True
      then have "p = s" using Cons rev_rev_ident [of s] by (simp add: p_def)
      then show ?thesis ..
    next
      case False
      then have "length p \<le> length q" using Cons by (simp add: p_def length_dropWhile_le)
      then show ?thesis using len by simp
    qed
  qed (simp add: p_def)
  have dir: "filepath_Dir s = filepath_Clean p" by (simp add: filepath_Dir_def p_def)
  consider "p = []" | u where "p = u @ ''/''"
  proof (cases "dropWhile (\<lambda>c. c \<noteq> CHR ''/'') (rev s)")
    case (Cons c q)
    then have c: "c = CHR ''/''" using hd_dropWhile [of "\<lambda>c. c \<noteq> CHR ''/''" "rev s"] by simp
    have "p = rev q @ ''/''" unfolding p_def Cons c by simp
    then show ?thesis by (rule that(2))
  next
    case Nil
    show ?thesis by (rule that(1)) (simp add: p_def Nil)
  qed
  then show ?thesis
  proof cases
    case 1
    then show ?thesis by (simp add: dir)
  next
    case (2 u)
    then show ?thesis using pre Clean_trailing [of u] assms by (cases "u = []") (auto simp: dir)
  qed
qed

function ancestors :: "string \<Rightarrow> string list" where
  "ancestors d = d # (if filepath_Dir d = d then [] else ancestors (filepath_Dir d))"
  by auto
termination
proof (relation "measure (\<lambda>d. if d = ''.'' then 0 else Suc (length d))")
  fix d assume "filepath_Dir d \<noteq> d"
  then have "d \<noteq> ''/''" "d \<noteq> ''.''" by auto
  then show "(filepath_Dir d, d) \<in> measure (\<lambda>d. if d = ''.'' then 0 else Suc (length d))"
    using Dir_shrinks [of d] by auto
qed simp

declare ancestors.simps [simp del]

lemma Dir_fixed: "filepath_Dir d = d \<Longrightarrow> d \<in> {''/'', ''.''}"
  by (metis Dir_shrinks insertCI less_irrefl)

lemma ancestors_root [simp]: "ancestors ''.'' = [''.'']" "ancestors ''/'' = [''/'']"
  by (simp_all add: ancestors.simps)

lemma length_ancestors: "length (ancestors d) \<le> Suc (Suc (length d))"
proof (induction d rule: ancestors.induct)
  case (1 d)
  show ?case
  proof (cases "filepath_Dir d = d")
    case False
    then have "d \<noteq> ''/''" by auto
    then have "filepath_Dir d = ''.'' \<or> length (filepath_Dir d) < length d" by (rule Dir_shrinks)
    then show ?thesis using "1.IH" False by (auto simp: ancestors.simps [of d])
  qed (simp add: ancestors.simps [of d])
qed

lemma last_ancestor: "last (ancestors d) \<in> {''/'', ''.''}"
proof (induction d rule: ancestors.induct)
  case (1 d)
  have "ancestors x \<noteq> []" for x by (simp add: ancestors.simps [of x])
  then show ?case using 1 Dir_fixed [of d] by (auto simp: ancestors.simps [of d])
qed

end
