(* ===== verification/Client_Runtime.thy ===== *)
theory Client_Runtime
  imports Web_UI Go_Path
begin

text \<open>
  The files by which a running daemon is found (\<^verbatim>\<open>internal/client/runtime\<close>) and the commands that use
  them (\<^verbatim>\<open>cmd/trasker-client/cli.go\<close>): where they are, the check for another daemon, and what
  \<^verbatim>\<open>status\<close> and \<^verbatim>\<open>quit\<close> make of them.
\<close>

section \<open>Where the files are\<close>

text \<open>The environment, and the home directory if it is known.\<close>

definition StateDir :: "(string \<Rightarrow> string) \<Rightarrow> string option \<Rightarrow> err + string" where
  "StateDir env home =
     (if env ''XDG_STATE_HOME'' \<noteq> [] then Inr (filepath_Join [env ''XDG_STATE_HOME'', ''trasker''])
      else if env ''LOCALAPPDATA'' \<noteq> [] then Inr (filepath_Join [env ''LOCALAPPDATA'', ''Trasker'', ''state''])
      else case home of
        None \<Rightarrow> Inl (EInvalid ''runtime: resolve home dir'')
      | Some h \<Rightarrow> Inr (filepath_Join [h, ''.local'', ''state'', ''trasker'']))"

definition pidPath :: "string \<Rightarrow> string" where "pidPath dir = filepath_Join [dir, ''trasker.pid'']"
definition urlPath :: "string \<Rightarrow> string" where "urlPath dir = filepath_Join [dir, ''trasker.url'']"

section \<open>The machine\<close>

text \<open>
  Files with their content and time of change; what fails; and the processes: whether one answers a
  signal, and the name it has, where that can be read.
\<close>

record machine =
  mac_files :: "string \<rightharpoonup> string \<times> gotime"
  mac_unreadable :: "string \<Rightarrow> bool"
  mac_unwritable :: "string \<Rightarrow> bool"
  mac_no_mkdir :: bool
  mac_alive :: "int \<Rightarrow> bool"
  mac_comm :: "int \<Rightarrow> string option"

datatype read_result = NoFile | ReadFails | Content string

definition ReadFile :: "machine \<Rightarrow> string \<Rightarrow> read_result" where
  "ReadFile M p = (if mac_unreadable M p then ReadFails else case mac_files M p of None \<Rightarrow> NoFile | Some (c, t) \<Rightarrow> Content c)"

datatype pid_result = NoPid | BadPid | Pid int

definition readPID :: "machine \<Rightarrow> string \<Rightarrow> pid_result" where
  "readPID M p =
     (case ReadFile M p of
        NoFile \<Rightarrow> NoPid
      | ReadFails \<Rightarrow> BadPid
      | Content c \<Rightarrow> (case Atoi (TrimSpace c) of None \<Rightarrow> BadPid | Some n \<Rightarrow> if n \<le> 0 then BadPid else Pid n))"

definition processAlive :: "machine \<Rightarrow> int \<Rightarrow> bool" where
  "processAlive M pid = (0 < pid \<and> mac_alive M pid)"

definition processIsOurs :: "machine \<Rightarrow> int \<Rightarrow> bool" where
  "processIsOurs M pid = (case mac_comm M pid of None \<Rightarrow> True | Some name \<Rightarrow> TrimSpace name = ''trasker-client'')"

definition daemon_url :: "int \<Rightarrow> string" where
  "daemon_url port = ''http://127.0.0.1:'' @ show_int port"

datatype run_err = AlreadyRunning int | NotRunning | Corrupt | RunFailed

definition write_file :: "gotime \<Rightarrow> string \<Rightarrow> string \<Rightarrow> machine \<Rightarrow> machine" where
  "write_file now p c M = M\<lparr>mac_files := (mac_files M)(p \<mapsto> (c, now))\<rparr>"

text \<open>The check for another daemon, and the writing of the two files.\<close>

definition other_daemon :: "machine \<Rightarrow> string \<Rightarrow> int \<Rightarrow> int option" where
  "other_daemon M dir me =
     (case readPID M (pidPath dir) of
        Pid n \<Rightarrow> if n \<noteq> me \<and> processAlive M n \<and> processIsOurs M n then Some n else None
      | _ \<Rightarrow> None)"

definition write_state :: "gotime \<Rightarrow> string \<Rightarrow> int \<Rightarrow> int \<Rightarrow> machine \<Rightarrow> (run_err + unit) \<times> machine" where
  "write_state now dir me port M =
     (if mac_unwritable M (pidPath dir) then (Inl RunFailed, M)
      else let M1 = write_file now (pidPath dir) (show_int me) M in
        if mac_unwritable M (urlPath dir) then (Inl RunFailed, M1)
        else (Inr (), write_file now (urlPath dir) (daemon_url port) M1))"

definition WriteState :: "gotime \<Rightarrow> err + string \<Rightarrow> int \<Rightarrow> int \<Rightarrow> machine \<Rightarrow> (run_err + unit) \<times> machine" where
  "WriteState now sd me port M =
     (case sd of
        Inl e \<Rightarrow> (Inl RunFailed, M)
      | Inr dir \<Rightarrow>
          if mac_no_mkdir M then (Inl RunFailed, M)
          else (case other_daemon M dir me of
              Some n \<Rightarrow> (Inl (AlreadyRunning n), M)
            | None \<Rightarrow> write_state now dir me port M))"

record RunState =
  rs_pid :: int
  rs_url :: string
  rs_port :: int
  rs_started :: "gotime option"

definition parsePort :: "string \<Rightarrow> int" where
  "parsePort url =
     (if CHR '':'' \<notin> set url then 0
      else let rest = rev (takeWhile (\<lambda>c. c \<noteq> CHR '':'') (rev url)) in
        case Atoi (takeWhile (\<lambda>c. c \<noteq> CHR ''/'') rest) of None \<Rightarrow> 0 | Some n \<Rightarrow> n)"

definition ReadState :: "err + string \<Rightarrow> machine \<Rightarrow> run_err + RunState" where
  "ReadState sd M =
     (case sd of
        Inl e \<Rightarrow> Inl RunFailed
      | Inr dir \<Rightarrow>
          (case readPID M (pidPath dir) of
             NoPid \<Rightarrow> Inl NotRunning
           | BadPid \<Rightarrow> Inl RunFailed
           | Pid pid \<Rightarrow>
               if \<not> processAlive M pid then Inl NotRunning
               else (case ReadFile M (urlPath dir) of
                   NoFile \<Rightarrow> Inl Corrupt
                 | ReadFails \<Rightarrow> Inl RunFailed
                 | Content c \<Rightarrow> Inr \<lparr>rs_pid = pid, rs_url = TrimSpace c, rs_port = parsePort (TrimSpace c),
                     rs_started = map_option snd (mac_files M (pidPath dir))\<rparr>)))"

text \<open>A file that cannot be removed stops the clearing.\<close>

fun remove_all :: "string list \<Rightarrow> machine \<Rightarrow> (run_err + unit) \<times> machine" where
  "remove_all [] M = (Inr (), M)"
| "remove_all (p # ps) M =
     (if mac_files M p \<noteq> None \<and> mac_unwritable M p then (Inl RunFailed, M)
      else remove_all ps (M\<lparr>mac_files := (mac_files M)(p := None)\<rparr>))"

definition Clear :: "err + string \<Rightarrow> machine \<Rightarrow> (run_err + unit) \<times> machine" where
  "Clear sd M = (case sd of Inl e \<Rightarrow> (Inl RunFailed, M) | Inr dir \<Rightarrow> remove_all [pidPath dir, urlPath dir] M)"

section \<open>The commands\<close>

record statusResponse =
  st_pid :: int
  st_port :: int
  st_started :: string
  st_uptime :: int
  st_presence :: string
  st_lock :: string
  st_layout :: string
  st_sync :: string

definition status_shape :: shape where
  "status_shape = SStruct [(''pid'', SInt), (''port'', SInt), (''started_at'', SString), (''uptime_seconds'', SInt),
     (''presence_state'', SString), (''screen_lock_state'', SString), (''last_layout_snapshot'', SString),
     (''last_server_sync'', SString)]"

text \<open>The reply is its status and its body, or \<open>None\<close> if there is none.\<close>

definition fetchStatus :: "(int \<times> body) option \<Rightarrow> err + statusResponse" where
  "fetchStatus reply =
     (case reply of
        None \<Rightarrow> Inl (EInvalid ''transport'')
      | Some (code, b) \<Rightarrow>
          if code \<noteq> 200 then Inl (EInvalid ''HTTP'')
          else if \<not> decode_ok status_shape b then Inl (EInvalid ''decode response'')
          else Inr \<lparr>st_pid = num_field ''pid'' b, st_port = num_field ''port'' b, st_started = string_field ''started_at'' b,
            st_uptime = num_field ''uptime_seconds'' b, st_presence = string_field ''presence_state'' b,
            st_lock = string_field ''screen_lock_state'' b, st_layout = string_field ''last_layout_snapshot'' b,
            st_sync = string_field ''last_server_sync'' b\<rparr>)"

text \<open>The exit codes; \<open>get\<close> is the reply of a URL.\<close>

definition runStatus :: "err + string \<Rightarrow> machine \<Rightarrow> (string \<Rightarrow> (int \<times> body) option) \<Rightarrow> int" where
  "runStatus sd M get =
     (case ReadState sd M of
        Inl e \<Rightarrow> 1
      | Inr st \<Rightarrow> (case fetchStatus (get (rs_url st @ ''/api/status'')) of Inl e \<Rightarrow> 2 | Inr live \<Rightarrow> 0))"

definition runQuit :: "err + string \<Rightarrow> machine \<Rightarrow> (string \<Rightarrow> (int \<times> body) option) \<Rightarrow> int" where
  "runQuit sd M post_to =
     (case ReadState sd M of
        Inl e \<Rightarrow> 1
      | Inr st \<Rightarrow> (case post_to (rs_url st @ ''/api/quit'') of
            None \<Rightarrow> 1 | Some (code, b) \<Rightarrow> if code div 100 \<noteq> 2 then 2 else 0))"

datatype command = RunDaemon | Status | Open | Quit | InstallAutostart | Version | Help | Unknown string

definition dispatch :: "string list \<Rightarrow> command" where
  "dispatch argv =
     (case argv of
        [] \<Rightarrow> RunDaemon
      | [_] \<Rightarrow> RunDaemon
      | _ # c # _ \<Rightarrow>
          if c = ''status'' then Status else if c = ''open'' then Open else if c = ''quit'' then Quit
          else if c = ''install-autostart'' then InstallAutostart
          else if c \<in> {''version'', ''--version'', ''-v''} then Version
          else if c \<in> {''help'', ''--help'', ''-h''} then Help else Unknown c)"

definition orUnknown :: "string \<Rightarrow> string" where "orUnknown s = (if s = [] then ''unknown'' else s)"
definition orNever :: "string \<Rightarrow> string" where "orNever s = (if s = [] then ''never'' else s)"

text \<open>The program that opens an URL on a platform.\<close>

definition openURL :: "string \<Rightarrow> string \<Rightarrow> (string \<times> string list) option" where
  "openURL goos url =
     (if goos = ''linux'' then Some (''xdg-open'', [url])
      else if goos = ''darwin'' then Some (''open'', [url])
      else if goos = ''windows'' then Some (''rundll32'', [''url.dll,FileProtocolHandler'', url])
      else None)"

text \<open>\<open>starts\<close> says whether a program can be started.\<close>

definition runOpen :: "err + string \<Rightarrow> machine \<Rightarrow> string \<Rightarrow> (string \<times> string list \<Rightarrow> bool) \<Rightarrow> int" where
  "runOpen sd M goos starts =
     (case ReadState sd M of
        Inl e \<Rightarrow> 1
      | Inr st \<Rightarrow> (case openURL goos (rs_url st) of None \<Rightarrow> 1 | Some cmd \<Rightarrow> if starts cmd then 0 else 1))"

definition autostart_lines :: "string \<Rightarrow> string list" where
  "autostart_lines exe = [''[Desktop Entry]'', ''Type=Application'', ''Name=Trasker Client'',
     ''Comment=Trasker time-tracking daemon'', ''Exec='' @ exe, ''Hidden=false'', ''NoDisplay=false'',
     ''X-GNOME-Autostart-enabled=true'', []]"

definition writeAutostartDesktop ::
    "(string \<Rightarrow> string) \<Rightarrow> string option \<Rightarrow> gotime \<Rightarrow> string \<Rightarrow> machine \<Rightarrow> (err + string) \<times> machine" where
  "writeAutostartDesktop env home now exe M =
     (case (if env ''XDG_CONFIG_HOME'' \<noteq> [] then Some (env ''XDG_CONFIG_HOME'')
            else map_option (\<lambda>h. filepath_Join [h, ''.config'']) home) of
        None \<Rightarrow> (Inl (EInvalid ''resolve home dir''), M)
      | Some cfg \<Rightarrow>
          let path = filepath_Join [filepath_Join [cfg, ''autostart''], ''trasker-client.desktop''] in
          if mac_no_mkdir M then (Inl (EInvalid ''mkdir''), M)
          else if mac_unwritable M path then (Inl (EInvalid ''write''), M)
          else (Inr path, write_file now path (Join (autostart_lines exe) [CHR 0x0A]) M))"

text \<open>The own path of the program and what its symbolic links lead to, each if it can be found.\<close>

definition runInstallAutostart ::
    "(string \<Rightarrow> string) \<Rightarrow> string option \<Rightarrow> gotime \<Rightarrow> string option \<Rightarrow> (string \<Rightarrow> string option) \<Rightarrow> machine \<Rightarrow> int \<times> machine" where
  "runInstallAutostart env home now exe eval_links M =
     (case exe of
        None \<Rightarrow> (1, M)
      | Some e \<Rightarrow>
          (case writeAutostartDesktop env home now (case eval_links e of None \<Rightarrow> e | Some real \<Rightarrow> real) M of
             (Inl er, M') \<Rightarrow> (1, M')
           | (Inr path, M') \<Rightarrow> (0, M')))"

text \<open>\<^verbatim>\<open>Duration.String\<close> on whole seconds; the product is one of 64 bits.\<close>

definition show_seconds :: "int \<Rightarrow> string" where
  "show_seconds n =
     (let h = n div 3600; m = n div 60 mod 60; s = n mod 60 in
      (if h > 0 then show_int h @ ''h'' else []) @ (if n \<ge> 60 then show_int m @ ''m'' else []) @ show_int s @ ''s'')"

definition formatUptime :: "int \<Rightarrow> string" where
  "formatUptime secs =
     (if secs < 0 then ''0s''
      else let d = wrap64 (secs * second); n = \<bar>d\<bar> div second in
        if d < 0 \<and> n > 0 then CHR ''-'' # show_seconds n else show_seconds n)"

section \<open>What the files say\<close>

lemma paths_differ: "pidPath dir \<noteq> urlPath dir"
  using last_part_Join [of "''trasker.pid''" dir] last_part_Join [of "''trasker.url''" dir]
  by (auto simp: pidPath_def urlPath_def)

lemma spaceless_url: "TrimSpace (daemon_url port) = daemon_url port"
  unfolding daemon_url_def
  by (rule TrimSpace_id) (auto simp: is_space_def is_digit_def less_eq_char_def dest!: show_int_chars)

lemma parsePort_url:
  assumes "0 \<le> port" "int64 port"
  shows "parsePort (daemon_url port) = port"
proof -
  have plain: "CHR '':'' \<notin> set (show_int port)" "CHR ''/'' \<notin> set (show_int port)"
    by (auto simp: is_digit_def less_eq_char_def dest!: show_int_chars)
  have "rev (takeWhile (\<lambda>c. c \<noteq> CHR '':'') (rev (daemon_url port))) = show_int port"
    using plain(1) by (auto simp: daemon_url_def takeWhile_append)
  then show ?thesis
    using plain(2) assms by (auto simp: parsePort_def daemon_url_def Atoi_show_int)
qed

section \<open>Finding the daemon\<close>

lemma pid_file_read:
  assumes "mac_files M p = Some (show_int me, t)" "\<not> mac_unreadable M p" "0 < me" "int64 me"
  shows "readPID M p = Pid me"
  using assms by (simp add: readPID_def ReadFile_def Atoi_show_int)

lemma write_state_ok:
  assumes "write_state now dir me port M = (Inr (), M')"
  shows "M' = write_file now (urlPath dir) (daemon_url port) (write_file now (pidPath dir) (show_int me) M)"
  using assms by (auto simp: write_state_def Let_def split: if_splits)

lemma written_files:
  assumes "write_state now dir me port M = (Inr (), M')"
  shows "mac_files M' (pidPath dir) = Some (show_int me, now)" "mac_files M' (urlPath dir) = Some (daemon_url port, now)"
    and "M'\<lparr>mac_files := mac_files M\<rparr> = M"
  using write_state_ok [OF assms] paths_differ [of dir] by (auto simp: write_file_def)

lemma WriteState_ok:
  "WriteState now (Inr dir) me port M = (Inr (), M') \<longleftrightarrow>
   \<not> mac_no_mkdir M \<and> other_daemon M dir me = None \<and> write_state now dir me port M = (Inr (), M')"
  by (auto simp: WriteState_def split: option.splits)

lemma ReadState_written:
  assumes "mac_files M (pidPath dir) = Some (show_int me, t)" "mac_files M (urlPath dir) = Some (daemon_url port, t')"
    and "0 < me" "int64 me" "0 \<le> port" "int64 port" "mac_alive M me"
    and "\<not> mac_unreadable M (pidPath dir)" "\<not> mac_unreadable M (urlPath dir)"
  shows "ReadState (Inr dir) M = Inr \<lparr>rs_pid = me, rs_url = daemon_url port, rs_port = port, rs_started = Some t\<rparr>"
proof -
  have "readPID M (pidPath dir) = Pid me" using pid_file_read assms(1,3,4,8) by blast
  then show ?thesis
    using assms by (simp add: ReadState_def processAlive_def ReadFile_def spaceless_url parsePort_url)
qed

text \<open>What a dashboard reports as its status.\<close>

definition text_of :: "gotime option \<Rightarrow> string" where
  "text_of t = (case t of None \<Rightarrow> [] | Some x \<Rightarrow> format_rfc3339 x)"

definition live_status :: "web_env \<Rightarrow> provider \<Rightarrow> gotime option \<Rightarrow> gotime option \<Rightarrow> statusResponse" where
  "live_status V p snap synced =
     \<lparr>st_pid = web_pid V, st_port = web_port V, st_started = text_of (web_started V),
      st_uptime = (case web_started V of None \<Rightarrow> 0 | Some t \<Rightarrow> (web_now V - t) div second),
      st_presence = PresenceState p, st_lock = ScreenLockState p, st_layout = text_of snap, st_sync = text_of synced\<rparr>"

lemmas status_names = EqualFold_def ToLower_def lower_char_def


definition live_json :: "web_env \<Rightarrow> provider \<Rightarrow> gotime option \<Rightarrow> gotime option \<Rightarrow> json" where
  "live_json V p snap synced = JObj ([(''pid'', JNum (web_pid V)), (''port'', JNum (web_port V))] @
     time_member ''started_at'' (web_started V) @
     [(''uptime_seconds'', JNum (case web_started V of None \<Rightarrow> 0 | Some t \<Rightarrow> (web_now V - t) div second))] @
     optional_text ''presence_state'' (PresenceState p) @ optional_text ''screen_lock_state'' (ScreenLockState p) @
     time_member ''last_layout_snapshot'' snap @ time_member ''last_server_sync'' synced)"

lemmas status_simps = live_json_def time_member_def opt_member_def optional_text_def status_names

lemma status_fields:
  "num_field ''pid'' (Some (live_json V p snap synced)) = web_pid V"
  "num_field ''port'' (Some (live_json V p snap synced)) = web_port V"
  "string_field ''started_at'' (Some (live_json V p snap synced)) = text_of (web_started V)"
  "num_field ''uptime_seconds'' (Some (live_json V p snap synced)) = st_uptime (live_status V p snap synced)"
  "string_field ''presence_state'' (Some (live_json V p snap synced)) = PresenceState p"
  "string_field ''screen_lock_state'' (Some (live_json V p snap synced)) = ScreenLockState p"
  "string_field ''last_layout_snapshot'' (Some (live_json V p snap synced)) = text_of snap"
  "string_field ''last_server_sync'' (Some (live_json V p snap synced)) = text_of synced"
  by (simp_all add: status_simps string_field_def num_field_def live_status_def text_of_def split: option.split)

lemma status_decodes:
  assumes "int64 (web_pid V)" "int64 (web_port V)" "int64 (st_uptime (live_status V p snap synced))"
  shows "decode_ok status_shape (Some (live_json V p snap synced))"
  using assms
  by (auto simp: decode_ok_def status_shape_def status_simps live_status_def)

text \<open>C34: What \<^verbatim>\<open>trasker-client status\<close> decodes is what the dashboard of the daemon reported.\<close>

theorem status_reply_decodes:
  assumes "web_status V = Some p"
    and "LastLayoutSnapshot p s = (Inr snap, s1)" "LastServerSync p s1 = (Inr synced, s2)"
    and "int64 (web_pid V)" "int64 (web_port V)" "int64 (st_uptime (live_status V p snap synced))"
  shows "\<exists>code v. web_serve V GetStatus s = (Inr (code, v), s2) \<and>
    fetchStatus (Some (code, Some v)) = Inr (live_status V p snap synced)"
proof -
  have "web_serve V GetStatus s = (Inr (200, live_json V p snap synced), s2)"
    using assms(1-3) by (simp add: handleStatus_def bindM_def ret_def jsonOK_def live_json_def Let_def)
  moreover have "fetchStatus (Some (200, Some (live_json V p snap synced))) = Inr (live_status V p snap synced)"
    using status_decodes [OF assms(4-6)] by (simp add: fetchStatus_def status_fields) (simp add: live_status_def)
  ultimately show ?thesis by blast
qed

text \<open>The requests of the commands, served by the daemon at a base URL.\<close>

definition reply_of :: "(err + web_reply) \<times> 's \<Rightarrow> (int \<times> body) option" where
  "reply_of r = (case fst r of Inl e \<Rightarrow> None | Inr (code, v) \<Rightarrow> Some (code, Some v))"

definition dashboard_at :: "string \<Rightarrow> web_env \<Rightarrow> client_tables db \<Rightarrow> string \<Rightarrow> (int \<times> body) option" where
  "dashboard_at base V s url =
     (if url = base @ ''/api/status'' then reply_of (web_serve V GetStatus s)
      else if url = base @ ''/api/quit'' then reply_of (web_serve V PostQuit s) else None)"

text \<open>
  C32: A daemon that wrote its files is found by the commands: the state read back is the one written,
  \<^verbatim>\<open>status\<close> and \<^verbatim>\<open>quit\<close> reach its dashboard and succeed; once it has cleared its files, both report
  that no daemon runs.
\<close>

theorem running_daemon_is_found:
  assumes "WriteState now (Inr dir) me port M = (Inr (), M')"
    and "0 < me" "int64 me" "0 \<le> port" "int64 port" "mac_alive M me"
    and "\<not> mac_unreadable M (pidPath dir)" "\<not> mac_unreadable M (urlPath dir)"
    and "web_status V = Some p" "web_pid V = me" "web_port V = port"
    and "LastLayoutSnapshot p s = (Inr snap, s1)" "LastServerSync p s1 = (Inr synced, s2)"
    and "int64 (st_uptime (live_status V p snap synced))"
  shows "ReadState (Inr dir) M' = Inr \<lparr>rs_pid = me, rs_url = daemon_url port, rs_port = port, rs_started = Some now\<rparr> \<and>
    runStatus (Inr dir) M' (dashboard_at (daemon_url port) V s) = 0 \<and>
    runQuit (Inr dir) M' (dashboard_at (daemon_url port) V s) = 0 \<and>
    (\<exists>M''. Clear (Inr dir) M' = (Inr (), M'') \<and> ReadState (Inr dir) M'' = Inl NotRunning \<and>
      runStatus (Inr dir) M'' (dashboard_at (daemon_url port) V s) = 1)"
proof -
  have w: "write_state now dir me port M = (Inr (), M')" using assms(1) by (simp add: WriteState_ok)
  note files = written_files [OF w]
  have same: "mac_alive M' = mac_alive M" "mac_unreadable M' = mac_unreadable M" "mac_unwritable M' = mac_unwritable M"
    using write_state_ok [OF w] by (simp_all add: write_file_def)
  have st: "ReadState (Inr dir) M' = Inr \<lparr>rs_pid = me, rs_url = daemon_url port, rs_port = port, rs_started = Some now\<rparr>"
    using ReadState_written [OF files(1,2)] assms(2-8) same by simp
  have "web_serve V GetStatus s = (Inr (200, live_json V p snap synced), s2)"
    using assms(9,12,13) by (simp add: handleStatus_def bindM_def ret_def jsonOK_def live_json_def Let_def)
  then have status: "runStatus (Inr dir) M' (dashboard_at (daemon_url port) V s) = 0"
    using st status_decodes [of V p snap synced] assms(3,5,10,11,14)
    by (simp add: runStatus_def dashboard_at_def reply_of_def fetchStatus_def)
  have quit: "runQuit (Inr dir) M' (dashboard_at (daemon_url port) V s) = 0"
    using st by (simp add: runQuit_def dashboard_at_def reply_of_def handleQuit_def ret_def jsonOK_def)
  have able: "\<not> mac_unwritable M (pidPath dir)" "\<not> mac_unwritable M (urlPath dir)"
    using w by (auto simp: write_state_def Let_def split: if_splits)
  define M'' where "M'' = M'\<lparr>mac_files := (mac_files M')(pidPath dir := None, urlPath dir := None)\<rparr>"
  have "Clear (Inr dir) M' = (Inr (), M'')" using able same by (simp add: Clear_def M''_def)
  moreover have "ReadState (Inr dir) M'' = Inl NotRunning"
    using assms(7) same by (simp add: M''_def ReadState_def readPID_def ReadFile_def)
  ultimately show ?thesis using st status quit by (simp add: runStatus_def)
qed

section \<open>One daemon at a time\<close>

text \<open>The machine later, with the same files: \<open>alive\<close> and \<open>comm\<close> are its processes.\<close>

definition later_machine :: "(int \<Rightarrow> bool) \<Rightarrow> (int \<Rightarrow> string option) \<Rightarrow> machine \<Rightarrow> machine" where
  "later_machine alive comm M = M\<lparr>mac_alive := alive, mac_comm := comm\<rparr>"

text \<open>
  C33: A second daemon is refused exactly when the process in the file is alive and has the name of the
  program; a stale file, of a dead process or of a number that another program got, is overwritten.
\<close>

theorem second_daemon_refused:
  assumes "WriteState now (Inr dir) me port M = (Inr (), M')"
    and "0 < me" "int64 me" "\<not> mac_unreadable M (pidPath dir)" "other \<noteq> me"
  shows "WriteState now' (Inr dir) other port' (later_machine alive comm M') =
    (if alive me \<and> (case comm me of None \<Rightarrow> True | Some name \<Rightarrow> TrimSpace name = ''trasker-client'')
     then (Inl (AlreadyRunning me), later_machine alive comm M')
     else (Inr (), write_file now' (urlPath dir) (daemon_url port')
       (write_file now' (pidPath dir) (show_int other) (later_machine alive comm M'))))"
proof -
  define L where "L = later_machine alive comm M'"
  have w: "write_state now dir me port M = (Inr (), M')" and dirs: "\<not> mac_no_mkdir M"
    using assms(1) by (simp_all add: WriteState_ok)
  note files = written_files [OF w]
  have same: "mac_unreadable L = mac_unreadable M" "mac_unwritable L = mac_unwritable M" "mac_no_mkdir L = mac_no_mkdir M"
    "mac_files L = mac_files M'" "mac_alive L = alive" "mac_comm L = comm"
    using write_state_ok [OF w] by (simp_all add: write_file_def L_def later_machine_def)
  have able: "\<not> mac_unwritable M (pidPath dir)" "\<not> mac_unwritable M (urlPath dir)"
    using w by (auto simp: write_state_def Let_def split: if_splits)
  have "readPID L (pidPath dir) = Pid me"
    using pid_file_read [of L "pidPath dir" me now] files(1) assms(2-4) same by simp
  then have "other_daemon L dir other =
      (if alive me \<and> (case comm me of None \<Rightarrow> True | Some name \<Rightarrow> TrimSpace name = ''trasker-client'') then Some me else None)"
    using assms(2,5) same by (auto simp: other_daemon_def processAlive_def processIsOurs_def)
  then show ?thesis
    using dirs able same by (simp add: WriteState_def write_state_def Let_def write_file_def flip: L_def)
qed

text \<open>
  The check and the writing are not one step. Two daemons that both check before either writes both
  start; the files name the second, the commands find only that one, and when the first ends and clears
  its files, nothing finds the second although it runs.
\<close>

theorem racing_daemons_both_start:
  assumes "other_daemon M dir a = None" "other_daemon M dir b = None"
    and "\<not> mac_unwritable M (pidPath dir)" "\<not> mac_unwritable M (urlPath dir)"
    and "\<not> mac_unreadable M (pidPath dir)" "\<not> mac_unreadable M (urlPath dir)"
    and "mac_alive M a" "mac_alive M b" "0 < a" "0 < b" "int64 b" "0 \<le> port'" "int64 port'"
  shows "\<exists>M1 M2 M3. write_state now dir a port M = (Inr (), M1) \<and> write_state now' dir b port' M1 = (Inr (), M2) \<and>
    ReadState (Inr dir) M2 = Inr \<lparr>rs_pid = b, rs_url = daemon_url port', rs_port = port', rs_started = Some now'\<rparr> \<and>
    Clear (Inr dir) M2 = (Inr (), M3) \<and> processAlive M3 b \<and> ReadState (Inr dir) M3 = Inl NotRunning"
proof -
  define M1 where "M1 = write_file now (urlPath dir) (daemon_url port) (write_file now (pidPath dir) (show_int a) M)"
  define M2 where "M2 = write_file now' (urlPath dir) (daemon_url port') (write_file now' (pidPath dir) (show_int b) M1)"
  define M3 where "M3 = M2\<lparr>mac_files := (mac_files M2)(pidPath dir := None, urlPath dir := None)\<rparr>"
  note defs = M1_def M2_def M3_def write_file_def
  have one: "write_state now dir a port M = (Inr (), M1)" and two: "write_state now' dir b port' M1 = (Inr (), M2)"
    using assms(3,4) by (simp_all add: write_state_def Let_def defs)
  have "ReadState (Inr dir) M2 = Inr \<lparr>rs_pid = b, rs_url = daemon_url port', rs_port = port', rs_started = Some now'\<rparr>"
    using ReadState_written [OF written_files(1,2) [OF two]] assms by (simp add: defs)
  moreover have "Clear (Inr dir) M2 = (Inr (), M3)" using assms(3,4) by (simp add: Clear_def defs)
  moreover have "ReadState (Inr dir) M3 = Inl NotRunning"
    using assms(5) by (simp add: ReadState_def readPID_def ReadFile_def defs)
  moreover have "processAlive M3 b" using assms by (simp add: processAlive_def defs)
  ultimately show ?thesis using one two by blast
qed

text \<open>
  The commands do not look at the name of the process: after a crash, when another program has got
  the number, \<^verbatim>\<open>status\<close> and \<^verbatim>\<open>open\<close> take the daemon for running where a new one would start.
\<close>

theorem recycled_pid_reads_as_running:
  assumes "mac_files M (pidPath dir) = Some (show_int me, t)" "mac_files M (urlPath dir) = Some (daemon_url port, t')"
    and "0 < me" "int64 me" "0 \<le> port" "int64 port"
    and "\<not> mac_unreadable M (pidPath dir)" "\<not> mac_unreadable M (urlPath dir)"
    and "mac_alive M me" "mac_comm M me = Some name" "TrimSpace name \<noteq> ''trasker-client''" "starts (''xdg-open'', [daemon_url port])"
  shows "other_daemon M dir other = None \<and>
    ReadState (Inr dir) M = Inr \<lparr>rs_pid = me, rs_url = daemon_url port, rs_port = port, rs_started = Some t\<rparr> \<and>
    runStatus (Inr dir) M (\<lambda>url. None) = 2 \<and> runOpen (Inr dir) M ''linux'' starts = 0"
proof -
  have "readPID M (pidPath dir) = Pid me" using pid_file_read assms(1,3,4,7) by blast
  then have "other_daemon M dir other = None" using assms(10,11) by (simp add: other_daemon_def processIsOurs_def)
  then show ?thesis
    using ReadState_written [of M dir me t port t'] assms
    by (simp add: runStatus_def fetchStatus_def runOpen_def openURL_def)
qed

section \<open>Examples\<close>

definition fresh_machine :: machine where
  "fresh_machine = \<lparr>mac_files = Map.empty, mac_unreadable = (\<lambda>p. False), mac_unwritable = (\<lambda>p. False), mac_no_mkdir = False,
     mac_alive = (\<lambda>n. n < 1000), mac_comm = (\<lambda>n. if n < 100 then Some ''init'' else Some ''trasker-client'')\<rparr>"

definition some_dir :: string where "some_dir = ''/home/u/.local/state/trasker''"

definition some_provider :: provider where
  "some_provider = \<lparr>PresenceState = ''TRACKING'', ScreenLockState = [], LastLayoutSnapshot = ret (Some (3600 * second)),
     LastServerSync = ret None\<rparr>"

definition serving :: web_env where
  "serving = some_env\<lparr>web_pid := 123, web_started := Some (20 * second), web_status := Some some_provider\<rparr>"

definition with_files :: machine where
  "with_files = snd (WriteState 5 (Inr some_dir) 123 9746 fresh_machine)"

lemma WriteState_fresh: "WriteState 5 (Inr some_dir) 123 9746 fresh_machine = (Inr (), with_files)"
  by (simp add: with_files_def WriteState_def write_state_def other_daemon_def readPID_def ReadFile_def fresh_machine_def Let_def)

lemma serving_facts: "web_status serving = Some some_provider" "web_pid serving = 123" "web_port serving = 9746"
  "LastLayoutSnapshot some_provider s = (Inr (Some (3600 * second)), s)" "LastServerSync some_provider s = (Inr None, s)"
  "int64 (st_uptime (live_status serving some_provider snap synced))"
  by (simp_all add: serving_def some_env_def some_provider_def ret_def live_status_def int64_def second_def)

lemma status_reply_decodes_witness:
  "\<exists>code v. web_serve serving GetStatus (healthy empty_store) = (Inr (code, v), healthy empty_store) \<and>
    fetchStatus (Some (code, Some v)) = Inr (live_status serving some_provider (Some (3600 * second)) None)"
  by (rule status_reply_decodes) (simp_all add: serving_facts, simp_all add: int64_def)

lemma running_daemon_is_found_witness:
  "runStatus (Inr some_dir) with_files (dashboard_at (daemon_url 9746) serving (healthy empty_store)) = 0"
proof -
  have "int64 123" "int64 9746" "mac_alive fresh_machine 123" "\<not> mac_unreadable fresh_machine p" for p
    by (simp_all add: int64_def fresh_machine_def)
  then show ?thesis
    using running_daemon_is_found [OF WriteState_fresh, where V = serving] serving_facts by simp
qed

lemma second_daemon_refused_witness:
  "fst (WriteState 9 (Inr some_dir) 456 9747 (later_machine (\<lambda>n. True) (\<lambda>n. Some ''trasker-client'') with_files)) =
     Inl (AlreadyRunning 123) \<and>
   fst (WriteState 9 (Inr some_dir) 456 9747 (later_machine (\<lambda>n. n = 456) (\<lambda>n. None) with_files)) = Inr ()"
proof -
  have "TrimSpace ''trasker-client'' = ''trasker-client''" by code_simp
  then show ?thesis
    by (simp add: second_daemon_refused [OF WriteState_fresh] fresh_machine_def int64_def)
qed

lemma racing_daemons_both_start_witness:
  "\<exists>M1 M2 M3. write_state 1 some_dir 123 9746 fresh_machine = (Inr (), M1) \<and> write_state 2 some_dir 456 9747 M1 = (Inr (), M2) \<and>
    ReadState (Inr some_dir) M2 = Inr \<lparr>rs_pid = 456, rs_url = daemon_url 9747, rs_port = 9747, rs_started = Some 2\<rparr> \<and>
    Clear (Inr some_dir) M2 = (Inr (), M3) \<and> processAlive M3 456 \<and> ReadState (Inr some_dir) M3 = Inl NotRunning"
  by (rule racing_daemons_both_start)
    (simp_all add: fresh_machine_def other_daemon_def readPID_def ReadFile_def int64_def)

definition crashed_machine :: machine where
  "crashed_machine = fresh_machine\<lparr>mac_files :=
     [pidPath some_dir \<mapsto> (show_int 77, 5), urlPath some_dir \<mapsto> (daemon_url 9746, 5)]\<rparr>"

lemma recycled_pid_reads_as_running_witness:
  "other_daemon crashed_machine some_dir 123 = None \<and> runStatus (Inr some_dir) crashed_machine (\<lambda>url. None) = 2"
proof -
  have "TrimSpace ''init'' = ''init''" by code_simp
  then show ?thesis
    using recycled_pid_reads_as_running [of crashed_machine some_dir 77 5 9746 5 "''init''" "\<lambda>c. True" 123]
      paths_differ [of some_dir]
    by (simp add: crashed_machine_def fresh_machine_def int64_def)
qed

end
