(* ===== verification/Desktop.thy ===== *)
theory Desktop
  imports Client_Runtime Tracker
begin

text \<open>
  What ties the client to the desktop: where its database is and how a first run makes it
  (\<^verbatim>\<open>setup/firstrun.go\<close>), the autostart and launcher entries
  (\<^verbatim>\<open>setup/autostart_linux.go\<close>, \<^verbatim>\<open>runtime/desktop.go\<close>), the menu of the tray
  (\<^verbatim>\<open>tray/tray.go\<close>) and the notification that asks whether the user is there (\<^verbatim>\<open>notify/dispatcher.go\<close>).
\<close>

section \<open>The data directory\<close>

definition DataDir :: "string \<Rightarrow> (string \<Rightarrow> string) \<Rightarrow> string option \<Rightarrow> err + string" where
  "DataDir goos env home =
     (if goos = ''linux''
      then (if env ''XDG_DATA_HOME'' \<noteq> [] then Inr (filepath_Join [env ''XDG_DATA_HOME'', ''trasker''])
            else case home of
              None \<Rightarrow> Inl (EInvalid ''firstrun: home dir'')
            | Some h \<Rightarrow> Inr (filepath_Join [filepath_Join [h, ''.local'', ''share''], ''trasker'']))
      else if goos = ''darwin''
      then (case home of
              None \<Rightarrow> Inl (EInvalid ''firstrun: home dir'')
            | Some h \<Rightarrow> Inr (filepath_Join [h, ''Library'', ''Application Support'', ''Trasker'']))
      else if goos = ''windows''
      then (if env ''APPDATA'' = [] then Inl (EInvalid ''firstrun: APPDATA not set'')
            else Inr (filepath_Join [env ''APPDATA'', ''Trasker'']))
      else Inl (EInvalid ''firstrun: unsupported OS''))"

definition DBPath :: "string \<Rightarrow> (string \<Rightarrow> string) \<Rightarrow> string option \<Rightarrow> err + string" where
  "DBPath goos env home = (case DataDir goos env home of Inl e \<Rightarrow> Inl e | Inr dir \<Rightarrow> Inr (filepath_Join [dir, ''trasker.db'']))"

text \<open>What looking at the database file gives: its tables, no file, or another error.\<close>

datatype db_file = DbThere client_tables | DbAbsent | DbHidden

definition IsFirstRun :: "err + string \<Rightarrow> db_file \<Rightarrow> err + bool" where
  "IsFirstRun path file = (case path of Inl e \<Rightarrow> Inl e | Inr p \<Rightarrow> Inr (file = DbAbsent))"

text \<open>
  \<^verbatim>\<open>store.New\<close> creates the tables, or fails and leaves some file; \<open>device\<close> is the new random id. The
  result comes with what is on the disk after it.
\<close>

definition FirstRun_Run ::
    "err + string \<Rightarrow> bool \<Rightarrow> db_file option \<Rightarrow> string \<Rightarrow> string \<Rightarrow> string \<Rightarrow> (nat \<Rightarrow> bool) \<Rightarrow> db_file \<Rightarrow>
     (err + client_tables db) \<times> db_file" where
  "FirstRun_Run dir mkdir new_fails device server key sched file =
     (case dir of
        Inl e \<Rightarrow> (Inl e, file)
      | Inr d \<Rightarrow>
          if \<not> mkdir then (Inl (EInvalid ''firstrun: create data dir''), file)
          else case new_fails of
              Some left \<Rightarrow> (Inl (EInvalid ''firstrun: init store''), left)
            | None \<Rightarrow>
                (case InitConfig device server key \<lparr>tables = empty_store, fault = sched, ticks = 0\<rparr> of
                   (Inl e, s) \<Rightarrow> (Inl e, DbThere (tables s))
                 | (Inr _, s) \<Rightarrow> (Inr s, DbThere (tables s))))"

text \<open>The start of the daemon up to its configuration, with the file it finds.\<close>

definition launch ::
    "err + string \<Rightarrow> bool \<Rightarrow> db_file option \<Rightarrow> string \<Rightarrow> string \<Rightarrow> string \<Rightarrow> (nat \<Rightarrow> bool) \<Rightarrow> gotime \<Rightarrow> db_file \<Rightarrow>
     (err + daemon) \<times> db_file" where
  "launch dir mkdir new_fails device server key sched now file =
     (case file of
        DbThere d \<Rightarrow> (case setupDatabase False device server key sched d of Inl e \<Rightarrow> (Inl e, file) | Inr s \<Rightarrow> (start now s, file))
      | DbHidden \<Rightarrow> (Inl (EDb ''open''), file)
      | DbAbsent \<Rightarrow>
          (case FirstRun_Run dir mkdir new_fails device server key sched file of
             (Inl e, f) \<Rightarrow> (Inl e, f) | (Inr s, f) \<Rightarrow> (start now s, f)))"

definition OpenBrowser :: "string \<Rightarrow> string \<Rightarrow> (string \<times> string list) option" where
  "OpenBrowser goos url =
     (if goos = ''linux'' then Some (''xdg-open'', [url])
      else if goos = ''darwin'' then Some (''open'', [url])
      else if goos = ''windows'' then Some (''cmd'', [''/c'', ''start'', url])
      else None)"

section \<open>Starting with the session\<close>

definition entry_lines :: "string \<Rightarrow> string list" where
  "entry_lines exe = [''[Desktop Entry]'', ''Type=Application'', ''Name=Trasker'', ''Comment=Time tracking daemon'',
     ''Exec='' @ exe, ''Hidden=false'', ''NoDisplay=false'', ''X-GNOME-Autostart-enabled=true'', []]"

definition desktopFilePath :: "(string \<Rightarrow> string) \<Rightarrow> string option \<Rightarrow> string" where
  "desktopFilePath env home =
     (let cfg = (if env ''XDG_CONFIG_HOME'' \<noteq> [] then env ''XDG_CONFIG_HOME''
                 else filepath_Join [case home of None \<Rightarrow> [] | Some h \<Rightarrow> h, ''.config''])
      in filepath_Join [cfg, ''autostart'', ''trasker.desktop''])"

definition Enable :: "(string \<Rightarrow> string) \<Rightarrow> string option \<Rightarrow> gotime \<Rightarrow> string \<Rightarrow> machine \<Rightarrow> bool \<times> machine" where
  "Enable env home now exe M =
     (let path = desktopFilePath env home in
      if mac_no_mkdir M \<or> mac_unwritable M path then (False, M)
      else (True, write_file now path (Join (entry_lines exe) [CHR 0x0A]) M))"

definition Disable :: "(string \<Rightarrow> string) \<Rightarrow> string option \<Rightarrow> machine \<Rightarrow> bool \<times> machine" where
  "Disable env home M =
     (let path = desktopFilePath env home in
      if mac_files M path \<noteq> None \<and> mac_unwritable M path then (False, M)
      else (True, M\<lparr>mac_files := (mac_files M)(path := None)\<rparr>))"

definition IsEnabled :: "(string \<Rightarrow> string) \<Rightarrow> string option \<Rightarrow> machine \<Rightarrow> bool" where
  "IsEnabled env home M = (mac_files M (desktopFilePath env home) \<noteq> None)"

text \<open>The switch of the tray: the setting and the entry, the errors of both ignored.\<close>

definition tray_autostart ::
    "(string \<Rightarrow> string) \<Rightarrow> string option \<Rightarrow> gotime \<Rightarrow> string \<Rightarrow> bool \<Rightarrow> client_tables db \<times> machine \<Rightarrow> client_tables db \<times> machine" where
  "tray_autostart env home now exe on = (\<lambda>(s, M).
     (snd (SetAutostartOn on s), snd (if on then Enable env home now exe M else Disable env home M)))"

text \<open>The launcher entry, which the daemon writes at every start.\<close>

definition launcher_lines :: "string \<Rightarrow> string list" where
  "launcher_lines exe = [''[Desktop Entry]'', ''Type=Application'', ''Name=Trasker'',
     ''Comment=Open the Trasker time-tracking dashboard'', ''Exec='' @ exe @ '' open'', ''Icon=appointment-new'',
     ''Terminal=false'', ''Categories=Utility;Office;'', ''Keywords=time;tracking;focus;pomodoro;'', []]"

definition desktopAppDir :: "(string \<Rightarrow> string) \<Rightarrow> string option \<Rightarrow> err + string" where
  "desktopAppDir env home =
     (if env ''XDG_DATA_HOME'' \<noteq> [] then Inr (filepath_Join [env ''XDG_DATA_HOME'', ''applications''])
      else case home of
        None \<Rightarrow> Inl (EInvalid ''runtime: resolve home dir'')
      | Some h \<Rightarrow> Inr (filepath_Join [h, ''.local'', ''share'', ''applications'']))"

definition WriteDesktopFile ::
    "(string \<Rightarrow> string) \<Rightarrow> string option \<Rightarrow> gotime \<Rightarrow> string option \<Rightarrow> machine \<Rightarrow> (err + unit) \<times> machine" where
  "WriteDesktopFile env home now exe M =
     (case exe of
        None \<Rightarrow> (Inl (EInvalid ''runtime: resolve executable''), M)
      | Some e \<Rightarrow>
          (case desktopAppDir env home of
             Inl er \<Rightarrow> (Inl er, M)
           | Inr dir \<Rightarrow>
               let dest = filepath_Join [dir, ''trasker.desktop''] in
               if mac_no_mkdir M then (Inl (EInvalid ''runtime: mkdir''), M)
               else if mac_unwritable M dest then (Inl (EInvalid ''runtime: write desktop file''), M)
               else (Inr (), write_file now dest (Join (launcher_lines e) [CHR 0x0A]) M)))"

section \<open>The tray\<close>

datatype tray_call = CallOpenDashboard | CallStartPomodoro | CallQuit
datatype tray_click = ClickDash | ClickPomo | ClickTrack | ClickAuto | ClickQuit

record tray_menu =
  tray_track :: bool
  tray_title :: string
  tray_auto :: bool
  tray_calls :: "tray_call list"
  tray_done :: bool

definition flag_of :: "bool client \<Rightarrow> client_tables db \<Rightarrow> bool \<times> client_tables db" where
  "flag_of m s = (case m s of (Inl e, s') \<Rightarrow> (False, s') | (Inr b, s') \<Rightarrow> (b, s'))"

definition onReady :: "client_tables db \<Rightarrow> tray_menu \<times> client_tables db" where
  "onReady s =
     (let (on, s1) = flag_of IsTrackingOn s; (auto, s2) = flag_of IsAutostartOn s1 in
      (\<lparr>tray_track = on, tray_title = ''Tracking ON'', tray_auto = auto, tray_calls = [], tray_done = False\<rparr>, s2))"

definition tray_call :: "tray_call \<Rightarrow> tray_menu \<Rightarrow> tray_menu" where
  "tray_call c m = m\<lparr>tray_calls := tray_calls m @ [c]\<rparr>"

text \<open>One turn of the loop.\<close>

fun eventLoop ::
    "((string \<Rightarrow> string) \<times> string option \<times> gotime \<times> string) \<Rightarrow> tray_click \<Rightarrow> tray_menu \<times> client_tables db \<times> machine \<Rightarrow>
     tray_menu \<times> client_tables db \<times> machine" where
  "eventLoop V ClickDash (m, s, M) = (tray_call CallOpenDashboard m, s, M)"
| "eventLoop V ClickPomo (m, s, M) = (tray_call CallStartPomodoro m, s, M)"
| "eventLoop V ClickTrack (m, s, M) =
     (let (on, s1) = flag_of IsTrackingOn s; s2 = snd (SetTrackingOn (\<not> on) s1) in
      (m\<lparr>tray_track := \<not> on, tray_title := if on then ''Tracking OFF'' else ''Tracking ON''\<rparr>, s2, M))"
| "eventLoop V ClickAuto (m, s, M) =
     (let (on, s1) = flag_of IsAutostartOn s; (env, home, now, exe) = V in
      (m\<lparr>tray_auto := \<not> on\<rparr>, tray_autostart env home now exe (\<not> on) (s1, M)))"
| "eventLoop V ClickQuit (m, s, M) = (tray_call CallQuit m\<lparr>tray_done := True\<rparr>, s, M)"

fun tray_run where
  "tray_run V [] st = st"
| "tray_run V (c # cs) st = (if tray_done (fst st) then st else tray_run V cs (eventLoop V c st))"

section \<open>Asking whether the user is there\<close>

text \<open>
  The click handler and the goroutine with the timeout both compare and swap one flag; who wins sends.
  The channel has room for one answer.
\<close>

datatype answer_pc = AnsIdle | AnsSending bool | AnsDone

record check_run =
  ck_clicked :: bool
  ck_result :: "bool list"
  ck_answers :: "bool list"
  ck_clicks :: "answer_pc"
  ck_timeout :: "answer_pc"

text \<open>\<open>shown\<close> is whether the notification could be shown; if not, the answer is given at once, no
  timeout runs and the click is not registered (\<^verbatim>\<open>notify_linux.go\<close>).\<close>

definition DeadmanCheck :: "bool \<Rightarrow> check_run" where
  "DeadmanCheck shown =
     (if shown then \<lparr>ck_clicked = False, ck_result = [], ck_answers = [], ck_clicks = AnsIdle, ck_timeout = AnsIdle\<rparr>
      else \<lparr>ck_clicked = False, ck_result = [False], ck_answers = [False], ck_clicks = AnsDone, ck_timeout = AnsDone\<rparr>)"

datatype check_event = Clicked | ClickSends | TimedOut | TimeoutSends | AnswerTaken

fun check_step :: "check_event \<Rightarrow> check_run \<Rightarrow> check_run option" where
  "check_step Clicked k =
     (if ck_clicks k = AnsDone \<and> \<not> ck_clicked k then None
      else if ck_clicked k then Some k
      else Some (k\<lparr>ck_clicked := True, ck_clicks := AnsSending True\<rparr>))"
| "check_step ClickSends k =
     (case ck_clicks k of
        AnsSending b \<Rightarrow> if ck_result k = [] then Some (k\<lparr>ck_result := [b], ck_answers := ck_answers k @ [b], ck_clicks := AnsDone\<rparr>) else None
      | _ \<Rightarrow> None)"
| "check_step TimedOut k =
     (if ck_timeout k \<noteq> AnsIdle then None
      else if ck_clicked k then Some (k\<lparr>ck_timeout := AnsDone\<rparr>)
      else Some (k\<lparr>ck_clicked := True, ck_timeout := AnsSending False\<rparr>))"
| "check_step TimeoutSends k =
     (case ck_timeout k of
        AnsSending b \<Rightarrow> if ck_result k = [] then Some (k\<lparr>ck_result := [b], ck_answers := ck_answers k @ [b], ck_timeout := AnsDone\<rparr>) else None
      | _ \<Rightarrow> None)"
| "check_step AnswerTaken k = (case ck_result k of [] \<Rightarrow> None | b # q \<Rightarrow> Some (k\<lparr>ck_result := q\<rparr>))"

inductive check_reach :: "bool \<Rightarrow> check_run \<Rightarrow> bool" for shown where
  check_start: "check_reach shown (DeadmanCheck shown)"
| check_next: "check_reach shown k \<Longrightarrow> check_step e k = Some k' \<Longrightarrow> check_reach shown k'"

section \<open>Properties\<close>

text \<open>
  A first run that fails after the file was created cannot be repaired by starting again: the next
  start takes the file for an installed client, finds no configuration in it and exits, and so does
  every later one.
\<close>

theorem interrupted_first_run_sticks:
  assumes "FirstRun_Run (Inr dir) True None device server key sched DbAbsent = (Inl e, file)"
  shows "IsFirstRun (Inr path) file = Inr False \<and>
    (\<exists>e'. launch dir' mkdir' new' device' server' key' sched' now' file = (Inl e', file))"
proof -
  have left: "file = DbThere empty_store"
    using assms by (auto simp: FirstRun_Run_def InitConfig_def stmt_def Let_def split: if_splits)
  have "\<exists>e' s'. load_config \<lparr>tables = empty_store\<lparr>foreign_keys := False\<rparr>, fault = sched', ticks = 0\<rparr> = (Inl e', s')"
    by (simp add: load_config_def stmt_def empty_store_def Let_def)
  then show ?thesis
    by (auto simp: IsFirstRun_def launch_def setupDatabase_def start_def bindM_def left)
qed

text \<open>Where the two autostart entries are.\<close>

lemma last_part_nested: "CHR ''/'' \<notin> set x \<Longrightarrow> x \<notin> {[], ''.'', ''..''} \<Longrightarrow> last_part (filepath_Join [c, ''autostart'', x]) = x"
proof -
  assume x: "CHR ''/'' \<notin> set x" "x \<notin> {[], ''.'', ''..''}"
  define d where "d = (if c = [] then ''autostart'' else c @ CHR ''/'' # ''autostart'')"
  have "filepath_Join [c, ''autostart'', x] = filepath_Join [d, x]" by (simp add: filepath_Join_def d_def)
  then show ?thesis using last_part_Join [OF x] by simp
qed

lemma autostart_paths_differ: "desktopFilePath env home \<noteq> filepath_Join [d, ''trasker-client.desktop'']"
proof
  assume "desktopFilePath env home = filepath_Join [d, ''trasker-client.desktop'']"
  then have "last_part (desktopFilePath env home) = ''trasker-client.desktop''" using last_part_Join by simp
  moreover have "last_part (desktopFilePath env home) = ''trasker.desktop''"
    unfolding desktopFilePath_def Let_def by (rule last_part_nested) simp_all
  ultimately show False by simp
qed

text \<open>
  The autostart entry of the tray is there after switching it on and gone after switching it off; the
  one of \<^verbatim>\<open>install-autostart\<close> is another file, which the tray neither shows nor removes.
\<close>

theorem autostart_entries_independent:
  assumes "writeAutostartDesktop env home now exe M = (Inr p, M1)"
    and "Enable env home now' exe M1 = (True, M2)" and "Disable env home M2 = (True, M3)"
  shows "IsEnabled env home M1 = IsEnabled env home M \<and> IsEnabled env home M2 \<and> \<not> IsEnabled env home M3 \<and>
    mac_files M3 p = Some (Join (autostart_lines exe) [CHR 0x0A], now)"
proof -
  obtain d where p: "p = filepath_Join [d, ''trasker-client.desktop'']"
    and M1: "M1 = write_file now p (Join (autostart_lines exe) [CHR 0x0A]) M"
    using assms(1) by (auto simp: writeAutostartDesktop_def Let_def split: option.splits if_splits)
  have M2: "M2 = write_file now' (desktopFilePath env home) (Join (entry_lines exe) [CHR 0x0A]) M1"
    using assms(2) by (auto simp: Enable_def Let_def split: if_splits)
  have M3: "M3 = M2\<lparr>mac_files := (mac_files M2)(desktopFilePath env home := None)\<rparr>"
    using assms(3) by (auto simp: Disable_def Let_def split: if_splits)
  show ?thesis
    using autostart_paths_differ [of env home d] by (simp add: IsEnabled_def M1 M2 M3 write_file_def p)
qed

text \<open>What the store says about a flag, and a menu that shows it.\<close>

definition stored :: "(config_row \<Rightarrow> int option) \<Rightarrow> client_tables db \<Rightarrow> bool" where
  "stored f s = (case config (tables s) of None \<Rightarrow> False | Some c \<Rightarrow> f c = Some 1)"

definition shows_store :: "tray_menu \<times> client_tables db \<times> machine \<Rightarrow> bool" where
  "shows_store st = (case st of (m, s, M) \<Rightarrow> no_fault s \<and> config (tables s) \<noteq> None \<and>
     tray_track m = stored cfg_tracking s \<and> tray_auto m = stored cfg_autostart s)"

lemma flag_of_tracking: "no_fault s \<Longrightarrow> flag_of IsTrackingOn s = (stored cfg_tracking s, s\<lparr>ticks := Suc (ticks s)\<rparr>)"
  by (auto simp: flag_of_def IsTrackingOn_def config_flag_def try_db_def attempt_def query_def stmt_def ret_def bindM_def stored_def
      split: option.splits)

lemma flag_of_autostart: "no_fault s \<Longrightarrow> flag_of IsAutostartOn s = (stored cfg_autostart s, s\<lparr>ticks := Suc (ticks s)\<rparr>)"
  by (auto simp: flag_of_def IsAutostartOn_def config_flag_def try_db_def attempt_def query_def stmt_def ret_def bindM_def stored_def
      split: option.splits)

lemma set_flags:
  assumes "no_fault s" "config (tables s) \<noteq> None"
  shows "no_fault (snd (SetTrackingOn on s))" "config (tables (snd (SetTrackingOn on s))) \<noteq> None"
    "stored cfg_tracking (snd (SetTrackingOn on s)) = on" "stored cfg_autostart (snd (SetTrackingOn on s)) = stored cfg_autostart s"
    "no_fault (snd (SetAutostartOn on s))" "config (tables (snd (SetAutostartOn on s))) \<noteq> None"
    "stored cfg_autostart (snd (SetAutostartOn on s)) = on" "stored cfg_tracking (snd (SetAutostartOn on s)) = stored cfg_tracking s"
  using assms
  by (auto simp: SetTrackingOn_def SetAutostartOn_def logged_def attempt_def stmt_def bindM_def ret_def stored_def bit_def
      set_tracking_def set_autostart_def split: option.splits)

lemma stored_ticks [simp]: "stored f (s\<lparr>ticks := n\<rparr>) = stored f s"
  by (simp add: stored_def)

lemma click_shows_store: "shows_store st \<Longrightarrow> shows_store (eventLoop V c st)"
proof (cases st)
  case (fields m s M)
  assume "shows_store st"
  then show ?thesis
    using fields set_flags [of "s\<lparr>ticks := Suc (ticks s)\<rparr>"]
    by (cases c; cases V)
      (simp_all add: shows_store_def tray_call_def flag_of_tracking flag_of_autostart tray_autostart_def Let_def)
qed

lemma run_shows_store: "shows_store st \<Longrightarrow> shows_store (tray_run V cs st)"
  by (induction V cs st rule: tray_run.induct) (auto simp: click_shows_store)

text \<open>
  As long as the statements on the database succeed, after any clicks the check marks of the tray are
  the settings of the store; the title starts as \<^verbatim>\<open>Tracking ON\<close> whatever they are.
\<close>

theorem tray_shows_settings:
  assumes "no_fault s" "config (tables s) \<noteq> None" "onReady s = (m0, s0)" "tray_run V cs (m0, s0, M) = (m, s', M')"
  shows "tray_title m0 = ''Tracking ON'' \<and> tray_track m = stored cfg_tracking s' \<and> tray_auto m = stored cfg_autostart s'"
proof -
  have "shows_store (m0, s0, M)" and t: "tray_title m0 = ''Tracking ON''"
    using assms(1-3) by (auto simp: onReady_def flag_of_tracking flag_of_autostart shows_store_def)
  then show ?thesis using run_shows_store [of "(m0, s0, M)" V cs] assms(4) by (simp add: shows_store_def)
qed

fun check_ok :: "bool \<Rightarrow> answer_pc \<Rightarrow> answer_pc \<Rightarrow> bool list \<Rightarrow> bool list \<Rightarrow> bool" where
  "check_ok False AnsIdle AnsIdle a r = (a = [] \<and> r = [])"
| "check_ok False AnsDone AnsDone a r = (a = [False])"
| "check_ok True (AnsSending b) (AnsSending c) a r = False"
| "check_ok True (AnsSending b) tp a r = (b \<and> a = [] \<and> r = [])"
| "check_ok True AnsDone (AnsSending c) a r = False"
| "check_ok True AnsDone tp a r = (a = [True])"
| "check_ok True AnsIdle (AnsSending c) a r = (\<not> c \<and> a = [] \<and> r = [])"
| "check_ok True AnsIdle AnsDone a r = (a = [False])"
| "check_ok c cl tp a r = False"

definition check_inv :: "check_run \<Rightarrow> bool" where
  "check_inv k = check_ok (ck_clicked k) (ck_clicks k) (ck_timeout k) (ck_answers k) (ck_result k)"

lemma check_step_inv: "check_step e k = Some k' \<Longrightarrow> check_inv k \<Longrightarrow> check_inv k'"
proof (cases k)
  case (fields c r a cl tp)
  assume "check_step e k = Some k'" "check_inv k"
  then show ?thesis
    by (cases e; cases c; cases cl; cases tp) (auto simp: fields check_inv_def split: if_splits list.splits)
qed

lemma check_reach_inv: "check_reach shown k \<Longrightarrow> check_inv k"
proof (induction rule: check_reach.induct)
  case check_start
  show ?case by (simp add: DeadmanCheck_def check_inv_def)
next
  case (check_next k e k')
  then show ?case using check_step_inv by blast
qed

text \<open>
  A check is answered once: however clicks and the timeout interleave, at most one answer is given,
  and when neither has anything left to do there is one.
\<close>

theorem check_answered_once:
  assumes "check_reach shown k"
  shows "length (ck_answers k) \<le> 1 \<and>
    ((\<forall>e \<in> {ClickSends, TimedOut, TimeoutSends}. check_step e k = None) \<longrightarrow> length (ck_answers k) = 1)"
  using check_reach_inv [OF assms]
  by (cases "ck_clicked k"; cases "ck_clicks k"; cases "ck_timeout k") (auto simp: check_inv_def)

section \<open>Examples\<close>

lemma interrupted_first_run_sticks_witness:
  "\<exists>file. fst (FirstRun_Run (Inr ''/home/u/.local/share/trasker'') True None ''dev'' ''https://t'' ''key'' (\<lambda>n. n = 0) DbAbsent) = Inl (EDb ''init config'') \<and>
     file = snd (FirstRun_Run (Inr ''/home/u/.local/share/trasker'') True None ''dev'' ''https://t'' ''key'' (\<lambda>n. n = 0) DbAbsent) \<and>
     (\<exists>e. launch (Inr ''/home/u/.local/share/trasker'') True None ''dev2'' ''https://t'' ''key'' (\<lambda>n. False) 0 file = (Inl e, file))"
proof -
  have "FirstRun_Run (Inr ''/home/u/.local/share/trasker'') True None ''dev'' ''https://t'' ''key'' (\<lambda>n. n = 0) DbAbsent =
      (Inl (EDb ''init config''), DbThere empty_store)"
    by (simp add: FirstRun_Run_def InitConfig_def stmt_def Let_def)
  then show ?thesis using interrupted_first_run_sticks by fastforce
qed

definition xdg_env :: "string \<Rightarrow> string" where
  "xdg_env k = (if k = ''XDG_CONFIG_HOME'' then ''/home/u/.config'' else [])"

lemma autostart_entries_independent_witness:
  "\<exists>p M1 M2 M3. writeAutostartDesktop xdg_env None 1 ''/usr/bin/trasker-client'' fresh_machine = (Inr p, M1) \<and>
     Enable xdg_env None 2 ''/usr/bin/trasker-client'' M1 = (True, M2) \<and> Disable xdg_env None M2 = (True, M3) \<and>
     \<not> IsEnabled xdg_env None M3 \<and> mac_files M3 p \<noteq> None"
proof -
  obtain p M1 where 1: "writeAutostartDesktop xdg_env None 1 ''/usr/bin/trasker-client'' fresh_machine = (Inr p, M1)"
    "mac_no_mkdir M1 = False" "\<And>q. \<not> mac_unwritable M1 q"
    by (simp add: writeAutostartDesktop_def xdg_env_def fresh_machine_def write_file_def Let_def)
  obtain M2 where 2: "Enable xdg_env None 2 ''/usr/bin/trasker-client'' M1 = (True, M2)" "\<And>q. \<not> mac_unwritable M2 q"
    using 1 by (simp add: Enable_def write_file_def Let_def)
  obtain M3 where 3: "Disable xdg_env None M2 = (True, M3)" using 2 by (simp add: Disable_def Let_def)
  show ?thesis using autostart_entries_independent [OF 1(1) 2(1) 3] 1(1) 2(1) 3 by blast
qed

lemma tray_shows_settings_witness:
  "\<exists>m0 s0 m s' M'. onReady (healthy first_store) = (m0, s0) \<and>
     tray_run (xdg_env, None, 1, ''/usr/bin/trasker-client'') [ClickTrack, ClickDash, ClickAuto] (m0, s0, fresh_machine) = (m, s', M') \<and>
     tray_track m = stored cfg_tracking s' \<and> tray_auto m = stored cfg_autostart s'"
proof -
  obtain m0 s0 where 1: "onReady (healthy first_store) = (m0, s0)" by fastforce
  obtain m s' M' where 2: "tray_run (xdg_env, None, 1, ''/usr/bin/trasker-client'') [ClickTrack, ClickDash, ClickAuto]
      (m0, s0, fresh_machine) = (m, s', M')" by (metis prod_cases3)
  have "config (tables (healthy first_store)) \<noteq> None" by (simp add: first_store_def)
  then show ?thesis using tray_shows_settings [OF healthy_simps(2) _ 1 2] 1 2 by blast
qed

lemma check_answered_once_witness:
  "\<exists>k. check_reach True k \<and> ck_clicked k \<and> length (ck_answers k) = 1"
proof -
  have 1: "check_reach True (DeadmanCheck True\<lparr>ck_clicked := True, ck_clicks := AnsSending True\<rparr>)" (is "check_reach True ?a")
    by (rule check_next [OF check_start, of Clicked]) (simp add: DeadmanCheck_def)
  have 2: "check_reach True (?a\<lparr>ck_result := [True], ck_answers := [True], ck_clicks := AnsDone\<rparr>)" (is "check_reach True ?b")
    by (rule check_next [OF 1, of ClickSends]) (simp add: DeadmanCheck_def)
  have 3: "check_reach True (?b\<lparr>ck_timeout := AnsDone\<rparr>)" (is "check_reach True ?c")
    by (rule check_next [OF 2, of TimedOut]) (simp add: DeadmanCheck_def)
  have "ck_clicked ?c" by simp
  moreover have "length (ck_answers ?c) = 1" using check_answered_once [OF 3] by simp
  ultimately show ?thesis using 3 by blast
qed

end
