(* ===== verification/Migrations.thy ===== *)
theory Migrations
  imports Go_Strings
begin

text \<open>
  The migration runner of the server (\<^verbatim>\<open>migrations/migrate.go\<close>). What a migration does to the
  database is an argument, \<open>run_sql\<close>; \<open>has_users\<close> tells whether the table of the first migration is
  there. The record of applied versions is \<open>None\<close> before its table is created.
\<close>

section \<open>Finding the migrations\<close>

record Migration =
  mig_version :: string
  mig_name :: string
  mig_file :: string
  mig_sql :: string

definition up_suffix :: string where "up_suffix = ''.up.sql''"

definition slug_char :: "char \<Rightarrow> bool" where
  "slug_char c = (is_digit c \<or> c = CHR ''_'' \<or> c = CHR ''-'' \<or>
     (let n = of_char c :: nat in 97 \<le> n \<and> n \<le> 122 \<or> 65 \<le> n \<and> n \<le> 90))"

text \<open>\<^verbatim>\<open>^(\d+)_([a-zA-Z0-9_-]+)\.up\.sql$\<close>\<close>

definition match_filename :: "string \<Rightarrow> (string \<times> string) option" where
  "match_filename f =
     (case dropWhile is_digit f of
        c # rest \<Rightarrow>
          (let digits = takeWhile is_digit f; slug = take (length rest - 7) rest in
           if digits \<noteq> [] \<and> c = CHR ''_'' \<and> HasSuffix rest up_suffix \<and> slug \<noteq> [] \<and> list_all slug_char slug
           then Some (digits, slug) else None)
      | [] \<Rightarrow> None)"

text \<open>An entry of the directory: its name, whether it is one itself, and its content if it can be read.\<close>

record dir_entry =
  entry_name :: string
  entry_dir :: bool
  entry_body :: "string option"

fun collect :: "dir_entry list \<Rightarrow> err + Migration list" where
  "collect [] = Inr []"
| "collect (e # es) =
     (if entry_dir e \<or> \<not> HasSuffix (entry_name e) up_suffix then collect es
      else case match_filename (entry_name e) of
          None \<Rightarrow> Inl (EInvalid ''migration filename'')
        | Some (v, slug) \<Rightarrow>
            (case entry_body e of
               None \<Rightarrow> Inl (EInvalid ''reading'')
             | Some body \<Rightarrow>
                 (case collect es of
                    Inl x \<Rightarrow> Inl x
                  | Inr ms \<Rightarrow> Inr (\<lparr>mig_version = v, mig_name = slug, mig_file = entry_name e, mig_sql = body\<rparr> # ms))))"

text \<open>The directory lists its entries by name, or cannot be read.\<close>

definition discover :: "dir_entry list option \<Rightarrow> err + Migration list" where
  "discover source =
     (case source of
        None \<Rightarrow> Inl (EInvalid ''reading migrations dir'')
      | Some es \<Rightarrow> (case collect es of Inl x \<Rightarrow> Inl x | Inr ms \<Rightarrow> Inr (sort_key mig_version ms)))"

section \<open>Applying them\<close>

record 'd pg_state =
  pg_schema :: 'd
  pg_versions :: "string list option"

type_synonym ('d, 'a) pg = "('d pg_state, 'a) dbm"

definition create_migrations_table :: "('d, unit) pg" where
  "create_migrations_table =
     stmt ''creating schema_migrations'' (\<lambda>d. Inr ((), case pg_versions d of None \<Rightarrow> d\<lparr>pg_versions := Some []\<rparr> | Some _ \<Rightarrow> d))"

definition loadAppliedVersions :: "('d, string list) pg" where
  "loadAppliedVersions =
     stmt ''loading applied versions'' (\<lambda>d. case pg_versions d of
         None \<Rightarrow> Inl (EDb ''no table'') | Some vs \<Rightarrow> Inr (vs, d))"

definition hasLegacySchema :: "('d \<Rightarrow> bool) \<Rightarrow> ('d, bool) pg" where
  "hasLegacySchema has_users = query ''checking for legacy schema'' (\<lambda>d. has_users (pg_schema d))"

text \<open>The insert of a version; \<open>quiet\<close> is \<^verbatim>\<open>ON CONFLICT DO NOTHING\<close>.\<close>

definition insert_version :: "bool \<Rightarrow> string \<Rightarrow> ('d, unit) pg" where
  "insert_version quiet v =
     stmt ''recording version'' (\<lambda>d. case pg_versions d of
         None \<Rightarrow> Inl (EDb ''no table'')
       | Some vs \<Rightarrow>
           if v \<in> set vs then (if quiet then Inr ((), d) else Inl (EConstraint ''schema_migrations_pkey''))
           else Inr ((), d\<lparr>pg_versions := Some (vs @ [v])\<rparr>))"

definition backfillVersions :: "string list \<Rightarrow> ('d, unit) pg" where
  "backfillVersions versions = in_tx ''begin'' ''commit'' (forM versions (insert_version True))"

definition applyOne :: "(string \<Rightarrow> 'd \<Rightarrow> 'd option) \<Rightarrow> Migration \<Rightarrow> ('d, unit) pg" where
  "applyOne run_sql mig =
     in_tx ''begin'' ''commit''
       (bindM (stmt ''executing SQL'' (\<lambda>d. case run_sql (mig_sql mig) (pg_schema d) of
            None \<Rightarrow> Inl (EDb ''SQL'') | Some x \<Rightarrow> Inr ((), d\<lparr>pg_schema := x\<rparr>))) (\<lambda>_.
        insert_version False (mig_version mig)))"

fun apply_all :: "(string \<Rightarrow> 'd \<Rightarrow> 'd option) \<Rightarrow> string list \<Rightarrow> Migration list \<Rightarrow> ('d, string list) pg" where
  "apply_all run_sql applied [] = ret []"
| "apply_all run_sql applied (mig # migs) =
     (if mig_version mig \<in> set applied then apply_all run_sql applied migs
      else bindM (applyOne run_sql mig) (\<lambda>_. bindM (apply_all run_sql applied migs) (\<lambda>vs. ret (mig_version mig # vs))))"

text \<open>An error drops the versions that were applied before it, which the caller does not look at.\<close>

definition ApplyFS :: "(string \<Rightarrow> 'd \<Rightarrow> 'd option) \<Rightarrow> ('d \<Rightarrow> bool) \<Rightarrow> dir_entry list option \<Rightarrow> ('d, string list) pg" where
  "ApplyFS run_sql has_users source =
     (case discover source of
        Inl e \<Rightarrow> throw e
      | Inr migs \<Rightarrow>
          bindM create_migrations_table (\<lambda>_.
          bindM loadAppliedVersions (\<lambda>applied.
          bindM (if applied = [] then hasLegacySchema has_users else ret False) (\<lambda>legacy.
          if legacy then bindM (backfillVersions (map mig_version migs)) (\<lambda>_. ret [])
          else apply_all run_sql applied migs))))"

section \<open>A database at a version\<close>

fun run_migrations :: "(string \<Rightarrow> 'd \<Rightarrow> 'd option) \<Rightarrow> Migration list \<Rightarrow> 'd \<Rightarrow> 'd option" where
  "run_migrations run_sql [] d = Some d"
| "run_migrations run_sql (mig # migs) d =
     (case run_sql (mig_sql mig) d of None \<Rightarrow> None | Some d' \<Rightarrow> run_migrations run_sql migs d')"

lemma run_migrations_append: "run_migrations f (xs @ ys) d =
    (case run_migrations f xs d of None \<Rightarrow> None | Some d' \<Rightarrow> run_migrations f ys d')"
  by (induction xs arbitrary: d) (auto split: option.splits)

text \<open>The first \<open>k\<close> migrations have run on \<open>d0\<close>, and exactly they are recorded.\<close>

definition at_version :: "(string \<Rightarrow> 'd \<Rightarrow> 'd option) \<Rightarrow> Migration list \<Rightarrow> 'd \<Rightarrow> nat \<Rightarrow> 'd pg_state \<Rightarrow> bool" where
  "at_version f migs d0 k d =
     (k \<le> length migs \<and> run_migrations f (take k migs) d0 = Some (pg_schema d) \<and>
      (case pg_versions d of None \<Rightarrow> k = 0 | Some vs \<Rightarrow> vs = map mig_version (take k migs)))"

lemma apply_one:
  assumes "at_version f migs d0 k (tables s)" and "k < length migs" and "distinct (map mig_version migs)"
    and "pg_versions (tables s) \<noteq> None" and "applyOne f (migs ! k) s = (r, s')"
  shows "case r of Inl e \<Rightarrow> tables s' = tables s
    | Inr _ \<Rightarrow> at_version f migs d0 (Suc k) (tables s') \<and> pg_versions (tables s') \<noteq> None"
proof (cases r)
  case (Inl e)
  then show ?thesis using assms(5) in_tx_rollback by (auto simp: applyOne_def)
next
  case (Inr x)
  let ?mig = "migs ! k"
  have "applyOne f ?mig s = (Inr x, s')" using assms(5) Inr by simp
  from in_tx_ok [OF this [unfolded applyOne_def]]
  obtain s2 where s2: "bindM (stmt ''executing SQL'' (\<lambda>d. case f (mig_sql ?mig) (pg_schema d) of
            None \<Rightarrow> Inl (EDb ''SQL'') | Some x \<Rightarrow> Inr ((), d\<lparr>pg_schema := x\<rparr>))) (\<lambda>_.
        insert_version False (mig_version ?mig)) (s\<lparr>ticks := Suc (ticks s)\<rparr>) = (Inr x, s2)" "tables s' = tables s2"
    by blast
  obtain d where d: "f (mig_sql ?mig) (pg_schema (tables s)) = Some d"
    using s2(1) by (auto simp: bindM_def stmt_def Let_def split: option.splits if_splits)
  obtain vs where vs: "pg_versions (tables s) = Some vs" "vs = map mig_version (take k migs)"
    using assms(1,4) by (auto simp: at_version_def)
  have t: "tables s2 = (tables s)\<lparr>pg_schema := d, pg_versions := Some (vs @ [mig_version ?mig])\<rparr>"
    using s2(1) d vs by (auto simp: bindM_def stmt_def Let_def insert_version_def split: if_splits)
  have "run_migrations f (take (Suc k) migs) d0 = Some d"
    using assms(1,2) d by (simp add: at_version_def take_Suc_conv_app_nth run_migrations_append)
  then show ?thesis using Inr t s2(2) vs assms(2)
    by (simp add: at_version_def take_Suc_conv_app_nth)
qed

lemma apply_rest:
  assumes "at_version f migs d0 k (tables s)" and "distinct (map mig_version migs)" and "pg_versions (tables s) \<noteq> None"
    and "set applied \<subseteq> set (map mig_version (take k migs))"
    and "apply_all f applied (drop k migs) s = (r, s')"
  shows "\<exists>k' \<ge> k. at_version f migs d0 k' (tables s') \<and> pg_versions (tables s') \<noteq> None \<and>
    (\<forall>vs. r = Inr vs \<longrightarrow> k' = length migs \<and> vs = map mig_version (drop k migs))"
  using assms
proof (induction "length migs - k" arbitrary: k s r s')
  case 0
  then have "k = length migs" by (simp add: at_version_def)
  then show ?case using 0 by (auto simp: ret_def)
next
  case (Suc n)
  then have k: "k < length migs" by simp
  have drop: "drop k migs = migs ! k # drop (Suc k) migs" using k by (simp add: Cons_nth_drop_Suc)
  have "distinct (map mig_version (take k migs @ migs ! k # drop (Suc k) migs))"
    by (subst id_take_nth_drop [OF k, symmetric]) (rule Suc.prems(2))
  then have "mig_version (migs ! k) \<notin> set (map mig_version (take k migs))" by auto
  then have new: "mig_version (migs ! k) \<notin> set applied" using Suc.prems(4) by blast
  obtain r1 s1 where one: "applyOne f (migs ! k) s = (r1, s1)" by fastforce
  note step = apply_one [OF Suc.prems(1) k Suc.prems(2,3) one]
  show ?case
  proof (cases r1)
    case (Inl e)
    then show ?thesis using Suc.prems step one new drop by (auto simp: bindM_def)
  next
    case (Inr u)
    obtain r2 s2 where rest: "apply_all f applied (drop (Suc k) migs) s1 = (r2, s2)" by fastforce
    have "set applied \<subseteq> set (map mig_version (take (Suc k) migs))"
      using Suc.prems(4) k by (auto simp: take_Suc_conv_app_nth)
    moreover have "n = length migs - Suc k" using Suc.hyps(2) by simp
    ultimately obtain k' where "Suc k \<le> k'" "at_version f migs d0 k' (tables s2)" "pg_versions (tables s2) \<noteq> None"
      "\<forall>vs. r2 = Inr vs \<longrightarrow> k' = length migs \<and> vs = map mig_version (drop (Suc k) migs)"
      using Suc.hyps(1) [of "Suc k" s1 r2 s2] Suc.prems(2) step Inr rest by auto
    moreover have "s' = s2" "\<forall>vs. r = Inr vs \<longrightarrow> (\<exists>ws. r2 = Inr ws \<and> vs = mig_version (migs ! k) # ws)"
      using Suc.prems(5) one Inr rest new drop by (auto simp: bindM_def ret_def split: sum.splits)
    ultimately show ?thesis using drop by (intro exI [of _ k']) auto
  qed
qed

lemma ApplyFS_advances:
  assumes "discover source = Inr migs" and "distinct (map mig_version migs)" and "at_version f migs d0 k (tables s)"
    and "\<not> has_users d0" and "ApplyFS f has_users source s = (r, s')"
  shows "\<exists>k' \<ge> k. at_version f migs d0 k' (tables s') \<and>
    (\<forall>vs. r = Inr vs \<longrightarrow> k' = length migs \<and> vs = map mig_version (drop k migs) \<and> pg_versions (tables s') \<noteq> None)"
proof -
  obtain r1 s1 where c: "create_migrations_table s = (r1, s1)" by fastforce
  have at1: "at_version f migs d0 k (tables s1)" and made: "r1 = Inr () \<Longrightarrow> pg_versions (tables s1) \<noteq> None"
    using assms(3) c by (auto simp: create_migrations_table_def stmt_def Let_def at_version_def split: option.splits if_splits)
  show ?thesis
  proof (cases r1)
    case (Inl e)
    then show ?thesis using assms(1,5) c at1 by (auto simp: ApplyFS_def bindM_def)
  next
    case (Inr u)
    then have some: "pg_versions (tables s1) \<noteq> None" using made by simp
    then obtain vs where vs: "pg_versions (tables s1) = Some vs" "vs = map mig_version (take k migs)"
      using at1 by (auto simp: at_version_def)
    obtain r2 s2 where l: "loadAppliedVersions s1 = (r2, s2)" by fastforce
    have t2: "tables s2 = tables s1" and r2: "\<And>x. r2 = Inr x \<Longrightarrow> x = vs"
      using l vs(1) by (auto simp: loadAppliedVersions_def stmt_def Let_def split: if_splits)
    show ?thesis
    proof (cases r2)
      case (Inl e)
      then show ?thesis using assms(1,5) c at1 \<open>r1 = Inr u\<close> l t2 by (auto simp: ApplyFS_def bindM_def)
    next
      case (Inr x)
      then have x: "x = vs" by (rule r2)
      obtain r3 s3 where h: "(if vs = [] then hasLegacySchema has_users else ret False) s2 = (r3, s3)" by fastforce
      have t3: "tables s3 = tables s1" using h t2
        by (auto simp: hasLegacySchema_def query_def stmt_def Let_def ret_def split: if_splits)
      have "pg_schema (tables s1) = d0" if "vs = []"
        using that vs(2) at1 by (cases "k = 0") (auto simp: at_version_def)
      then have no: "r3 = Inr b \<Longrightarrow> \<not> b" for b
        using h t2 assms(4) by (auto simp: hasLegacySchema_def query_def stmt_def Let_def ret_def split: if_splits)
      show ?thesis
      proof (cases r3)
        case (Inl e)
        then show ?thesis using assms(1,5) c at1 \<open>r1 = Inr u\<close> l \<open>r2 = Inr x\<close> x h t3 by (auto simp: ApplyFS_def bindM_def)
      next
        case (Inr b)
        then have "apply_all f vs migs s3 = (r, s')"
          using assms(1,5) c \<open>r1 = Inr u\<close> l \<open>r2 = Inr x\<close> x h no by (auto simp: ApplyFS_def bindM_def)
        moreover have skip: "set (map mig_version xs) \<subseteq> set vs \<Longrightarrow> apply_all f vs (xs @ ys) s = apply_all f vs ys s" for xs ys s
          by (induction xs) auto
        have "apply_all f vs migs s3 = apply_all f vs (drop k migs) s3"
          using skip [of "take k migs" "drop k migs" s3] vs(2) by simp
        ultimately show ?thesis
          using apply_rest [of f migs d0 k s3 vs r s'] at1 assms(2) some t3 vs(2) by fastforce
      qed
    qed
  qed
qed

section \<open>Properties\<close>

text \<open>Starts of the server on one database, each with its own failures.\<close>

fun starts :: "(string \<Rightarrow> 'd \<Rightarrow> 'd option) \<Rightarrow> ('d \<Rightarrow> bool) \<Rightarrow> dir_entry list option \<Rightarrow> (nat \<Rightarrow> bool) list \<Rightarrow> 'd pg_state \<Rightarrow> 'd pg_state" where
  "starts f has_users source [] d = d"
| "starts f has_users source (sched # ss) d =
     starts f has_users source ss (tables (snd (ApplyFS f has_users source \<lparr>tables = d, fault = sched, ticks = 0\<rparr>)))"

lemma starts_advance:
  assumes "discover source = Inr migs" and "distinct (map mig_version migs)" and "\<not> has_users d0"
  shows "at_version f migs d0 k d \<Longrightarrow> \<exists>k' \<ge> k. at_version f migs d0 k' (starts f has_users source ss d)"
proof (induction ss arbitrary: k d)
  case (Cons sched ss)
  let ?s = "\<lparr>tables = d, fault = sched, ticks = 0\<rparr>"
  obtain k1 where k1: "k \<le> k1" "at_version f migs d0 k1 (tables (snd (ApplyFS f has_users source ?s)))"
    using ApplyFS_advances [of source migs f d0 k ?s has_users "fst (ApplyFS f has_users source ?s)" "snd (ApplyFS f has_users source ?s)"]
      assms Cons.prems by auto
  then show ?case using Cons.IH [OF k1(2)] by (auto intro: order_trans)
qed auto

lemma apply_rest_ok:
  assumes "no_fault s" and "run_migrations f (drop k migs) (pg_schema (tables s)) \<noteq> None" and "distinct (map mig_version migs)"
    and "pg_versions (tables s) = Some (map mig_version (take k migs))" and "set applied \<subseteq> set (map mig_version (take k migs))"
  shows "\<exists>vs s'. apply_all f applied (drop k migs) s = (Inr vs, s')"
  using assms
proof (induction "length migs - k" arbitrary: k s)
  case 0
  then show ?case by (simp add: ret_def)
next
  case (Suc n)
  then have k: "k < length migs" by simp
  have drop: "drop k migs = migs ! k # drop (Suc k) migs" using k by (simp add: Cons_nth_drop_Suc)
  have "distinct (map mig_version (take k migs @ migs ! k # drop (Suc k) migs))"
    by (subst id_take_nth_drop [OF k, symmetric]) (rule Suc.prems(3))
  then have new: "mig_version (migs ! k) \<notin> set (map mig_version (take k migs))" by auto
  obtain d where d: "f (mig_sql (migs ! k)) (pg_schema (tables s)) = Some d" "run_migrations f (drop (Suc k) migs) d \<noteq> None"
    using Suc.prems(2) drop by (auto split: option.splits)
  let ?s1 = "s\<lparr>ticks := ticks s + 4, tables := \<lparr>pg_schema = d, pg_versions = Some (map mig_version (take (Suc k) migs))\<rparr>\<rparr>"
  have one: "applyOne f (migs ! k) s = (Inr (), ?s1)"
    using Suc.prems(1,4) new d(1) k
    by (simp add: applyOne_def in_tx_def stmt_def bindM_def insert_version_def Let_def take_Suc_conv_app_nth image_def)
  have "\<exists>vs s'. apply_all f applied (drop (Suc k) migs) ?s1 = (Inr vs, s')"
    using Suc.hyps Suc.prems(1,3,5) d(2) k by (intro Suc.hyps(1)) (auto simp: take_Suc_conv_app_nth)
  then show ?case using one new drop Suc.prems(5) by (auto simp: bindM_def ret_def)
qed

text \<open>
  C15: Migrations survive interruptions. However many starts of the server fail at whatever statement, the
  next start without a failure leaves an initially empty database as all migrations run once, in the
  order of their versions, and records exactly their versions.
\<close>

theorem migrations_resume:
  assumes "discover source = Inr migs" and "distinct (map mig_version migs)" and "\<not> has_users d0"
    and "run_migrations f migs d0 = Some d1"
    and "d = starts f has_users source ss \<lparr>pg_schema = d0, pg_versions = None\<rparr>"
  shows "\<exists>vs s'. ApplyFS f has_users source (healthy d) = (Inr vs, s') \<and>
    tables s' = \<lparr>pg_schema = d1, pg_versions = Some (map mig_version migs)\<rparr>"
proof -
  have "at_version f migs d0 0 \<lparr>pg_schema = d0, pg_versions = None\<rparr>" by (simp add: at_version_def)
  then obtain k where k: "at_version f migs d0 k d"
    using starts_advance [of source migs has_users d0 f 0 _ ss] assms by blast
  then have le: "k \<le> length migs" by (simp add: at_version_def)
  have rest: "run_migrations f (drop k migs) (pg_schema d) = Some d1"
    using k assms(4) run_migrations_append [of f "take k migs" "drop k migs" d0] by (simp add: at_version_def)
  define s1 where "s1 = (healthy d)\<lparr>ticks := 1, tables := d\<lparr>pg_versions := Some (map mig_version (take k migs))\<rparr>\<rparr>"
  have schema: "pg_schema d = d0" if "k = 0" using k that by (simp add: at_version_def)
  have same: "d\<lparr>pg_versions := Some vs\<rparr> = d" if "pg_versions d = Some vs" for vs using that by (cases d) simp
  have "\<exists>n. ApplyFS f has_users source (healthy d) = apply_all f (map mig_version (take k migs)) migs (s1\<lparr>ticks := n\<rparr>)"
  proof (cases "take k migs = []")
    case True
    then have "pg_schema d = d0" using schema le by auto
    then show ?thesis
      using assms(1,3) k True le
      by (intro exI [of _ 3])
        (auto simp: same ApplyFS_def bindM_def create_migrations_table_def loadAppliedVersions_def hasLegacySchema_def query_def
          stmt_def ret_def Let_def s1_def at_version_def healthy_def eval_nat_numeral split: option.splits)
  next
    case False
    then have "pg_versions d = Some (map mig_version (take k migs))" using k by (auto simp: at_version_def split: option.splits)
    then show ?thesis
      using assms(1) False
      by (intro exI [of _ 2])
        (simp add: same ApplyFS_def bindM_def create_migrations_table_def loadAppliedVersions_def
          stmt_def ret_def Let_def s1_def healthy_def eval_nat_numeral)
  qed
  then obtain n where n: "ApplyFS f has_users source (healthy d) = apply_all f (map mig_version (take k migs)) migs (s1\<lparr>ticks := n\<rparr>)" ..
  have skip: "set (map mig_version xs) \<subseteq> set vs \<Longrightarrow> apply_all f vs (xs @ ys) s = apply_all f vs ys s" for xs ys vs s
    by (induction xs) auto
  have "\<exists>vs s'. apply_all f (map mig_version (take k migs)) (drop k migs) (s1\<lparr>ticks := n\<rparr>) = (Inr vs, s')"
    using rest assms(2) by (intro apply_rest_ok) (auto simp: s1_def)
  then obtain vs s' where ok: "ApplyFS f has_users source (healthy d) = (Inr vs, s')"
    using n skip [of "take k migs" "map mig_version (take k migs)" "drop k migs"] by auto
  have "at_version f migs d0 (length migs) (tables s') \<and> pg_versions (tables s') \<noteq> None"
    using ApplyFS_advances [of source migs f d0 k "healthy d" has_users "Inr vs" s'] assms(1-3) k ok by auto
  then show ?thesis using ok assms(4) by (cases "tables s'") (auto simp: at_version_def)
qed

lemma backfill_ok:
  assumes "no_fault s" and "pg_versions (tables s) = Some us"
  shows "\<exists>n ws. forM vs (insert_version True) s = (Inr (), s\<lparr>ticks := n, tables := (tables s)\<lparr>pg_versions := Some ws\<rparr>\<rparr>) \<and>
    set ws = set us \<union> set vs"
  using assms
proof (induction vs arbitrary: s us)
  case Nil
  then show ?case by (intro exI [of _ "ticks s"] exI [of _ us]) (simp add: ret_def)
next
  case (Cons v vs)
  let ?us = "if v \<in> set us then us else us @ [v]"
  let ?s1 = "s\<lparr>ticks := Suc (ticks s), tables := (tables s)\<lparr>pg_versions := Some ?us\<rparr>\<rparr>"
  have "tables s = (tables s)\<lparr>pg_versions := Some us\<rparr>" using Cons.prems by (cases "tables s") simp
  then have one: "insert_version True v s = (Inr (), ?s1)"
    using Cons.prems by (simp add: insert_version_def stmt_def Let_def)
  obtain n ws where "forM vs (insert_version True) ?s1 =
      (Inr (), ?s1\<lparr>ticks := n, tables := (tables ?s1)\<lparr>pg_versions := Some ws\<rparr>\<rparr>)" "set ws = set ?us \<union> set vs"
    using Cons.IH [of ?s1 ?us] Cons.prems by auto
  then show ?case using one
    by (intro exI [of _ n] exI [of _ ws]) (auto simp: bindM_def)
qed

lemma takeover:
  assumes "discover source = Inr migs" and "no_fault s" and "pg_versions (tables s) = None" and "has_users (pg_schema (tables s))"
  shows "\<exists>s' ws. ApplyFS f has_users source s = (Inr [], s') \<and> no_fault s' \<and> set ws = set (map mig_version migs) \<and>
    tables s' = (tables s)\<lparr>pg_versions := Some ws\<rparr>"
proof -
  let ?s = "s\<lparr>ticks := ticks s + 4, tables := (tables s)\<lparr>pg_versions := Some []\<rparr>\<rparr>"
  obtain n ws where w: "forM (map mig_version migs) (insert_version True) ?s =
      (Inr (), ?s\<lparr>ticks := n, tables := (tables ?s)\<lparr>pg_versions := Some ws\<rparr>\<rparr>)" "set ws = set (map mig_version migs)"
    using backfill_ok [of ?s "[]" "map mig_version migs"] assms(2) by auto
  then show ?thesis
    using assms
    by (auto simp: ApplyFS_def bindM_def create_migrations_table_def loadAppliedVersions_def hasLegacySchema_def query_def
        stmt_def ret_def Let_def backfillVersions_def in_tx_def eval_nat_numeral)
qed

text \<open>
  A database that was set up by the scripts of an earlier release, with the users and without a
  record of versions, is taken over by recording every migration the server knows: none of them runs,
  those the scripts did not have included, and no later start runs them.
\<close>

theorem takeover_runs_nothing:
  assumes "discover source = Inr migs" and "migs \<noteq> []" and "no_fault s" and "pg_versions (tables s) = None"
    and "has_users (pg_schema (tables s))"
    and "ApplyFS f has_users source s = (r, s1)" and "ApplyFS f has_users source s1 = (r2, s2)"
  shows "r = Inr [] \<and> pg_schema (tables s1) = pg_schema (tables s) \<and> r2 = Inr [] \<and> pg_schema (tables s2) = pg_schema (tables s)"
proof -
  obtain ws where s1: "r = Inr []" "no_fault s1" "set ws = set (map mig_version migs)"
    "tables s1 = (tables s)\<lparr>pg_versions := Some ws\<rparr>"
    using takeover [OF assms(1,3,4), of has_users f] assms(5,6) by auto
  have ne: "ws \<noteq> []" using s1(3) assms(2) by (cases migs) auto
  have skip: "set (map mig_version xs) \<subseteq> set vs \<Longrightarrow> apply_all f vs xs s = ret [] s" for xs vs s
    by (induction xs) auto
  show ?thesis
    using assms(1,7) s1 ne skip [of migs ws]
    by (auto simp: ApplyFS_def bindM_def create_migrations_table_def loadAppliedVersions_def stmt_def ret_def Let_def)
qed

lemma collect_files: "collect es = Inr ms \<Longrightarrow>
    map mig_file ms = map entry_name (filter (\<lambda>e. \<not> entry_dir e \<and> HasSuffix (entry_name e) up_suffix) es) \<and>
    (\<forall>mig \<in> set ms. match_filename (mig_file mig) = Some (mig_version mig, mig_name mig))"
  by (induction es arbitrary: ms) (auto split: if_splits option.splits sum.splits)

text \<open>
  The runner takes every file whose name ends in \<^verbatim>\<open>.up.sql\<close>, once, in the order of their versions;
  one with another name makes it fail instead of being skipped.
\<close>

theorem discover_takes_all:
  assumes "discover (Some es) = Inr migs"
  shows "sorted (map mig_version migs) \<and>
    mset (map mig_file migs) = mset (map entry_name (filter (\<lambda>e. \<not> entry_dir e \<and> HasSuffix (entry_name e) up_suffix) es)) \<and>
    (\<forall>mig \<in> set migs. match_filename (mig_file mig) = Some (mig_version mig, mig_name mig))"
proof -
  obtain ms where ms: "collect es = Inr ms" "migs = sort_key mig_version ms"
    using assms by (auto simp: discover_def split: sum.splits)
  have "mset (map mig_file migs) = mset (map mig_file ms)" using ms(2) by (metis mset_map mset_sort)
  then show ?thesis using collect_files [OF ms(1)] ms(2) by simp
qed

section \<open>Examples\<close>

text \<open>Two migrations on a schema that is the list of the scripts that ran.\<close>

definition two_files :: "dir_entry list option" where
  "two_files = Some [\<lparr>entry_name = ''001_init.up.sql'', entry_dir = False, entry_body = Some ''a''\<rparr>,
     \<lparr>entry_name = ''002_more.down.sql'', entry_dir = False, entry_body = Some ''x''\<rparr>,
     \<lparr>entry_name = ''002_more.up.sql'', entry_dir = False, entry_body = Some ''b''\<rparr>]"

definition two_migrations :: "Migration list" where
  "two_migrations = [\<lparr>mig_version = ''001'', mig_name = ''init'', mig_file = ''001_init.up.sql'', mig_sql = ''a''\<rparr>,
     \<lparr>mig_version = ''002'', mig_name = ''more'', mig_file = ''002_more.up.sql'', mig_sql = ''b''\<rparr>]"

lemma discover_two: "discover two_files = Inr two_migrations"
  by code_simp

definition append_sql :: "string \<Rightarrow> string list \<Rightarrow> string list option" where
  "append_sql sql d = Some (d @ [sql])"

definition has_init :: "string list \<Rightarrow> bool" where "has_init d = (''a'' \<in> set d)"

lemma migrations_resume_witness:
  "\<exists>vs s'. ApplyFS append_sql has_init two_files
      (healthy (starts append_sql has_init two_files [\<lambda>n. n = 6, \<lambda>n. n = 3] \<lparr>pg_schema = [], pg_versions = None\<rparr>)) = (Inr vs, s') \<and>
    tables s' = \<lparr>pg_schema = [''a'', ''b''], pg_versions = Some [''001'', ''002'']\<rparr>"
  using migrations_resume [OF discover_two, of has_init "[]" append_sql "[''a'', ''b'']"
      "starts append_sql has_init two_files [\<lambda>n. n = 6, \<lambda>n. n = 3] \<lparr>pg_schema = [], pg_versions = None\<rparr>" "[\<lambda>n. n = 6, \<lambda>n. n = 3]"]
  by (simp add: two_migrations_def has_init_def append_sql_def del: starts.simps)

lemma takeover_runs_nothing_witness:
  "pg_schema (tables (snd (ApplyFS append_sql has_init two_files (healthy \<lparr>pg_schema = [''a''], pg_versions = None\<rparr>)))) = [''a'']"
proof -
  obtain r s1 where 1: "ApplyFS append_sql has_init two_files (healthy \<lparr>pg_schema = [''a''], pg_versions = None\<rparr>) = (r, s1)" by fastforce
  obtain r2 s2 where 2: "ApplyFS append_sql has_init two_files s1 = (r2, s2)" by fastforce
  show ?thesis
    using takeover_runs_nothing [OF discover_two _ _ _ _ 1 2] 1 by (simp add: two_migrations_def has_init_def)
qed

lemma discover_takes_all_witness:
  "mset (map mig_file two_migrations) = {#''001_init.up.sql'', ''002_more.up.sql''#}"
proof -
  obtain es where es: "two_files = Some es" "filter (\<lambda>e. \<not> entry_dir e \<and> HasSuffix (entry_name e) up_suffix) es =
      [\<lparr>entry_name = ''001_init.up.sql'', entry_dir = False, entry_body = Some ''a''\<rparr>,
       \<lparr>entry_name = ''002_more.up.sql'', entry_dir = False, entry_body = Some ''b''\<rparr>]"
    by (simp add: two_files_def HasSuffix_def up_suffix_def)
  then show ?thesis using discover_takes_all [of es two_migrations] discover_two by simp
qed

end
