(* ===== verification/Server_Main.thy ===== *)
theory Server_Main
  imports Server_Properties Migrations Go_Path
begin

text \<open>
  What the server does before and beside serving requests (\<^verbatim>\<open>cmd/trasker-server\<close>,
  \<^verbatim>\<open>internal/server/secrets\<close>): its settings from the environment, the secret it signs tokens with, its
  first account, the source of the client binaries, and the sweeps of the layouts. \<open>environ\<close> is \<^verbatim>\<open>os.Getenv\<close>.
\<close>

section \<open>Settings\<close>

type_synonym environ = "string \<Rightarrow> string"

fun envOrMulti :: "environ \<Rightarrow> string list \<Rightarrow> string" where
  "envOrMulti env [] = []"
| "envOrMulti env (k # ks) = (if env k \<noteq> [] then env k else envOrMulti env ks)"

definition envOr :: "environ \<Rightarrow> string \<Rightarrow> string \<Rightarrow> string" where
  "envOr env key fallback = (if env key \<noteq> [] then env key else fallback)"

text \<open>\<open>None\<close> is the exit with status 1.\<close>

definition buildDatabaseURL :: "environ \<Rightarrow> string option" where
  "buildDatabaseURL env =
     (if env ''DATABASE_URL'' \<noteq> [] then Some (env ''DATABASE_URL'')
      else if env ''TRASKER_DB_HOST'' \<noteq> [] \<and> env ''TRASKER_DB_USER'' \<noteq> [] \<and> env ''TRASKER_DB_NAME'' \<noteq> []
      then Some (''postgres://'' @ env ''TRASKER_DB_USER'' @ '':'' @ env ''TRASKER_DB_PASSWORD'' @ ''@'' @
        env ''TRASKER_DB_HOST'' @ '':'' @ envOr env ''TRASKER_DB_PORT'' ''5432'' @ ''/'' @ env ''TRASKER_DB_NAME'' @ ''?sslmode=disable'')
      else None)"

section \<open>The secret\<close>

definition hex_char :: "nat \<Rightarrow> char" where
  "hex_char n = (if n < 10 then char_of (48 + n) else char_of (87 + n))"

definition hex_EncodeToString :: "nat list \<Rightarrow> string" where
  "hex_EncodeToString bs = concat (map (\<lambda>b. [hex_char (b div 16), hex_char (b mod 16)]) bs)"

text \<open>
  What the process meets: the file if it can be read, the random bytes if there are any, whether the
  directory can be made, and the result of writing, where \<open>Some left\<close> is a failed write and what it leaves.
\<close>

record secret_world =
  sw_file :: "string option"
  sw_random :: "nat list option"
  sw_mkdir :: bool
  sw_write :: "string option option"

definition LoadOrGenerateJWTSecret :: "string \<Rightarrow> secret_world \<Rightarrow> (err + string) \<times> string option" where
  "LoadOrGenerateJWTSecret val w =
     (if val \<noteq> [] then (Inr val, sw_file w)
      else case sw_file w of
        Some (c # cs) \<Rightarrow> (Inr (c # cs), sw_file w)
      | _ \<Rightarrow>
          (case sw_random w of
             None \<Rightarrow> (Inl (EInvalid ''generating random secret''), sw_file w)
           | Some bs \<Rightarrow>
               if \<not> sw_mkdir w then (Inl (EInvalid ''creating secret directory''), sw_file w)
               else (case sw_write w of
                   Some left \<Rightarrow> (Inl (EInvalid ''writing secret file''), left)
                 | None \<Rightarrow> (Inr (hex_EncodeToString bs), Some (hex_EncodeToString bs)))))"

text \<open>The secret of \<^verbatim>\<open>run\<close>: the two variables, then the file.\<close>

definition jwt_secret :: "environ \<Rightarrow> secret_world \<Rightarrow> (err + string) \<times> string option" where
  "jwt_secret env w =
     (let v = envOrMulti env [''TRASKER_JWT_SECRET'', ''JWT_SECRET''] in
      if v \<noteq> [] then (Inr v, sw_file w) else LoadOrGenerateJWTSecret [] w)"

section \<open>The first account\<close>

definition DefaultAdminEmail :: string where "DefaultAdminEmail = ''admin@localhost''"
definition DefaultAdminPassword :: string where "DefaultAdminPassword = ''trasker-admin''"

text \<open>The address, the password and whether it must be changed; \<open>None\<close> skips the account.\<close>

definition admin_credentials :: "environ \<Rightarrow> (string \<times> string \<times> bool) option" where
  "admin_credentials env =
     (let email = env ''TRASKER_ADMIN_EMAIL''; password = env ''TRASKER_ADMIN_PASSWORD'' in
      if email \<noteq> [] \<and> password \<noteq> [] then Some (email, password, False)
      else if email = [] \<and> password = [] then Some (DefaultAdminEmail, DefaultAdminPassword, True)
      else None)"

definition bootstrapAdmin :: "lib \<Rightarrow> environ \<Rightarrow> gotime \<Rightarrow> unit srv" where
  "bootstrapAdmin L env now =
     bindM CountUsers (\<lambda>count.
     if count > 0 then ret ()
     else case admin_credentials env of None \<Rightarrow> ret ()
       | Some (email, password, force) \<Rightarrow>
           (case BcryptGenerate L password of
              None \<Rightarrow> throw (EInvalid ''hashing admin password'')
            | Some hash \<Rightarrow> bindM (CreateLocalUser now email ''Admin'' hash ''admin'' force) (\<lambda>_. ret ())))"

section \<open>The source of the client binaries\<close>

text \<open>
  \<open>exists\<close> says whether a path can be looked at; the result is the directory that holds \<^verbatim>\<open>go.mod\<close>, or
  \<open>None\<close> once a directory is its own parent.
\<close>

function find_up :: "(string \<Rightarrow> bool) \<Rightarrow> string \<Rightarrow> string option" where
  "find_up exists dir =
     (if exists (filepath_Join [dir, ''go.mod'']) then Some dir
      else if filepath_Dir dir = dir then None
      else find_up exists (filepath_Dir dir))"
  by auto
termination
proof (relation "measure (\<lambda>(e, d). length (ancestors d))")
  fix exists and dir :: string
  assume "filepath_Dir dir \<noteq> dir"
  then show "((exists, filepath_Dir dir), (exists, dir)) \<in> measure (\<lambda>(e, d). length (ancestors d))"
    by (simp add: ancestors.simps [of dir])
qed simp

declare find_up.simps [simp del]

text \<open>The working directory and the path of the program, where they are known.\<close>

definition module_candidates :: "string option \<Rightarrow> string option \<Rightarrow> string list" where
  "module_candidates wd exe =
     (case wd of None \<Rightarrow> [] | Some d \<Rightarrow> [d]) @ (case exe of None \<Rightarrow> [] | Some p \<Rightarrow> [filepath_Dir p])"

definition findModuleRoot :: "(string \<Rightarrow> bool) \<Rightarrow> string option \<Rightarrow> string option \<Rightarrow> string" where
  "findModuleRoot exists wd exe =
     (case List.map_filter (find_up exists) (module_candidates wd exe) of [] \<Rightarrow> [] | d # _ \<Rightarrow> d)"

text \<open>
  Downloads from the binaries on disk if there are any, from binaries compiled in the module, or none.
\<close>

datatype client_source = Preloaded cache | Compiled string | NoClients

definition client_builder ::
    "(string \<Rightarrow> string option) \<Rightarrow> bool \<Rightarrow> (string \<Rightarrow> bool) \<Rightarrow> string option \<Rightarrow> string option \<Rightarrow> client_source" where
  "client_builder bins toolchain exists wd exe =
     (let (loaded, c) = LoadFromDir bins Map.empty in
      if loaded > 0 then Preloaded c
      else if toolchain then (let root = findModuleRoot exists wd exe in if root \<noteq> [] then Compiled root else NoClients)
      else NoClients)"

section \<open>The sweeps\<close>

text \<open>One run: each sweep is tried, and its error is logged.\<close>

definition downsample_run :: "gotime \<Rightarrow> unit srv" where
  "downsample_run now = bindM (logged (DownsampleTo10Min now)) (\<lambda>_. logged (DownsampleTo1Hr now))"

text \<open>
  The runs until the server stops: none if it stops within the initial delay, otherwise one after it and
  one at every tick; \<open>nows\<close> is what the clock says at each of them.
\<close>

definition downsamplerInitialDelay :: gotime where "downsamplerInitialDelay = 30 * second"
definition downsamplerInterval :: gotime where "downsamplerInterval = hour"

definition runLayoutDownsampler :: "bool \<Rightarrow> gotime list \<Rightarrow> unit srv" where
  "runLayoutDownsampler stopped nows = (if stopped then ret () else forM nows downsample_run)"

section \<open>Lemmas\<close>

lemma length_hex [simp]: "length (hex_EncodeToString bs) = 2 * length bs"
  by (induction bs) (auto simp: hex_EncodeToString_def)

lemma keeps_bootstrap: "keeps srv_inv (bootstrapAdmin L env now)"
  unfolding bootstrapAdmin_def CountUsers_def Let_def by (intro keeps_rules)

lemma keeps_downsampler: "keeps srv_inv (runLayoutDownsampler stopped nows)"
  unfolding runLayoutDownsampler_def downsample_run_def by (intro keeps_rules)

section \<open>Properties\<close>

lemma secret_again:
  assumes "jwt_secret env w = (Inr sec, f)" and "sw_file w' = f" and "\<And>bs. sw_random w = Some bs \<Longrightarrow> bs \<noteq> []"
  shows "jwt_secret env w' = (Inr sec, f)"
proof (cases "envOrMulti env [''TRASKER_JWT_SECRET'', ''JWT_SECRET''] = []")
  case True
  have ne: "hex_EncodeToString bs \<noteq> []" if "bs \<noteq> []" for bs using length_hex [of bs] that by fastforce
  from assms(1) True have "LoadOrGenerateJWTSecret [] w = (Inr sec, f)" by (simp add: jwt_secret_def Let_def)
  then have "f = Some sec \<and> sec \<noteq> []"
    using assms(3) ne by (auto simp: LoadOrGenerateJWTSecret_def split: option.splits list.splits if_splits)
  then show ?thesis
    using True assms(2) by (cases sec) (simp_all add: jwt_secret_def Let_def LoadOrGenerateJWTSecret_def)
next
  case False
  then show ?thesis using assms by (simp add: jwt_secret_def Let_def)
qed

text \<open>
  C30: Tokens survive a restart. Whatever the sources of the secret were, a restart with the same
  environment that finds the file as it was left signs with the same secret: a token issued before is
  accepted by the middleware of the new process until it expires.
\<close>

theorem tokens_survive_restart:
  assumes "jwt_secret env w = (Inr sec, f)" and "sw_file w' = f" and "\<And>bs. sw_random w = Some bs \<Longrightarrow> length bs = 32"
    and "NewJWTIssuer sec (15 * minute) = Some j" and "jwt_law L" and "Issue L j now user email role = Some token"
    and "rq_auth r = ''Bearer '' @ token" and "t < rfc3339 (now + 15 * minute) * second"
  shows "\<exists>sec' j'. fst (jwt_secret env w') = Inr sec' \<and> NewJWTIssuer sec' (15 * minute) = Some j' \<and>
    JWTMiddleware L j' t h no_ctx r s =
      h \<lparr>ctx_user = Some user, ctx_role = Some role, ctx_key = None, ctx_type = Some AuthTypeJWT\<rparr> r s"
proof -
  have "bs \<noteq> []" if "sw_random w = Some bs" for bs using assms(3) [OF that] by auto
  then have "fst (jwt_secret env w') = Inr sec" using secret_again [OF assms(1,2)] by simp
  moreover have "iss_duration j = 15 * minute" using assms(4) by (auto simp: NewJWTIssuer_def split: if_splits)
  ultimately show ?thesis using assms(4,8) token_checked [OF assms(5-7), of t h s] by auto
qed

text \<open>
  C31: On an empty database the bootstrap leaves exactly one account, an administrator who can log in
  with the credentials of the environment, or with the documented ones and then has to change the
  password; running it again changes nothing.
\<close>

theorem bootstrap_admin_can_log_in:
  assumes "no_fault s" and "users (tables s) = []" and "bcrypt_law L"
    and "admin_credentials env = Some (email, password, force)" and "BcryptGenerate L password = Some hash"
    and "bootstrapAdmin L env now s = (r, s1)" and "decode_ok login_shape (rq_body q)"
    and "string_field ''email'' (rq_body q) = email" and "string_field ''password'' (rq_body q) = password"
  shows "r = Inr () \<and> (\<exists>u. users (tables s1) = [u] \<and> usr_role u = ''admin'' \<and> usr_email u = email \<and>
     fst (localLoginHandler L D C ctx q s1) = Inr (session_reply L D C u [(''force_password_change'', JBool force)])) \<and>
     tables (snd (bootstrapAdmin L env later s1)) = tables s1"
proof -
  have ne: "email \<noteq> []" "password \<noteq> []"
    using assms(4) by (auto simp: admin_credentials_def Let_def DefaultAdminEmail_def DefaultAdminPassword_def split: if_splits)
  let ?u = "\<lparr>usr_id = next_rowid [], usr_oid = None, usr_email = email, usr_name = ''Admin'', usr_role = ''admin'',
    usr_hash = Some hash, usr_force = force, usr_created = now, usr_updated = now\<rparr>"
  have s1: "r = Inr ()" "s1 = s\<lparr>ticks := ticks s + 2, tables := (tables s)\<lparr>users := [?u]\<rparr>\<rparr>"
    using assms(1,2,4-6)
    by (auto simp: bootstrapAdmin_def CountUsers_def query_def stmt_def bindM_def ret_def Let_def CreateLocalUser_def
        insert_user_def user_ok_def valid_role_def)
  have "GetUserByEmail email s1 = (Inr ?u, s1\<lparr>ticks := Suc (ticks s1)\<rparr>)"
    unfolding GetUserByEmail_def using assms(1) s1 by (intro one_row_ok) (simp_all add: row_at_def)
  moreover have "BcryptMatches L hash password" using assms(3,5) by (simp add: bcrypt_law_def)
  ultimately have "fst (localLoginHandler L D C ctx q s1) = Inr (session_reply L D C ?u [(''force_password_change'', JBool force)])"
    using assms(7-9) ne by (simp add: localLoginHandler_def Let_def run_simps)
  moreover have "tables (snd (bootstrapAdmin L env later s1)) = tables s1"
    using assms(1) s1 by (simp add: bootstrapAdmin_def CountUsers_def query_def stmt_def bindM_def ret_def Let_def)
  ultimately show ?thesis using s1 by simp
qed

definition fresh_world :: secret_world where
  "fresh_world = \<lparr>sw_file = None, sw_random = Some (replicate 32 171), sw_mkdir = True, sw_write = None\<rparr>"

definition empty_env :: environ where "empty_env = (\<lambda>k. [])"

lemma tokens_survive_restart_witness:
  "\<exists>sec' j'. fst (jwt_secret empty_env (fresh_world\<lparr>sw_file := Some (hex_EncodeToString (replicate 32 171))\<rparr>)) = Inr sec' \<and>
    NewJWTIssuer sec' (15 * minute) = Some j' \<and>
    JWTMiddleware some_lib j' (10 * minute) (\<lambda>ctx r. ret (respondError 200 [])) no_ctx
      (some_request (''Bearer '' @ ''token'') None) (healthy migrated_db) = ret (respondError 200 []) (healthy migrated_db)"
proof -
  let ?sec = "hex_EncodeToString (replicate 32 171)" and ?j = "\<lparr>iss_secret = hex_EncodeToString (replicate 32 171), iss_duration = 15 * minute\<rparr>"
  have 1: "jwt_secret empty_env fresh_world = (Inr ?sec, Some ?sec)"
    by (simp add: jwt_secret_def empty_env_def LoadOrGenerateJWTSecret_def fresh_world_def)
  have 2: "NewJWTIssuer ?sec (15 * minute) = Some ?j" by (simp add: NewJWTIssuer_def)
  have 3: "Issue some_lib ?j 0 1 ''a'' ''admin'' = Some ''token''"
    by (simp add: Issue_def some_lib_def some_claims_def rfc3339_def minute_def second_def)
  show ?thesis
    using tokens_survive_restart [OF 1 _ _ 2 some_lib_laws(2) 3, of _ "some_request (''Bearer '' @ ''token'') None" "10 * minute"
        "\<lambda>ctx r. ret (respondError 200 [])"]
    by (simp add: fresh_world_def some_request_def rfc3339_def minute_def second_def)
qed

lemma bootstrap_admin_can_log_in_witness:
  "\<exists>u. users (tables (snd (bootstrapAdmin some_lib empty_env 0 (healthy migrated_db)))) = [u] \<and> usr_email u = ''admin@localhost''"
proof -
  obtain r s1 where b: "bootstrapAdmin some_lib empty_env 0 (healthy migrated_db) = (r, s1)" by fastforce
  let ?q = "some_request [] (Some (JObj [(''email'', JStr ''admin@localhost''), (''password'', JStr ''trasker-admin'')]))"
  have q: "decode_ok login_shape (rq_body ?q)" "string_field ''email'' (rq_body ?q) = ''admin@localhost''"
    "string_field ''password'' (rq_body ?q) = ''trasker-admin''"
    by (simp_all add: some_request_def decode_ok_def login_shape_def string_field_def EqualFold_def ToLower_def lower_char_def)
  have c: "admin_credentials empty_env = Some (''admin@localhost'', ''trasker-admin'', True)"
    by (simp add: admin_credentials_def empty_env_def DefaultAdminEmail_def DefaultAdminPassword_def)
  have h: "BcryptGenerate some_lib ''trasker-admin'' = Some (CHR ''#'' # ''trasker-admin'')" by (simp add: some_lib_def)
  have u: "users (tables (healthy migrated_db)) = []" by (simp add: migrated_db_def)
  obtain v where "users (tables s1) = [v]" "usr_email v = ''admin@localhost''"
    using bootstrap_admin_can_log_in [OF healthy_simps(2) u some_lib_laws(1) c h b q, of undefined undefined undefined 0] by blast
  then show ?thesis using b by simp
qed

section \<open>The search for the module\<close>

lemma find_up_ancestors: "find_up exists d = find (\<lambda>a. exists (filepath_Join [a, ''go.mod''])) (ancestors d)"
  by (induction exists d rule: find_up.induct) (subst find_up.simps, subst ancestors.simps, simp)

lemma map_filter_find:
  "(case List.map_filter (\<lambda>d. find P (f d)) ds of [] \<Rightarrow> z | x # xs \<Rightarrow> x) =
   (case find P (concat (map f ds)) of None \<Rightarrow> z | Some x \<Rightarrow> x)"
  by (induction ds) (auto simp: List.map_filter_simps find_append split: option.splits)

text \<open>
  C37: The search for the module ends: from a directory it looks at no more directories than its path has
  characters and two, the last of which is the root or the current directory, and it answers with the
  nearest that holds the file, from the working directory first.
\<close>

theorem module_search_ends:
  "length (ancestors d) \<le> length d + 2 \<and> last (ancestors d) \<in> {''/'', ''.''} \<and>
   find_up exists d = find (\<lambda>a. exists (filepath_Join [a, ''go.mod''])) (ancestors d) \<and>
   findModuleRoot exists wd exe =
     (case find (\<lambda>a. exists (filepath_Join [a, ''go.mod''])) (concat (map ancestors (module_candidates wd exe))) of
        None \<Rightarrow> [] | Some root \<Rightarrow> root)"
  using length_ancestors [of d] last_ancestor [of d]
  by (simp add: find_up_ancestors [abs_def] findModuleRoot_def map_filter_find)

end
