(* ===== verification/Spec2Isabelle.thy ===== *)
theory Spec2Isabelle
  imports Cascade Session_Engine Pomodoro Learner Auto_Submit Layout Server_Properties Builder End_To_End Web_UI Daemon
    Tracker Client_Runtime Desktop Migrations Server_Main
begin

text \<open>
  Trasker is a time tracker: a client daemon that records which window has the focus, and a server
  that collects the timesheets the daemon submits. This library models both programs and proves what
  makes their parts correct, alone and together.

  The client (\<^verbatim>\<open>cmd/trasker-client\<close>, \<^verbatim>\<open>internal/client\<close>). The daemon asks the desktop for the focused
  window every second and keeps one open event in a SQLite store, which it closes when the focus changes,
  the screen is locked or the deadman's switch pauses. The tagger gives new events tags by rules; the
  learner would propose rules from the tags the user sets, and notes would spread a tag to the events
  around them. Events become submissions, from the local dashboard or by the auto-submitter; the upload
  queue sends them to the server and retries. A separate loop records the layout of the windows and
  uploads it in batches. The session engine is a second recorder with the same purpose: the daemon does
  not run it, nor the learner's observations nor the cascade, and \<^verbatim>\<open>Daemon\<close> compares the two recorders.

    \<^item> \<^verbatim>\<open>Trasker_Prelude\<close>: the database monad (below), tables as lists of rows, sorting, times.
      \<^verbatim>\<open>Go_Strings\<close>, \<^verbatim>\<open>Go_Time\<close>, \<^verbatim>\<open>Json\<close>: what the code uses of \<^verbatim>\<open>strings\<close>, \<^verbatim>\<open>filepath\<close>, \<^verbatim>\<open>time\<close> and
      \<^verbatim>\<open>encoding/json\<close>.
    \<^item> \<^verbatim>\<open>Client_Store\<close>: the tables and statements of \<^verbatim>\<open>internal/client/store\<close>, with the schema invariant
      \<open>store_inv\<close>. \<^verbatim>\<open>Cascade\<close>: \<^verbatim>\<open>cascade.go\<close>, refined to an abstract spreading of a set.
    \<^item> \<^verbatim>\<open>Presence\<close> (\<^verbatim>\<open>presence/deadman.go\<close>) and \<^verbatim>\<open>Pomodoro\<close> (\<^verbatim>\<open>pomodoro/timer.go\<close>): goroutines, channels and
      timers as step relations, with their invariants over all interleavings.
    \<^item> \<^verbatim>\<open>Session_Engine\<close>: \<^verbatim>\<open>session/engine.go\<close>, refined to a timeline of what had the focus.
    \<^item> \<^verbatim>\<open>Tagger\<close>, \<^verbatim>\<open>Learner\<close>: \<^verbatim>\<open>tagger\<close>; rule evaluation against the ordered list of rules, learning.
    \<^item> \<^verbatim>\<open>Submit\<close>, \<^verbatim>\<open>Auto_Submit\<close>: \<^verbatim>\<open>submission\<close> and \<^verbatim>\<open>autosubmit\<close>; aggregation and the submitting pass.
    \<^item> \<^verbatim>\<open>Sync_Client\<close>, \<^verbatim>\<open>Sync_Queue\<close>: \<^verbatim>\<open>sync\<close>; the meaning of replies, a pass of the queue and its outcomes.
    \<^item> \<^verbatim>\<open>Layout\<close>: \<^verbatim>\<open>layout\<close>; hashing, capture, store and upload of window layouts.
    \<^item> \<^verbatim>\<open>Web_UI\<close>: the dashboard (\<^verbatim>\<open>webui/api.go\<close>, \<^verbatim>\<open>server.go\<close>), every route as a function of the store.
    \<^item> \<^verbatim>\<open>Daemon\<close>: \<^verbatim>\<open>cmd/trasker-client/main.go\<close>; its goroutines as steps between statements, the timeline
      they record, and the status they report. \<^verbatim>\<open>Tracker\<close>: the Linux focus tracker and the screen lock
      monitor, and what the daemon records of what the tracker sees.
    \<^item> \<^verbatim>\<open>Client_Runtime\<close>: the state files of the daemon (\<^verbatim>\<open>runtime\<close>) and the commands that use them
      (\<^verbatim>\<open>cli.go\<close>). \<^verbatim>\<open>Desktop\<close>: first run, autostart, tray menu and the notification that asks the user.
      \<^verbatim>\<open>Go_Path\<close>: Unix paths, and that walking up from a directory ends.

  The server (\<^verbatim>\<open>cmd/trasker-server\<close>, \<^verbatim>\<open>internal/server\<close>): a REST API over a PostgreSQL store, for
  clients with API keys and a dashboard with JWTs, which also hands out client binaries with a new key
  patched into them.

    \<^item> \<^verbatim>\<open>Server_Store\<close>: every statement of \<^verbatim>\<open>internal/server/store\<close>. \<^verbatim>\<open>Server_Schema\<close>: the invariant
      \<open>srv_inv\<close> of the schema, that the statements keep it, and the downsampling of layouts.
    \<^item> \<^verbatim>\<open>Server_Auth\<close>: requests, replies, API keys, tokens and the two middlewares (\<^verbatim>\<open>auth\<close>,
      \<^verbatim>\<open>shared/apikey\<close>). \<^verbatim>\<open>Builder\<close>: the cache of client binaries and their patching.
    \<^item> \<^verbatim>\<open>Server_Client_Api\<close>, \<^verbatim>\<open>Server_Dashboard\<close>, \<^verbatim>\<open>Server_Router\<close>: the handlers and the table of routes of
      \<^verbatim>\<open>internal/server/api\<close>; every request keeps \<open>srv_inv\<close>, and who may do what.
    \<^item> \<^verbatim>\<open>Server_Properties\<close>: keys, tokens, logins, ownership and repeated uploads.
    \<^item> \<^verbatim>\<open>Migrations\<close>: the runner of the schema migrations (\<^verbatim>\<open>migrations/migrate.go\<close>), over scripts that are
      arguments. \<^verbatim>\<open>Server_Main\<close>: settings, the token secret, the first account, the choice of the client
      binaries and the hourly sweeps (\<^verbatim>\<open>cmd/trasker-server\<close>, \<^verbatim>\<open>secrets\<close>).
    \<^item> \<^verbatim>\<open>End_To_End\<close>: the client's queue against the server's handlers.

  Conventions. A statement on a database is a function of the tables, a schedule of faults and a
  count of statements (\<open>ticks\<close>): the statement with a number in the schedule fails and changes nothing,
  so a theorem without a hypothesis on faults holds whatever the driver does, and a transaction that
  fails puts the tables back. A function that can fail answers \<open>Inl\<close> an error, of which the kind is
  kept and the text dropped, or \<open>Inr\<close> a value. Times are nanoseconds since the epoch, those the client
  stores whole seconds, those of the server whole microseconds; \<open>now\<close> is what the clock says. Texts
  are lists of bytes, with ASCII case folding. Where SQL or a Go map leaves an order open, ties are in
  table order and map iteration is an argument constrained to permute the keys. Bodies of requests are
  JSON values. Concurrency is interleaving: each step of a relation holds the locks the code holds.

  Third-party code is a parameter: bcrypt, SHA-256, the JWT and UUID libraries, the identity provider,
  the chi router, the HTTP transport, the go toolchain, SQLite's \<^verbatim>\<open>julianday\<close>, the enumeration of
  windows. Where a theorem relies on documented behaviour of one of them it says so by name
  (\<open>bcrypt_law\<close>, \<open>jwt_law\<close>, \<open>router_law\<close>).

  Loops over rows and messages are structural recursions; the walk of \<open>find_up\<close> to the parents of a
  directory ends because a parent is shorter (\<open>Dir_shrinks\<close>). The only fuel is that of \<open>run_queue\<close>, the
  number of passes looked at; \<open>poll\<close>,
  \<open>capture_run\<close> and \<open>starts\<close> take the list of their ticks or starts, and a property of them holds for
  every list. The state of the machine around the client (files, processes, environment) is an argument,
  so a step of another process between two operations is another value of it.

  Not modelled: the embedded web pages and their file servers; what the platform code outside Linux does,
  and on Linux the calls of X11 and D-Bus, whose answers are arguments; the listeners, TLS and signals of
  the two programs; connecting to databases; logging and the texts of errors; the uncached \<^verbatim>\<open>Build\<close> of the
  builder, which only runs the go toolchain. The shared structs of \<^verbatim>\<open>internal/shared/models\<close> are used by
  neither side of the exchange.
\<close>

end
